(* ===== verification/Prelude.thy ===== *)
theory Prelude
  imports Main "HOL-Library.Word" "HOL-Library.Monad_Syntax"
begin

text \<open>
  Shared vocabulary of the development: Go's machine integers as words, the outcome of a Go
  call (a value, a returned error, a run-time panic), Go's slice and copy primitives, and the
  generic lemmas on lists, maps, words and outcomes that the component theories use.
\<close>

named_theorems go_defs \<open>unfolding equations of small wrapper definitions\<close>
named_theorems wf_intro \<open>preservation of well-formedness\<close>

type_synonym byte = "8 word"
type_synonym u32 = "32 word"
type_synonym u64 = "64 word"
type_synonym i64 = "64 word"

section \<open>Outcomes\<close>

text \<open>
  A panic is not an error value: it unwinds the goroutine, and no code under src/ recovers one.
\<close>

datatype go_panic =
    IndexOutOfRange
  | SliceOutOfRange
  | MakeSliceLen
  | NilDereference
  | TypeAssertion
  | ShiftTooLarge
  | NonPositiveInterval
  | BadLength nat nat
  | ExternalPanic string

datatype ('e, 'a) outcome =
    is_Ok: Ok (the_Ok: 'a)
  | is_Err: Err (the_Err: 'e)
  | is_Panic: Panic (the_Panic: go_panic)

primrec bind_outcome :: "('e, 'a) outcome \<Rightarrow> ('a \<Rightarrow> ('e, 'b) outcome) \<Rightarrow> ('e, 'b) outcome" where
  "bind_outcome (Ok x) f = f x"
| "bind_outcome (Err e) f = Err e"
| "bind_outcome (Panic p) f = Panic p"

primrec mapM_outcome :: "('a \<Rightarrow> ('e, 'b) outcome) \<Rightarrow> 'a list \<Rightarrow> ('e, 'b list) outcome" where
  "mapM_outcome f [] = Ok []"
| "mapM_outcome f (x # xs) =
     bind_outcome (f x) (\<lambda>y. bind_outcome (mapM_outcome f xs) (\<lambda>ys. Ok (y # ys)))"

lemma bind_outcome_eq_Ok [simp]:
  "bind_outcome m f = Ok y \<longleftrightarrow> (\<exists>x. m = Ok x \<and> f x = Ok y)"
  by (cases m) auto

lemma bind_outcome_Ok_right [simp]: "bind_outcome m Ok = m"
  by (cases m) auto

lemma bind_outcome_assoc:
  "bind_outcome (bind_outcome m f) g = bind_outcome m (\<lambda>x. bind_outcome (f x) g)"
  by (cases m) auto

text \<open>
  Sequencing of a method that changes its receiver: the state a failing step leaves behind is
  the state the caller sees, since nothing is rolled back.
\<close>

definition bind_state ::
  "'s \<times> ('e, 'a) outcome \<Rightarrow> ('a \<Rightarrow> 's \<Rightarrow> 's \<times> ('e, 'b) outcome) \<Rightarrow> 's \<times> ('e, 'b) outcome" where
  "bind_state m f =
     (case snd m of
        Ok x \<Rightarrow> f x (fst m)
      | Err e \<Rightarrow> (fst m, Err e)
      | Panic p \<Rightarrow> (fst m, Panic p))"

lemma bind_state_simps [simp]:
  "bind_state (s, Ok x) f = f x s"
  "bind_state (s, Err e) f = (s, Err e)"
  "bind_state (s, Panic p) f = (s, Panic p)"
  by (simp_all add: bind_state_def)

lemma bind_state_eq_Ok:
  "bind_state m f = (s', Ok y) \<longleftrightarrow> (\<exists>s x. m = (s, Ok x) \<and> f x s = (s', Ok y))"
  by (cases m; cases "snd m") auto

lemma case_pair_eq: "(case p of (s, r) \<Rightarrow> (f s, r)) = (y, q) \<longleftrightarrow> (\<exists>s. p = (s, q) \<and> f s = y)"
  by (cases p) auto

text \<open>The same for a step that may not return, where not returning is \<open>None\<close>.\<close>

definition then_exec ::
  "('s \<times> ('e, unit) outcome) option \<Rightarrow> ('s \<Rightarrow> ('s \<times> ('e, unit) outcome) option)
   \<Rightarrow> ('s \<times> ('e, unit) outcome) option" where
  "then_exec m f =
     (case m of
        None \<Rightarrow> None
      | Some (s, r) \<Rightarrow> (case r of Ok _ \<Rightarrow> f s | _ \<Rightarrow> Some (s, r)))"

lemma then_exec_simps [simp]:
  "then_exec None f = None"
  "then_exec (Some (s, Ok ())) f = f s"
  "then_exec (Some (s, Err e)) f = Some (s, Err e)"
  "then_exec (Some (s, Panic p)) f = Some (s, Panic p)"
  by (simp_all add: then_exec_def)

lemma then_exec_eq_Ok:
  "then_exec m f = Some (s', Ok ()) \<longleftrightarrow> (\<exists>s. m = Some (s, Ok ()) \<and> f s = Some (s', Ok ()))"
  by (auto simp: then_exec_def split: option.splits outcome.splits)

lemma then_execE:
  assumes "then_exec m f = Some (s', r)"
  obtains (stop) "m = Some (s', r)" "r \<noteq> Ok ()" | (go) s where "m = Some (s, Ok ())" "f s = Some (s', r)"
  using assms by (auto simp: then_exec_def split: option.splits outcome.splits prod.splits)

lemma then_exec_returns:
  assumes "m \<noteq> None" and "\<And>s. f s \<noteq> None"
  shows "then_exec m f \<noteq> None"
  using assms by (auto simp: then_exec_def split: outcome.splits)

lemma mapM_outcome_inverse:
  assumes "mapM_outcome f xs = Ok ys" and "\<And>x y. x \<in> set xs \<Longrightarrow> f x = Ok y \<Longrightarrow> g y = Ok (h x)"
  shows "mapM_outcome g ys = Ok (map h xs)"
  using assms by (induction xs arbitrary: ys) auto

lemma length_mapM_outcome: "mapM_outcome f xs = Ok ys \<Longrightarrow> length ys = length xs"
  by (induction xs arbitrary: ys) auto

section \<open>Slices\<close>

text \<open>
  \<open>copy(dst, src)\<close> overwrites the first \<open>min (len dst) (len src)\<close> cells of \<open>dst\<close>.
  \<open>xs[lo:hi]\<close> panics unless \<open>lo \<le> hi \<le> cap xs\<close>; the slices it is used on here come
  from \<open>make\<close>, whose capacity is their length.
\<close>

definition go_copy :: "'a list \<Rightarrow> 'a list \<Rightarrow> 'a list" where
  "go_copy dst src = take (length dst) src @ drop (length src) dst"

definition go_slice :: "'a list \<Rightarrow> nat \<Rightarrow> nat \<Rightarrow> ('e, 'a list) outcome" where
  "go_slice xs lo hi =
     (if lo \<le> hi \<and> hi \<le> length xs then Ok (take (hi - lo) (drop lo xs)) else Panic SliceOutOfRange)"

lemma length_go_copy [simp]: "length (go_copy dst src) = length dst"
  by (simp add: go_copy_def)

lemma go_copy_same_length: "length src = length dst \<Longrightarrow> go_copy dst src = src"
  by (simp add: go_copy_def)

lemma go_copy_extend: "length src \<le> n \<Longrightarrow> go_copy (replicate n z) src = src @ replicate (n - length src) z"
  by (simp add: go_copy_def)

lemma map_nth_upt [simp]: "length xs = n \<Longrightarrow> map ((!) xs) [0..<n] = xs"
  by (auto intro: nth_equalityI)

section \<open>Maps\<close>

lemma finite_dom_upd [simp]: "finite (dom (m(k \<mapsto> v))) = finite (dom m)"
  by simp

section \<open>Words\<close>

lemma unat_add_no_overflow:
  "unat a + unat b < 2 ^ LENGTH('n::len) \<Longrightarrow> unat (a + b :: 'n word) = unat a + unat b"
  by (simp add: unat_word_ariths)

lemma unat_byte_less: "unat (b :: byte) < 256"
proof -
  have "unat b < 2 ^ LENGTH(8)" by (rule unsigned_less)
  then show ?thesis by simp
qed

lemma unat_u64_less: "unat (w :: u64) < 2 ^ 64"
proof -
  have "unat w < 2 ^ LENGTH(64)" by (rule unsigned_less)
  then show ?thesis by simp
qed

lemma unat_add_no_wrap:
  fixes a b :: u64
  assumes "unat a \<le> unat (a + b)"
  shows "unat (a + b) = unat a + unat b"
proof (cases "unat a + unat b < 2 ^ 64")
  case True
  then show ?thesis by (simp add: unat_word_ariths)
next
  case False
  have "unat (a + b) = (unat a + unat b) mod 2 ^ 64" by (simp add: unat_word_ariths)
  also have "\<dots> = (unat a + unat b - 2 ^ 64) mod 2 ^ 64"
    using False by (intro le_mod_geq) simp
  also have "\<dots> < unat a"
    using unat_u64_less [of a] unat_u64_less [of b] False by simp
  finally show ?thesis using assms by simp
qed

lemma unat_sub_le: "b \<le> a \<Longrightarrow> unat (a - b :: 'n::len word) = unat a - unat b"
  by (rule unat_sub)

lemma unat_succ:
  assumes "(n :: 'n::len word) < - 1"
  shows "unat (n + 1) = unat n + 1"
proof -
  have "n + 1 \<noteq> 0" using assms by (metis add.commute add_diff_cancel_left' diff_0 less_irrefl)
  then show ?thesis by (metis Suc_eq_plus1 add.commute unatSuc)
qed

lemma find_SomeD: "find f xs = Some x \<Longrightarrow> x \<in> set xs \<and> f x"
  by (induction xs) (auto split: if_splits)

end
