(* ===== verification/Bytes.thy ===== *)
theory Bytes
  imports Prelude
begin

text \<open>
  The byte-level routines of Go's standard library that the program calls: big-endian
  conversion between byte slices and big integers (\<open>big.Int.SetBytes\<close>, \<open>big.Int.Bytes\<close>),
  \<open>binary.BigEndian.PutUint32\<close>, hexadecimal and decimal text, \<open>strings.Contains\<close> and \<open>strings.Replace\<close>.
\<close>

unbundle bit_operations_syntax

section \<open>Definitions\<close>

definition SetBytes_nat :: "byte list \<Rightarrow> nat" where
  "SetBytes_nat bs = fold (\<lambda>b acc. acc * 256 + unat b) bs 0"

definition SetBytes :: "byte list \<Rightarrow> int" where
  "SetBytes bs = int (SetBytes_nat bs)"

fun be_bytes :: "nat \<Rightarrow> byte list" where
  "be_bytes n = (if n = 0 then [] else be_bytes (n div 256) @ [of_nat (n mod 256)])"

declare be_bytes.simps [simp del]

definition Int_Bytes :: "int \<Rightarrow> byte list" where
  "Int_Bytes x = be_bytes (nat \<bar>x\<bar>)"

definition pad32 :: "byte list \<Rightarrow> ('e, byte list) outcome" where
  "pad32 b = (if length b \<le> 32 then Ok (replicate (32 - length b) 0 @ b) else Panic SliceOutOfRange)"

definition PutUint32 :: "u32 \<Rightarrow> byte list" where
  "PutUint32 v = [ucast (drop_bit 24 v), ucast (drop_bit 16 v), ucast (drop_bit 8 v), ucast v]"

definition hex_digit :: "nat \<Rightarrow> char" where
  "hex_digit n = (''0123456789abcdef'' ! n)"

definition EncodeToString :: "byte list \<Rightarrow> string" where
  "EncodeToString bs = concat (map (\<lambda>b. [hex_digit (unat b div 16), hex_digit (unat b mod 16)]) bs)"

definition fromHexChar :: "char \<Rightarrow> nat option" where
  "fromHexChar c =
     (let n = of_char c :: nat
      in if 48 \<le> n \<and> n \<le> 57 then Some (n - 48)
         else if 97 \<le> n \<and> n \<le> 102 then Some (n - 97 + 10)
         else if 65 \<le> n \<and> n \<le> 70 then Some (n - 65 + 10)
         else None)"

fun DecodeString :: "string \<Rightarrow> byte list option" where
  "DecodeString [] = Some []"
| "DecodeString [c] = None"
| "DecodeString (c # d # cs) =
     (case fromHexChar c of None \<Rightarrow> None
      | Some a \<Rightarrow> (case fromHexChar d of None \<Rightarrow> None
         | Some b \<Rightarrow> map_option ((#) (of_nat (16 * a + b))) (DecodeString cs)))"

fun dec_digits :: "nat \<Rightarrow> string" where
  "dec_digits n =
     (if n < 10 then [''0123456789'' ! n] else dec_digits (n div 10) @ [''0123456789'' ! (n mod 10)])"

declare dec_digits.simps [simp del]

fun hex_digits :: "nat \<Rightarrow> string" where
  "hex_digits n =
     (if n < 16 then [hex_digit n] else hex_digits (n div 16) @ [hex_digit (n mod 16)])"

declare hex_digits.simps [simp del]

fun strings_prefix :: "string \<Rightarrow> string \<Rightarrow> bool" where
  "strings_prefix [] s = True"
| "strings_prefix (p # ps) [] = False"
| "strings_prefix (p # ps) (c # cs) = (p = c \<and> strings_prefix ps cs)"

fun strings_Contains :: "string \<Rightarrow> string \<Rightarrow> bool" where
  "strings_Contains [] sub = (sub = [])"
| "strings_Contains (c # cs) sub = (strings_prefix sub (c # cs) \<or> strings_Contains cs sub)"

text \<open>\<open>strings.Replace\<close> with count 1.\<close>

fun strings_Replace1 :: "string \<Rightarrow> string \<Rightarrow> string \<Rightarrow> string" where
  "strings_Replace1 s old new =
     (if strings_prefix old s then new @ drop (length old) s
      else case s of [] \<Rightarrow> [] | c # cs \<Rightarrow> c # strings_Replace1 cs old new)"

declare strings_Replace1.simps [simp del]

section \<open>Big-endian integers\<close>

lemma SetBytes_nat_Nil [simp]: "SetBytes_nat [] = 0"
  by (simp add: SetBytes_nat_def)

lemma SetBytes_nat_snoc [simp]: "SetBytes_nat (bs @ [b]) = SetBytes_nat bs * 256 + unat b"
  by (simp add: SetBytes_nat_def)

lemma SetBytes_nat_less: "SetBytes_nat bs < 256 ^ length bs"
proof (induction bs rule: rev_induct)
  case Nil
  show ?case by simp
next
  case (snoc b bs)
  have "unat b < 256" by (rule unat_byte_less)
  with snoc show ?case by simp
qed

lemma SetBytes_nat_zeros [simp]: "SetBytes_nat (replicate n 0 @ bs) = SetBytes_nat bs"
proof (induction bs rule: rev_induct)
  case Nil
  show ?case
    by (induction n) (simp_all add: SetBytes_nat_def replicate_append_same [symmetric])
next
  case (snoc b bs)
  then show ?case
    by (simp flip: append_assoc)
qed

lemma SetBytes_nat_be_bytes [simp]: "SetBytes_nat (be_bytes n) = n"
proof (induction n rule: be_bytes.induct)
  case (1 n)
  show ?case
  proof (cases "n = 0")
    case True
    then show ?thesis by (simp add: be_bytes.simps)
  next
    case False
    with 1 have "SetBytes_nat (be_bytes n) = n div 256 * 256 + unat (of_nat (n mod 256) :: byte)"
      by (subst be_bytes.simps) simp
    then show ?thesis by (simp add: unat_of_nat take_bit_eq_mod)
  qed
qed

lemma length_be_bytes: "n < 256 ^ k \<Longrightarrow> length (be_bytes n) \<le> k"
proof (induction k arbitrary: n)
  case 0
  then show ?case by (simp add: be_bytes.simps)
next
  case (Suc k)
  then have "n div 256 < 256 ^ k" by (simp add: less_mult_imp_div_less ac_simps)
  from Suc.IH [OF this] show ?case by (subst be_bytes.simps) simp
qed

lemma SetBytes_Int_Bytes [simp]: "SetBytes (Int_Bytes x) = \<bar>x\<bar>"
  by (simp add: SetBytes_def Int_Bytes_def)

lemma SetBytes_range: "0 \<le> SetBytes bs \<and> SetBytes bs < 256 ^ length bs"
proof -
  have "int (SetBytes_nat bs) < int (256 ^ length bs)"
    using SetBytes_nat_less by (simp only: of_nat_less_iff)
  then show ?thesis by (simp add: SetBytes_def)
qed

lemma length_Int_Bytes: "0 \<le> x \<Longrightarrow> x < 2 ^ 256 \<Longrightarrow> length (Int_Bytes x) \<le> 32"
proof -
  assume "0 \<le> x" and "x < 2 ^ 256"
  then have "nat \<bar>x\<bar> < 256 ^ 32" by simp
  then show ?thesis unfolding Int_Bytes_def by (rule length_be_bytes)
qed

lemma pad32_word:
  assumes "0 \<le> x" and "x < 2 ^ 256"
  shows "\<exists>bs. pad32 (Int_Bytes x) = Ok bs \<and> length bs = 32 \<and> SetBytes bs = x"
  using length_Int_Bytes [OF assms] assms SetBytes_Int_Bytes [of x]
  by (simp add: pad32_def SetBytes_def)

section \<open>Hexadecimal text\<close>

lemma fromHexChar_hex_digit: "n < 16 \<Longrightarrow> fromHexChar (hex_digit n) = Some n"
proof -
  have "\<forall>n\<in>{0..<16}. fromHexChar (hex_digit n) = Some n"
    by (simp add: fromHexChar_def hex_digit_def Let_def atLeast0LessThan lessThan_nat_numeral)
  then show "n < 16 \<Longrightarrow> fromHexChar (hex_digit n) = Some n" by simp
qed

lemma DecodeString_EncodeToString: "DecodeString (EncodeToString bs) = Some bs"
proof (induction bs)
  case Nil
  show ?case by (simp add: EncodeToString_def)
next
  case (Cons b bs)
  have "unat b < 256" by (rule unat_byte_less)
  then have "unat b div 16 < 16" and "unat b mod 16 < 16" by auto
  moreover have "of_nat (16 * (unat b div 16) + unat b mod 16) = b"
    by (simp only: mult_div_mod_eq) simp
  ultimately show ?case
    using Cons by (simp add: EncodeToString_def fromHexChar_hex_digit)
qed

lemma length_EncodeToString [simp]: "length (EncodeToString bs) = 2 * length bs"
  by (induction bs) (simp_all add: EncodeToString_def)

section \<open>Fixed-width integers as bytes\<close>

lemma PutUint32_inj: "PutUint32 a = PutUint32 b \<Longrightarrow> a = b"
proof (rule bit_word_eqI)
  fix n assume eq: "PutUint32 a = PutUint32 b" and n: "n < LENGTH(32)"
  have bytes: "bit (ucast (drop_bit k a) :: byte) i = bit (ucast (drop_bit k b) :: byte) i"
    if "k \<in> {0, 8, 16, 24}" for k i
    using eq that by (auto simp: PutUint32_def)
  have "n div 8 * 8 \<in> {0, 8, 16, 24}" using n by auto
  from bytes [OF this, of "n mod 8"] show "bit a n = bit b n"
    using n by (simp add: bit_simps)
qed

lemma length_PutUint32 [simp]: "length (PutUint32 v) = 4"
  by (simp add: PutUint32_def)

end
