(* ===== verification/HashAddr.thy ===== *)
theory HashAddr
  imports Bytes
begin

text \<open>
  Hashes and addresses, from src/types/hash.go and src/types/address.go: Go's fixed-length
  arrays \<open>[32]uint8\<close> and \<open>[20]uint8\<close> as subtypes of the byte lists, their conversions to and
  from slices, and the order in which \<open>WorldState.StateRoot\<close> sorts addresses.
\<close>

section \<open>Definitions\<close>

typedef hash = "{bs :: byte list. length bs = 32}"
  morphisms hash_bytes Abs_hash
  by (rule exI [of _ "replicate 32 0"]) simp

definition mk_hash :: "byte list \<Rightarrow> hash" where
  "mk_hash bs = Abs_hash (take 32 (bs @ replicate 32 0))"

typedef address = "{bs :: byte list. length bs = 20}"
  morphisms address_bytes Abs_address
  by (rule exI [of _ "replicate 20 0"]) simp

definition mk_address :: "byte list \<Rightarrow> address" where
  "mk_address bs = Abs_address (take 20 (bs @ replicate 20 0))"

definition zero_hash :: hash where
  "zero_hash = mk_hash (replicate 32 0)"

definition zero_address :: address where
  "zero_address = mk_address (replicate 20 0)"

definition Hash_IsZero :: "hash \<Rightarrow> bool" where
  "Hash_IsZero h = list_all (\<lambda>i. hash_bytes h ! i = 0) [0..<32]"

definition Hash_ToSlice :: "hash \<Rightarrow> byte list" where
  "Hash_ToSlice h = map (\<lambda>i. hash_bytes h ! i) [0..<32]"

definition Hash_String :: "hash \<Rightarrow> string" where
  "Hash_String h = EncodeToString (Hash_ToSlice h)"

definition HashFromBytes :: "byte list \<Rightarrow> ('e, hash) outcome" where
  "HashFromBytes b =
     (if length b \<noteq> 32 then Panic (BadLength (length b) 32)
      else Ok (mk_hash (map (\<lambda>i. b ! i) [0..<32])))"

text \<open>\<open>rand_Read\<close> is what \<open>rand.Read\<close> puts into the slice it is given.\<close>

definition RandomBytes :: "(byte list \<Rightarrow> byte list) \<Rightarrow> int \<Rightarrow> ('e, byte list) outcome" where
  "RandomBytes rand_Read n =
     (if n < 0 then Panic MakeSliceLen else Ok (rand_Read (replicate (nat n) 0)))"

definition RandomHash :: "(byte list \<Rightarrow> byte list) \<Rightarrow> ('e, hash) outcome" where
  "RandomHash rand_Read = bind_outcome (RandomBytes rand_Read 32) HashFromBytes"

definition Address_ToSlice :: "address \<Rightarrow> byte list" where
  "Address_ToSlice a = map (\<lambda>i. address_bytes a ! i) [0..<20]"

definition Address_String :: "address \<Rightarrow> string" where
  "Address_String a = EncodeToString (Address_ToSlice a)"

definition AddressFromBytes :: "byte list \<Rightarrow> ('e, address) outcome" where
  "AddressFromBytes b =
     (if length b \<noteq> 20 then Panic (BadLength (length b) 20)
      else Ok (mk_address (map (\<lambda>i. b ! i) [0..<20])))"

definition Address_Equals :: "address \<Rightarrow> address \<Rightarrow> bool" where
  "Address_Equals a b = (address_bytes a = address_bytes b)"

definition RandomAddress :: "('e, address) outcome" where
  "RandomAddress = AddressFromBytes (map (\<lambda>i. of_nat (i + 1)) [0..<20])"

text \<open>
  The comparison of \<open>StateRoot\<close>: the first byte where the two arrays differ decides.
\<close>

fun bytes_less :: "byte list \<Rightarrow> byte list \<Rightarrow> bool" where
  "bytes_less (x # xs) (y # ys) = (if x \<noteq> y then x < y else bytes_less xs ys)"
| "bytes_less _ _ = False"

section \<open>Arrays and their byte lists\<close>

lemma length_hash_bytes [simp]: "length (hash_bytes h) = 32"
  using hash_bytes [of h] by simp

declare hash_bytes_inverse [code abstype]

lemma mk_hash_rep [code abstract]: "hash_bytes (mk_hash bs) = take 32 (bs @ replicate 32 0)"
  by (simp add: mk_hash_def Abs_hash_inverse)

lemma hash_bytes_mk_hash [simp]: "length bs = 32 \<Longrightarrow> hash_bytes (mk_hash bs) = bs"
  by (simp add: mk_hash_rep)

lemma mk_hash_bytes [simp]: "mk_hash (hash_bytes h) = h"
  by (simp add: hash_bytes_inject [symmetric])

lemma mk_hash_inject [simp]:
  "length a = 32 \<Longrightarrow> length b = 32 \<Longrightarrow> mk_hash a = mk_hash b \<longleftrightarrow> a = b"
  by (metis hash_bytes_mk_hash)

lemma length_address_bytes [simp]: "length (address_bytes a) = 20"
  using address_bytes [of a] by simp

declare address_bytes_inverse [code abstype]

lemma mk_address_rep [code abstract]: "address_bytes (mk_address bs) = take 20 (bs @ replicate 20 0)"
  by (simp add: mk_address_def Abs_address_inverse)

lemma address_bytes_mk_address [simp]: "length bs = 20 \<Longrightarrow> address_bytes (mk_address bs) = bs"
  by (simp add: mk_address_rep)

lemma mk_address_bytes [simp]: "mk_address (address_bytes a) = a"
  by (simp add: address_bytes_inject [symmetric])

lemma mk_address_inject [simp]:
  "length a = 20 \<Longrightarrow> length b = 20 \<Longrightarrow> mk_address a = mk_address b \<longleftrightarrow> a = b"
  by (metis address_bytes_mk_address)

instantiation hash :: equal
begin
definition equal_hash :: "hash \<Rightarrow> hash \<Rightarrow> bool" where
  "equal_hash a b = (hash_bytes a = hash_bytes b)"
instance by standard (simp add: equal_hash_def hash_bytes_inject)
end

instantiation address :: equal
begin
definition equal_address :: "address \<Rightarrow> address \<Rightarrow> bool" where
  "equal_address a b = (address_bytes a = address_bytes b)"
instance by standard (simp add: equal_address_def address_bytes_inject)
end

instance hash :: finite
proof
  have "finite {bs :: byte list. set bs \<subseteq> UNIV \<and> length bs = 32}"
    by (rule finite_lists_length_eq) simp
  then have "finite (hash_bytes ` UNIV)"
    by (rule finite_subset [rotated]) auto
  then show "finite (UNIV :: hash set)"
    by (rule finite_imageD) (simp add: inj_on_def hash_bytes_inject)
qed

instance address :: finite
proof
  have "finite {bs :: byte list. set bs \<subseteq> UNIV \<and> length bs = 20}"
    by (rule finite_lists_length_eq) simp
  then have "finite (address_bytes ` UNIV)"
    by (rule finite_subset [rotated]) auto
  then show "finite (UNIV :: address set)"
    by (rule finite_imageD) (simp add: inj_on_def address_bytes_inject)
qed

section \<open>The order on addresses\<close>

lemma bytes_less_irrefl: "\<not> bytes_less xs xs"
  by (induction xs) auto

lemma bytes_less_trans:
  "bytes_less xs ys \<Longrightarrow> bytes_less ys zs \<Longrightarrow> bytes_less xs zs"
proof (induction xs ys arbitrary: zs rule: bytes_less.induct)
  case (1 x xs y ys)
  then show ?case
    by (cases zs) (auto split: if_splits)
qed auto

lemma bytes_less_linear:
  "length xs = length ys \<Longrightarrow> bytes_less xs ys \<or> xs = ys \<or> bytes_less ys xs"
  by (induction xs ys rule: list_induct2) auto

instantiation address :: linorder
begin
definition less_address :: "address \<Rightarrow> address \<Rightarrow> bool" where
  "less_address a b = bytes_less (address_bytes a) (address_bytes b)"
definition less_eq_address :: "address \<Rightarrow> address \<Rightarrow> bool" where
  "less_eq_address a b = (bytes_less (address_bytes a) (address_bytes b) \<or> a = b)"
instance
proof
  fix a b c :: address
  show "a \<le> a" by (simp add: less_eq_address_def)
  show "a \<le> b \<Longrightarrow> b \<le> c \<Longrightarrow> a \<le> c"
    by (auto simp: less_eq_address_def dest: bytes_less_trans)
  show "a \<le> b \<Longrightarrow> b \<le> a \<Longrightarrow> a = b"
    by (auto simp: less_eq_address_def bytes_less_irrefl dest: bytes_less_trans)
  show "(a < b) = (a \<le> b \<and> \<not> b \<le> a)"
    by (auto simp: less_eq_address_def less_address_def bytes_less_irrefl dest: bytes_less_trans)
  show "a \<le> b \<or> b \<le> a"
    using bytes_less_linear [of "address_bytes a" "address_bytes b"]
    by (auto simp: less_eq_address_def address_bytes_inject)
qed
end

section \<open>Conversions\<close>

lemma Hash_ToSlice_eq [simp]: "Hash_ToSlice h = hash_bytes h"
  by (simp add: Hash_ToSlice_def)

lemma Address_ToSlice_eq [simp]: "Address_ToSlice a = address_bytes a"
  by (simp add: Address_ToSlice_def)

lemma HashFromBytes_ok [simp]: "length b = 32 \<Longrightarrow> HashFromBytes b = Ok (mk_hash b)"
  by (simp add: HashFromBytes_def)

lemma AddressFromBytes_ok [simp]: "length b = 20 \<Longrightarrow> AddressFromBytes b = Ok (mk_address b)"
  by (simp add: AddressFromBytes_def)

lemma Hash_IsZero_iff: "Hash_IsZero h \<longleftrightarrow> h = zero_hash"
proof -
  have "Hash_IsZero h \<longleftrightarrow> hash_bytes h = replicate 32 0"
    by (auto simp: Hash_IsZero_def list_all_iff list_eq_iff_nth_eq)
  then show ?thesis
    by (simp add: zero_hash_def flip: hash_bytes_inject)
qed

lemma Address_Equals_iff: "Address_Equals a b \<longleftrightarrow> a = b"
  by (simp add: Address_Equals_def address_bytes_inject)

end
