(* ===== verification/Errors.thy ===== *)
theory Errors
  imports HashAddr
begin

text \<open>
  The error values of the program: one constructor per \<open>fmt.Errorf\<close> or \<open>errors.New\<close> site, with
  the values the message interpolates, and the text of the message. The text matters:
  \<open>Server.processBlock\<close> decides what to do by searching it. Errors of packages outside src/
  carry their text.
\<close>

datatype (plugins only: code size) go_error =
    ErrTxNoSignature
  | ErrTxBadSignature
  | ErrBlockNoSignature
  | ErrBlockBadSignature
  | ErrDataHash hash
  | ErrHasBlock u32 hash
  | ErrTooHigh hash u32 u32
  | ErrHeaderLocked u32
  | ErrGetHeader u32
  | ErrPrevHash hash
  | ErrZeroTransfer
  | ErrNoSender address
  | ErrInsufficientSend address u64 u64
  | ErrNoAccount address
  | ErrInsufficientSub address u64 u64
  | ErrAccountNotFound address
  | ErrKeyNotFound hash address
  | ErrTransferFailed go_error
  | ErrPush
  | ErrDup
  | ErrSwap
  | ErrJump u64
  | ErrRevert "byte list"
  | ErrOutOfGas u64 u64
  | ErrNoBlock u32
  | ErrNoBlockHash hash
  | ErrNoTx hash
  | ErrNoBlockDB u32 go_error
  | ErrNoBlockHashDB hash go_error
  | ErrNoTxDB hash go_error
  | ErrProposer address u32 address
  | ErrDoubleSign address u32
  | ErrNoValidators
  | ErrDifficulty hash u64
  | ErrMiningTimeout
  | ErrNoNonce
  | ErrInvalidPublicKey
  | ErrUnknownPeer string string
  | ErrPeerNotFound string
  | ErrDecodeMessage string string
  | ErrMessageType byte
  | ErrMissingParam string
  | ErrExternal string

type_synonym 'a res = "(go_error, 'a) outcome"

definition fmt_u32 :: "u32 \<Rightarrow> string" where
  "fmt_u32 n = dec_digits (unat n)"

definition fmt_u64 :: "u64 \<Rightarrow> string" where
  "fmt_u64 n = dec_digits (unat n)"

primrec Error_text :: "go_error \<Rightarrow> string" where
  "Error_text ErrTxNoSignature = ''transaction has no signature''"
| "Error_text ErrTxBadSignature = ''invalid transaction signature''"
| "Error_text ErrBlockNoSignature = ''block has no signature''"
| "Error_text ErrBlockBadSignature = ''block has invalid signature''"
| "Error_text (ErrDataHash h) = ''block ('' @ Hash_String h @ '') has an invalid data hash''"
| "Error_text (ErrHasBlock n h) =
     ''chain already contains block ('' @ fmt_u32 n @ '') with hash ('' @ Hash_String h @ '')''"
| "Error_text (ErrTooHigh h n m) =
     ''Block ('' @ Hash_String h @ '') with height('' @ fmt_u32 n
     @ '') is too high => current height ('' @ fmt_u32 m @ '')''"
| "Error_text (ErrHeaderLocked n) = ''given height ('' @ fmt_u32 n @ '') too high''"
| "Error_text (ErrGetHeader n) = ''given height ('' @ fmt_u32 n @ '') Too high''"
| "Error_text (ErrPrevHash h) =
     ''the hash of the previous block ('' @ Hash_String h @ '') is invalid ''"
| "Error_text ErrZeroTransfer = ''cannot transfer zero value''"
| "Error_text (ErrNoSender a) = ''sender account '' @ Address_String a @ '' does not exist''"
| "Error_text (ErrInsufficientSend a b v) =
     ''insufficient balance: account '' @ Address_String a @ '' has '' @ fmt_u64 b
     @ '', tried to send '' @ fmt_u64 v"
| "Error_text (ErrNoAccount a) = ''account '' @ Address_String a @ '' does not exist''"
| "Error_text (ErrInsufficientSub a b v) =
     ''insufficient balance: account '' @ Address_String a @ '' has '' @ fmt_u64 b
     @ '', tried to subtract '' @ fmt_u64 v"
| "Error_text (ErrAccountNotFound a) = ''account '' @ Address_String a @ '' not found''"
| "Error_text (ErrKeyNotFound k a) =
     ''key '' @ Hash_String k @ '' not found in account '' @ Address_String a"
| "Error_text (ErrTransferFailed e) = ''transfer failed: '' @ Error_text e"
| "Error_text ErrPush = ''EVM Error: push out of bounds''"
| "Error_text ErrDup = ''EVM Error: dup out of bounds''"
| "Error_text ErrSwap = ''EVM Error: swap out of bounds''"
| "Error_text (ErrJump d) = ''EVM Error: invalid jump destination '' @ fmt_u64 d"
| "Error_text (ErrRevert bs) = ''EVM REVERT: '' @ EncodeToString bs"
| "Error_text (ErrOutOfGas u l) = ''out of gas: used '' @ fmt_u64 u @ '', limit '' @ fmt_u64 l"
| "Error_text (ErrNoBlock n) = ''block at height '' @ fmt_u32 n @ '' not found''"
| "Error_text (ErrNoBlockHash h) = ''block with hash '' @ Hash_String h @ '' not found''"
| "Error_text (ErrNoTx h) = ''transaction with hash '' @ Hash_String h @ '' not found''"
| "Error_text (ErrNoBlockDB n e) = ''block at height '' @ fmt_u32 n @ '' not found: '' @ Error_text e"
| "Error_text (ErrNoBlockHashDB h e) =
     ''block with hash '' @ Hash_String h @ '' not found: '' @ Error_text e"
| "Error_text (ErrNoTxDB h e) =
     ''transaction with hash '' @ Hash_String h @ '' not found: '' @ Error_text e"
| "Error_text (ErrProposer c n e) =
     ''unexpected proposer '' @ Address_String c @ '' at height '' @ fmt_u32 n
     @ '', expected '' @ Address_String e"
| "Error_text (ErrDoubleSign a n) =
     ''validator '' @ Address_String a @ '' double-signed at height '' @ fmt_u32 n"
| "Error_text ErrNoValidators = ''no active validators''"
| "Error_text (ErrDifficulty h d) =
     ''block hash '' @ Hash_String h @ '' does not satisfy difficulty '' @ fmt_u64 d"
| "Error_text ErrMiningTimeout = ''mining timed out after 10s''"
| "Error_text ErrNoNonce = ''failed to find nonce''"
| "Error_text ErrInvalidPublicKey = ''invalid public key''"
| "Error_text (ErrUnknownPeer me to) = me @ '': could not send message to unknown peer '' @ to"
| "Error_text (ErrPeerNotFound a) = ''peer '' @ a @ '' not found''"
| "Error_text (ErrDecodeMessage a e) = ''failed to decode message from '' @ a @ '': '' @ e"
| "Error_text (ErrMessageType t) = ''invalid message type '' @ hex_digits (unat t)"
| "Error_text (ErrMissingParam p) = ''missing '' @ p @ '' parameter''"
| "Error_text (ErrExternal e) = e"

end
