(* ===== verification/VmStack.thy ===== *)
theory VmStack
  imports Errors
begin

text \<open>
  The operand stack of src/core/vm.go. A stack is its slice \<open>data\<close>, top last; its elements are
  \<open>big.Int\<close> values, which no instruction changes in place. \<open>big.Int.And\<close> is the bitwise
  conjunction of two's complement integers, as \<open>AND\<close> on \<open>int\<close>.
\<close>

unbundle bit_operations_syntax

section \<open>Definitions\<close>

definition Max256 :: int where
  "Max256 = push_bit 256 1 - 1"

type_synonym stack = "int list"

definition NewStack :: stack where
  "NewStack = []"

definition Stack_Push :: "stack \<Rightarrow> int \<Rightarrow> stack" where
  "Stack_Push s v = s @ [v AND Max256]"

definition Stack_Pop :: "stack \<Rightarrow> int \<times> stack" where
  "Stack_Pop s = (if s = [] then (0, s) else (last s, butlast s))"

definition Stack_Peek :: "stack \<Rightarrow> int \<Rightarrow> int res" where
  "Stack_Peek s n =
     (if int (length s) \<le> n then Ok 0
      else if n < 0 then Panic IndexOutOfRange
      else Ok (s ! nat (int (length s) - 1 - n)))"

definition u256 :: "int \<Rightarrow> int" where
  "u256 n = n"

text \<open>The type invariant: every element is an unsigned 256-bit value.\<close>

definition is_u256 :: "int \<Rightarrow> bool" where
  "is_u256 v \<longleftrightarrow> 0 \<le> v \<and> v < 2 ^ 256"

definition stack_ok :: "stack \<Rightarrow> bool" where
  "stack_ok s \<longleftrightarrow> list_all is_u256 s"

section \<open>Lemmas\<close>

lemma and_Max256: "v AND Max256 = v mod 2 ^ 256"
proof -
  have "v AND Max256 = take_bit 256 v"
    by (simp add: Max256_def take_bit_eq_mask mask_eq_exp_minus_1 push_bit_eq_mult)
  then show ?thesis by (simp add: take_bit_eq_mod)
qed

lemma is_u256_mod [simp, wf_intro]: "is_u256 (v mod 2 ^ 256)"
  by (simp add: is_u256_def)

lemma is_u256_id: "is_u256 v \<Longrightarrow> v mod 2 ^ 256 = v"
  by (simp add: is_u256_def)

lemma Stack_Push_eq: "Stack_Push s v = s @ [v mod 2 ^ 256]"
  by (simp add: Stack_Push_def and_Max256)

lemma Stack_Push_ok [wf_intro]: "stack_ok s \<Longrightarrow> stack_ok (Stack_Push s v)"
  by (simp add: stack_ok_def Stack_Push_eq del: is_u256_mod) (simp add: is_u256_def)

lemma Stack_Pop_Push: "is_u256 v \<Longrightarrow> Stack_Pop (Stack_Push s v) = (v, s)"
  by (simp only: Stack_Pop_def Stack_Push_eq is_u256_id) simp

lemma Stack_Pop_snoc [simp]: "Stack_Pop (s @ [v]) = (v, s)"
  by (simp add: Stack_Pop_def)

lemma Stack_Pop_Nil [simp]: "Stack_Pop [] = (0, [])"
  by (simp add: Stack_Pop_def)

lemma Stack_Pop_ok [wf_intro]:
  "stack_ok s \<Longrightarrow> is_u256 (fst (Stack_Pop s)) \<and> stack_ok (snd (Stack_Pop s))"
  by (cases s rule: rev_cases) (auto simp: stack_ok_def is_u256_def)

lemma Stack_Pop_okD: "Stack_Pop s = (v, s') \<Longrightarrow> stack_ok s \<Longrightarrow> is_u256 v \<and> stack_ok s'"
  using Stack_Pop_ok [of s] by simp

lemma stack_ok_Nil [simp]: "stack_ok []"
  by (simp add: stack_ok_def)

lemma stack_ok_nth: "stack_ok s \<Longrightarrow> i < length s \<Longrightarrow> is_u256 (s ! i)"
  by (simp add: stack_ok_def list_all_length)

lemma stack_ok_update: "stack_ok s \<Longrightarrow> is_u256 v \<Longrightarrow> stack_ok (s[i := v])"
  by (auto simp: stack_ok_def list_all_iff dest: set_update_subset_insert [THEN subsetD])

end
