(* ===== verification/Keypair.thy ===== *)
theory Keypair
  imports Errors
begin

text \<open>
  Keys and signatures, from src/crypto/keypair.go. The cryptographic primitives the file calls
  (\<open>crypto/sha256\<close>, \<open>crypto/ecdsa\<close>, \<open>crypto/elliptic\<close>, the \<open>x/crypto\<close> Keccak) are fields of the
  parameter record \<open>prims\<close>, together with the largest slice \<open>make\<close> can allocate; every theorem
  holds for all of them, and states what it needs of one. A nil \<open>Key\<close> pointer is \<open>None\<close>.
  \<open>ecdsa.Sign\<close> draws randomness, which is an argument here.
\<close>

section \<open>Definitions\<close>

record ecdsa_pub =
  pub_X :: int
  pub_Y :: int

record PrivateKey =
  key_D :: int
  key_pub :: ecdsa_pub

record PublicKey =
  Key :: "ecdsa_pub option"

record Signature =
  sig_S :: "int option"
  sig_R :: "int option"

record prims =
  sha256 :: "byte list \<Rightarrow> hash"
  keccak256 :: "byte list \<Rightarrow> hash"
  max_alloc :: nat
  MarshalCompressed :: "ecdsa_pub \<Rightarrow> byte list res"
  UnmarshalCompressed :: "byte list \<Rightarrow> (int \<times> int) option"
  ecdsa_Sign :: "nat \<Rightarrow> PrivateKey \<Rightarrow> byte list \<Rightarrow> (int \<times> int) res"
  ecdsa_Verify :: "ecdsa_pub option \<Rightarrow> byte list \<Rightarrow> int option \<Rightarrow> int option \<Rightarrow> bool res"

definition PrivateKey_Sign :: "'x prims_scheme \<Rightarrow> nat \<Rightarrow> PrivateKey \<Rightarrow> byte list \<Rightarrow> Signature res" where
  "PrivateKey_Sign P rnd k data =
     (case ecdsa_Sign P rnd k data of
        Ok (r, s) \<Rightarrow> Ok \<lparr>sig_S = Some s, sig_R = Some r\<rparr>
      | Err e \<Rightarrow> Err e
      | Panic p \<Rightarrow> Panic p)"

text \<open>The argument is the key, or the error, that \<open>ecdsa.GenerateKey\<close> returns.\<close>

definition GeneratePrivateKey :: "PrivateKey res \<Rightarrow> PrivateKey res" where
  "GeneratePrivateKey generated =
     (case generated of Ok key \<Rightarrow> Ok key | Err e \<Rightarrow> Panic (ExternalPanic (Error_text e)) | Panic p \<Rightarrow> Panic p)"

definition PrivateKey_PublicKey :: "PrivateKey \<Rightarrow> PublicKey" where
  "PrivateKey_PublicKey k = \<lparr>Key = Some (key_pub k)\<rparr>"

definition PublicKey_GobEncode :: "'x prims_scheme \<Rightarrow> PublicKey \<Rightarrow> byte list res" where
  "PublicKey_GobEncode P pk =
     (case Key pk of None \<Rightarrow> Ok [] | Some k \<Rightarrow> MarshalCompressed P k)"

definition PublicKey_GobDecode :: "'x prims_scheme \<Rightarrow> byte list \<Rightarrow> PublicKey res" where
  "PublicKey_GobDecode P data =
     (if data = [] then Ok \<lparr>Key = None\<rparr>
      else (case UnmarshalCompressed P data of
              None \<Rightarrow> Err ErrInvalidPublicKey
            | Some (x, y) \<Rightarrow> Ok \<lparr>Key = Some \<lparr>pub_X = x, pub_Y = y\<rparr>\<rparr>))"

definition PublicKey_ToSlice :: "'x prims_scheme \<Rightarrow> PublicKey \<Rightarrow> byte list res" where
  "PublicKey_ToSlice P k =
     (case Key k of None \<Rightarrow> Panic NilDereference | Some p \<Rightarrow> MarshalCompressed P p)"

definition PublicKey_Address :: "'x prims_scheme \<Rightarrow> PublicKey \<Rightarrow> address res" where
  "PublicKey_Address P k =
     bind_outcome (PublicKey_ToSlice P k)
       (\<lambda>bs. let h = hash_bytes (sha256 P bs)
             in AddressFromBytes (drop (length h - 20) h))"

definition Signature_Verify ::
  "'x prims_scheme \<Rightarrow> Signature \<Rightarrow> PublicKey \<Rightarrow> byte list \<Rightarrow> bool res" where
  "Signature_Verify P sig pubKey data = ecdsa_Verify P (Key pubKey) data (sig_R sig) (sig_S sig)"

text \<open>
  What the packages document and the theorems may assume: a point that \<open>MarshalCompressed\<close> accepts
  is read back by \<open>UnmarshalCompressed\<close>, from a non-empty encoding; a signature \<open>ecdsa.Sign\<close> made
  verifies under its public key; the digest given to \<open>Sign\<close> and \<open>Verify\<close> is cut to the bit
  length of the curve order, 32 bytes for P-256.
\<close>

definition marshal_roundtrip :: "'x prims_scheme \<Rightarrow> bool" where
  "marshal_roundtrip P \<longleftrightarrow>
     (\<forall>k bs. MarshalCompressed P k = Ok bs \<longrightarrow>
        bs \<noteq> [] \<and> UnmarshalCompressed P bs = Some (pub_X k, pub_Y k))"

definition sign_verifies :: "'x prims_scheme \<Rightarrow> bool" where
  "sign_verifies P \<longleftrightarrow>
     (\<forall>rnd k data r s. ecdsa_Sign P rnd k data = Ok (r, s) \<longrightarrow>
        ecdsa_Verify P (Some (key_pub k)) data (Some r) (Some s) = Ok True)"

definition digest_truncated :: "'x prims_scheme \<Rightarrow> bool" where
  "digest_truncated P \<longleftrightarrow>
     (\<forall>k data r s. ecdsa_Verify P k data r s = ecdsa_Verify P k (take 32 data) r s)"

section \<open>Lemmas\<close>

lemma PublicKey_Address_cases:
  "PublicKey_Address P k =
     (case PublicKey_ToSlice P k of
        Ok bs \<Rightarrow> Ok (mk_address (drop 12 (hash_bytes (sha256 P bs))))
      | Err e \<Rightarrow> Err e
      | Panic p \<Rightarrow> Panic p)"
  by (cases "PublicKey_ToSlice P k") (simp_all add: PublicKey_Address_def Let_def)

lemma PublicKey_gob_roundtrip:
  assumes "marshal_roundtrip P" and "PublicKey_GobEncode P pk = Ok bs"
  shows "PublicKey_GobDecode P bs = Ok pk"
proof (cases "Key pk")
  case None
  with assms(2) show ?thesis
    by (cases pk) (simp add: PublicKey_GobEncode_def PublicKey_GobDecode_def)
next
  case (Some k)
  with assms have "bs \<noteq> []" and "UnmarshalCompressed P bs = Some (pub_X k, pub_Y k)"
    by (auto simp: PublicKey_GobEncode_def marshal_roundtrip_def)
  with Some show ?thesis
    by (cases pk) (simp add: PublicKey_GobDecode_def)
qed

lemma PrivateKey_Sign_verifies:
  assumes "sign_verifies P" and "PrivateKey_Sign P rnd k data = Ok sig"
  shows "Signature_Verify P sig (PrivateKey_PublicKey k) data = Ok True"
  using assms
  by (auto simp: PrivateKey_Sign_def PrivateKey_PublicKey_def Signature_Verify_def sign_verifies_def
      split: outcome.splits prod.splits)

end
