(* ===== verification/VmMemory.thy ===== *)
theory VmMemory
  imports Keypair
begin

text \<open>
  The byte memory of src/core/vm.go. Offsets and sizes are \<open>uint64\<close> and their sums wrap;
  \<open>make\<close> fails above the allocation limit and a slice expression outside the store panics. The
  abstract memory is the function \<open>mem_at\<close> that reads zero beyond the store.
\<close>

section \<open>Definitions\<close>

type_synonym memory = "byte list"

definition make_bytes :: "'x prims_scheme \<Rightarrow> nat \<Rightarrow> byte list res" where
  "make_bytes P n = (if n \<le> max_alloc P then Ok (replicate n 0) else Panic MakeSliceLen)"

definition NewMemory :: memory where
  "NewMemory = []"

definition Memory_expand :: "'x prims_scheme \<Rightarrow> memory \<Rightarrow> u64 \<Rightarrow> u64 \<Rightarrow> memory res" where
  "Memory_expand P m offset sz =
     (if sz = 0 then Ok m
      else let needed = offset + sz
        in if needed > word_of_nat (length m)
           then let newSize = ((needed + 31) div 32) * 32
             in bind_outcome (make_bytes P (unat newSize)) (\<lambda>newStore. Ok (go_copy newStore m))
           else Ok m)"

definition Memory_Set :: "'x prims_scheme \<Rightarrow> memory \<Rightarrow> u64 \<Rightarrow> u64 \<Rightarrow> byte list \<Rightarrow> memory res" where
  "Memory_Set P m offset sz val =
     bind_outcome (Memory_expand P m offset sz)
       (\<lambda>m. bind_outcome (go_slice m (unat offset) (unat (offset + sz)))
          (\<lambda>dst. Ok (take (unat offset) m @ go_copy dst val @ drop (unat (offset + sz)) m)))"

definition Memory_Set32 :: "'x prims_scheme \<Rightarrow> memory \<Rightarrow> u64 \<Rightarrow> int \<Rightarrow> memory res" where
  "Memory_Set32 P m offset val =
     bind_outcome (pad32 (Int_Bytes val)) (\<lambda>padded. Memory_Set P m offset 32 padded)"

definition Memory_Get :: "'x prims_scheme \<Rightarrow> memory \<Rightarrow> u64 \<Rightarrow> u64 \<Rightarrow> (memory \<times> byte list) res" where
  "Memory_Get P m offset sz =
     bind_outcome (Memory_expand P m offset sz)
       (\<lambda>m. bind_outcome (make_bytes P (unat sz))
          (\<lambda>r. bind_outcome (go_slice m (unat offset) (unat (offset + sz)))
             (\<lambda>d. Ok (m, go_copy r d))))"

definition mem_at :: "memory \<Rightarrow> nat \<Rightarrow> byte" where
  "mem_at m i = (if i < length m then m ! i else 0)"

text \<open>A length is an \<open>int\<close>, so no slice reaches \<open>2 ^ 63\<close> elements.\<close>

definition go_runtime :: "'x prims_scheme \<Rightarrow> bool" where
  "go_runtime P \<longleftrightarrow> max_alloc P < 2 ^ 63"

text \<open>The store is a whole number of words and was allocated.\<close>

definition memory_ok :: "'x prims_scheme \<Rightarrow> memory \<Rightarrow> bool" where
  "memory_ok P m \<longleftrightarrow> 32 dvd length m \<and> length m \<le> max_alloc P"

lemma memory_ok_length: "memory_ok P m \<Longrightarrow> go_runtime P \<Longrightarrow> length m < 2 ^ 64"
  by (simp add: memory_ok_def go_runtime_def)

section \<open>Growing\<close>

lemma mem_at_extend: "mem_at (m @ replicate n 0) = mem_at m"
  by (auto simp: mem_at_def fun_eq_iff nth_append)

lemma round_up_div:
  fixes w :: u64
  shows "unat ((w div 32) * 32) = unat w div 32 * 32"
proof -
  have "unat w div 32 * 32 \<le> unat w" by simp
  also have "\<dots> < 2 ^ 64" by (rule unat_u64_less)
  finally show ?thesis by (simp add: unat_word_ariths unat_div)
qed

text \<open>
  The three ways \<open>expand\<close> can return: nothing to do, a grown copy, or - when \<open>needed + 31\<close> wraps -
  an empty store, which makes the slice expression that follows panic.
\<close>

lemma round_up_wraps:
  fixes n :: u64
  assumes "\<not> unat n + 31 < 2 ^ 64"
  shows "unat (n + 31) < 31"
proof -
  have "unat (n + 31) = (unat n + 31) mod 2 ^ 64" by (simp add: unat_word_ariths)
  also have "\<dots> = (unat n + 31 - 2 ^ 64) mod 2 ^ 64" using assms by (intro le_mod_geq) simp
  also have "\<dots> < 31" using unat_u64_less [of n] by simp
  finally show ?thesis .
qed

lemma Memory_expand_cases:
  assumes "Memory_expand P m offset sz = Ok m'" and "length m < 2 ^ 64"
  obtains (same) "m' = m" "sz = 0 \<or> unat (offset + sz) \<le> length m"
  | (grown) n where "m' = m @ replicate n 0" "unat (offset + sz) \<le> length m'" "32 dvd length m'"
      "length m' \<le> max_alloc P"
  | (wrapped) "m' = []" "0 < unat (offset + sz)"
proof (cases "sz = 0 \<or> \<not> offset + sz > word_of_nat (length m)")
  case True
  have "unat (word_of_nat (length m) :: u64) = length m"
    using assms(2) by (simp add: unat_of_nat take_bit_eq_mod)
  then have "sz = 0 \<or> unat (offset + sz) \<le> length m"
    using True by (simp add: word_less_nat_alt not_less)
  moreover have "m' = m"
    using assms(1) True by (auto simp: Memory_expand_def Let_def split: if_splits)
  ultimately show ?thesis using same by blast
next
  case False
  define needed where "needed = offset + sz"
  have gt: "length m < unat needed"
    using False assms(2) by (simp add: word_less_nat_alt unat_of_nat take_bit_eq_mod needed_def)
  have sz: "unat ((needed + 31) div 32 * 32) = unat (needed + 31) div 32 * 32"
    by (rule round_up_div)
  from False assms(1) have m': "m' = go_copy (replicate (unat (needed + 31) div 32 * 32) 0) m"
    and lim: "unat (needed + 31) div 32 * 32 \<le> max_alloc P"
    by (auto simp: Memory_expand_def Let_def make_bytes_def needed_def sz [unfolded needed_def]
        split: if_splits)
  show ?thesis
  proof (cases "unat needed + 31 < 2 ^ 64")
    case True
    then have plus: "unat (needed + 31) = unat needed + 31" by (simp add: unat_word_ariths)
    then have ge: "unat needed \<le> unat (needed + 31) div 32 * 32" by simp
    show ?thesis
    proof (rule grown)
      show "m' = m @ replicate (unat (needed + 31) div 32 * 32 - length m) 0"
        using m' ge gt by (simp add: go_copy_extend)
    qed (use m' ge lim needed_def in simp_all)
  next
    case False
    then have "m' = []" using m' round_up_wraps [of needed] by (simp add: go_copy_def)
    then show ?thesis using wrapped gt needed_def by simp
  qed
qed

lemma Memory_expand_slice:
  assumes "Memory_expand P m offset sz = Ok m'" and "length m < 2 ^ 64"
    and "go_slice m' (unat offset) (unat (offset + sz)) = (Ok d :: byte list res)"
  shows "mem_at m' = mem_at m" and "unat offset \<le> unat (offset + sz)"
    and "unat (offset + sz) \<le> length m'"
    and "d = take (unat (offset + sz) - unat offset) (drop (unat offset) m')"
    and "memory_ok P m \<Longrightarrow> memory_ok P m'"
proof -
  from assms(3) show bounds: "unat offset \<le> unat (offset + sz)" "unat (offset + sz) \<le> length m'"
    and "d = take (unat (offset + sz) - unat offset) (drop (unat offset) m')"
    by (auto simp: go_slice_def split: if_splits)
  from assms(1,2) show "mem_at m' = mem_at m" and "memory_ok P m \<Longrightarrow> memory_ok P m'"
    by (cases rule: Memory_expand_cases; use bounds in \<open>simp add: mem_at_extend memory_ok_def\<close>)+
qed

section \<open>Writing and reading\<close>

lemma nth_go_copy: "i < length dst \<Longrightarrow> go_copy dst src ! i = (if i < length src then src ! i else dst ! i)"
  by (auto simp: go_copy_def nth_append min_def)

lemma mem_at_splice:
  assumes "lo \<le> hi" and "hi \<le> length m"
  shows "mem_at (take lo m @ go_copy (take (hi - lo) (drop lo m)) val @ drop hi m) i =
    (if lo \<le> i \<and> i < lo + min (hi - lo) (length val) then val ! (i - lo) else mem_at m i)"
proof -
  have hi: "hi - lo \<le> length m - lo" using assms by simp
  consider "i < lo" | "lo \<le> i" "i < hi" | "hi \<le> i" by linarith
  then show ?thesis
    using assms hi by cases (auto simp: mem_at_def nth_append nth_go_copy min_def)
qed

lemma Memory_Set_mem_at:
  assumes "Memory_Set P m offset sz val = Ok m'" and "length m < 2 ^ 64"
  shows "mem_at m' i =
    (if unat offset \<le> i \<and> i < unat offset + min (unat sz) (length val)
     then val ! (i - unat offset) else mem_at m i)"
proof -
  from assms(1) obtain m1 d where e: "Memory_expand P m offset sz = Ok m1"
    and d: "go_slice m1 (unat offset) (unat (offset + sz)) = (Ok d :: byte list res)"
    and m': "m' = take (unat offset) m1 @ go_copy d val @ drop (unat (offset + sz)) m1"
    by (auto simp: Memory_Set_def)
  note facts = Memory_expand_slice [OF e assms(2) d]
  have "unat (offset + sz) = unat offset + unat sz"
    using facts(2) by (rule unat_add_no_wrap)
  with facts m' show ?thesis
    using mem_at_splice [of "unat offset" "unat (offset + sz)" m1 val i] by simp
qed

lemma Memory_Set_ok [wf_intro]:
  assumes "Memory_Set P m offset sz val = Ok m'" and "length m < 2 ^ 64" and "memory_ok P m"
  shows "memory_ok P m'"
proof -
  from assms(1) obtain m1 d where e: "Memory_expand P m offset sz = Ok m1"
    and d: "go_slice m1 (unat offset) (unat (offset + sz)) = (Ok d :: byte list res)"
    and m': "m' = take (unat offset) m1 @ go_copy d val @ drop (unat (offset + sz)) m1"
    by (auto simp: Memory_Set_def)
  note facts = Memory_expand_slice [OF e assms(2) d]
  from facts m' have "length m' = length m1" by simp
  with facts(5) [OF assms(3)] show ?thesis by (simp add: memory_ok_def)
qed

lemma Memory_Set32_ok [wf_intro]:
  "Memory_Set32 P m offset v = Ok m' \<Longrightarrow> length m < 2 ^ 64 \<Longrightarrow> memory_ok P m \<Longrightarrow> memory_ok P m'"
  by (auto simp: Memory_Set32_def intro: Memory_Set_ok)

lemma Memory_Get_mem_at:
  assumes "Memory_Get P m offset sz = Ok (m', bs)" and "length m < 2 ^ 64"
  shows "mem_at m' = mem_at m" and "bs = map (mem_at m) [unat offset ..< unat offset + unat sz]"
proof -
  from assms(1) obtain d where e: "Memory_expand P m offset sz = Ok m'"
    and d: "go_slice m' (unat offset) (unat (offset + sz)) = (Ok d :: byte list res)"
    and bs: "bs = go_copy (replicate (unat sz) 0) d"
    by (auto simp: Memory_Get_def make_bytes_def split: if_splits)
  note facts = Memory_expand_slice [OF e assms(2) d]
  show eq: "mem_at m' = mem_at m" by (rule facts(1))
  have plus: "unat (offset + sz) = unat offset + unat sz"
    using facts(2) by (rule unat_add_no_wrap)
  have "length d = unat sz" using facts(3,4) plus by simp
  then have "bs = d" using bs by (simp add: go_copy_same_length)
  moreover have "d = map (mem_at m') [unat offset ..< unat offset + unat sz]"
    using facts(3,4) plus by (auto intro!: nth_equalityI simp: mem_at_def)
  ultimately show "bs = map (mem_at m) [unat offset ..< unat offset + unat sz]"
    by (simp add: eq)
qed

lemma Memory_Get_ok [wf_intro]:
  assumes "Memory_Get P m offset sz = Ok (m', bs)" and "length m < 2 ^ 64" and "memory_ok P m"
  shows "memory_ok P m'"
proof -
  from assms(1) obtain d where e: "Memory_expand P m offset sz = Ok m'"
    and d: "go_slice m' (unat offset) (unat (offset + sz)) = (Ok d :: byte list res)"
    by (auto simp: Memory_Get_def)
  from Memory_expand_slice(5) [OF e assms(2) d assms(3)] show ?thesis .
qed

section \<open>When memory operations succeed\<close>

lemma Memory_expand_in_limit:
  assumes "length m < 2 ^ 64" and "0 < unat sz" and "unat offset + unat sz + 31 < 2 ^ 64"
    and "unat offset + unat sz + 31 \<le> max_alloc P"
  shows "\<exists>m'. Memory_expand P m offset sz = Ok m' \<and> unat offset + unat sz \<le> length m'"
proof -
  have plus: "unat (offset + sz) = unat offset + unat sz"
    using assms(3) by (simp add: unat_word_ariths)
  have plus31: "unat (offset + sz + 31) = unat offset + unat sz + 31"
    using assms(3) by (simp add: unat_word_ariths plus)
  have sz0: "sz \<noteq> 0" using assms(2) by auto
  show ?thesis
  proof (cases "offset + sz > word_of_nat (length m)")
    case True
    have sz: "unat ((offset + sz + 31) div 32 * 32) = unat (offset + sz + 31) div 32 * 32"
      by (rule round_up_div)
    have "unat (offset + sz + 31) div 32 * 32 \<le> max_alloc P"
      using assms(4) plus31 div_times_less_eq_dividend [of "unat (offset + sz + 31)" 32] by simp
    then show ?thesis
      using True sz0 plus31 by (simp add: Memory_expand_def Let_def make_bytes_def sz)
  next
    case False
    then have "unat offset + unat sz \<le> length m"
      using assms(1) plus by (simp add: word_less_nat_alt not_less unat_of_nat take_bit_eq_mod)
    then show ?thesis using False by (auto simp: Memory_expand_def Let_def)
  qed
qed

lemma Memory_Set_in_limit:
  assumes "length m < 2 ^ 64" and "0 < unat sz" and "unat offset + unat sz + 31 < 2 ^ 64"
    and "unat offset + unat sz + 31 \<le> max_alloc P"
  shows "\<exists>m'. Memory_Set P m offset sz val = Ok m'"
proof -
  have "unat (offset + sz) = unat offset + unat sz"
    using assms(3) by (simp add: unat_word_ariths)
  with Memory_expand_in_limit [OF assms] show ?thesis
    by (auto simp: Memory_Set_def go_slice_def)
qed

lemma Memory_Get_in_limit:
  assumes "length m < 2 ^ 64" and "0 < unat sz" and "unat offset + unat sz + 31 < 2 ^ 64"
    and "unat offset + unat sz + 31 \<le> max_alloc P"
  shows "\<exists>m' bs. Memory_Get P m offset sz = Ok (m', bs)"
proof -
  have "unat (offset + sz) = unat offset + unat sz"
    using assms(3) by (simp add: unat_word_ariths)
  with Memory_expand_in_limit [OF assms] assms(4) show ?thesis
    by (auto simp: Memory_Get_def go_slice_def make_bytes_def)
qed

text \<open>A read of no bytes beyond the store panics.\<close>

lemma Memory_Get_empty_panics:
  "length m < unat offset \<Longrightarrow> Memory_Get P m offset 0 = Panic SliceOutOfRange"
  by (simp add: Memory_Get_def Memory_expand_def make_bytes_def go_slice_def)

text \<open>An access whose end wraps around panics.\<close>

lemma Memory_expand_no_err: "Memory_expand P m offset sz \<noteq> Err e"
  by (simp add: Memory_expand_def Let_def make_bytes_def)

lemma Memory_Set_wrap_panics:
  assumes "unat (offset + sz) < unat offset"
  shows "\<exists>p. Memory_Set P m offset sz val = Panic p"
  using assms Memory_expand_no_err [of P m offset sz]
  by (cases "Memory_expand P m offset sz") (auto simp: Memory_Set_def go_slice_def)

end
