(* ===== verification/StateDB.thy ===== *)
theory StateDB
  imports Errors
begin

text \<open>
  The interface \<open>StateDB\<close> of src/core/vm.go, through which contract code reads and writes account
  storage: its method table as a record, which the virtual machine takes as an argument, and
  its laws as a locale.
\<close>

record 's StateDB =
  db_GetAccountState :: "'s \<Rightarrow> address \<Rightarrow> hash \<Rightarrow> byte list res"
  db_SetAccountState :: "address \<Rightarrow> hash \<Rightarrow> byte list \<Rightarrow> 's \<Rightarrow> 's \<times> unit res"

definition ok_value :: "('e, 'a) outcome \<Rightarrow> 'a option" where
  "ok_value r = (case r of Ok v \<Rightarrow> Some v | _ \<Rightarrow> None)"

lemma ok_value_simps [simp]:
  "ok_value (Ok v) = Some v" "ok_value (Err e) = None" "ok_value (Panic p) = None"
  by (simp_all add: ok_value_def)

lemma ok_value_eq_Some [simp]: "ok_value r = Some v \<longleftrightarrow> r = Ok v"
  by (cases r) auto

locale state_db =
  fixes db :: "'s StateDB"
  assumes set_ok: "snd (db_SetAccountState db a k v s) = Ok ()"
    and get_set_same: "db_GetAccountState db (fst (db_SetAccountState db a k v s)) a k = Ok v"
    and get_set_other: "(a', k') \<noteq> (a, k) \<Longrightarrow>
      ok_value (db_GetAccountState db (fst (db_SetAccountState db a k v s)) a' k')
        = ok_value (db_GetAccountState db s a' k')"
    and get_no_panic: "db_GetAccountState db s a k \<noteq> Panic p"
begin

text \<open>The stored values, as one map from address and key.\<close>

definition contents :: "'s \<Rightarrow> (address \<times> hash) \<rightharpoonup> byte list" where
  "contents s = (\<lambda>(a, k). ok_value (db_GetAccountState db s a k))"

lemma contents_set: "contents (fst (db_SetAccountState db a k v s)) = (contents s)((a, k) \<mapsto> v)"
proof
  fix x :: "address \<times> hash"
  obtain a' k' where x: "x = (a', k')" by fastforce
  show "contents (fst (db_SetAccountState db a k v s)) x = ((contents s)((a, k) \<mapsto> v)) x"
  proof (cases "(a', k') = (a, k)")
    case True
    with x show ?thesis by (simp add: contents_def get_set_same)
  next
    case False
    from get_set_other [OF this] x False show ?thesis by (auto simp: contents_def)
  qed
qed

end

end
