(* ===== verification/EVM.thy ===== *)
theory EVM
  imports VmStack VmMemory StateDB
begin

text \<open>
  The virtual machine of src/core/vm.go, over any \<open>StateDB\<close>: the machine record, one definition
  per case of the switch in \<open>Run\<close>, one iteration of its loop (\<open>EVM_step\<close>) and the loop itself
  (\<open>EVM_Run\<close>, where \<open>None\<close> is a loop that never ends). The tracing and warning prints are left out.
  Storage writes go to the state at once, so they are part of the machine that every outcome but
  a panic carries.
\<close>

unbundle bit_operations_syntax

section \<open>Definitions\<close>

record 's EVM =
  evm_code :: "byte list"
  evm_pc :: u64
  evm_stack :: stack
  evm_memory :: memory
  evm_state :: 's
  evm_contract :: address
  evm_caller :: address
  evm_gasUsed :: u64
  evm_gasLimit :: u64
  evm_retData :: "byte list"
  evm_callData :: "byte list"
  evm_value :: int

definition NewEVM ::
  "byte list \<Rightarrow> byte list \<Rightarrow> 's \<Rightarrow> address \<Rightarrow> address \<Rightarrow> int option \<Rightarrow> u64 \<Rightarrow> 's EVM" where
  "NewEVM code callData st contract caller val gasLimit =
     \<lparr>evm_code = code, evm_pc = 0, evm_stack = NewStack, evm_memory = NewMemory, evm_state = st,
      evm_contract = contract, evm_caller = caller, evm_gasUsed = 0, evm_gasLimit = gasLimit,
      evm_retData = [], evm_callData = callData,
      evm_value = (case val of None \<Rightarrow> 0 | Some v \<Rightarrow> v)\<rparr>"

datatype opcode =
    PUSH nat | DUP nat | SWAP nat | POP | ADD | SUB | MUL | DIV | EQ | LT | GT | ISZERO
  | OpAND | OpOR | SHA3 | MLOAD | MSTORE | MSTORE8 | SLOAD | SSTORE | CALLVALUE | CALLDATALOAD
  | CALLDATASIZE | JUMP | JUMPI | JUMPDEST | RETURN | REVERT | STOP | UNSUPPORTED

text \<open>The cases of the switch, in the source's order.\<close>

definition decode_op :: "byte \<Rightarrow> opcode" where
  "decode_op op =
     (if 0x60 \<le> op \<and> op \<le> 0x7f then PUSH (unat (op - 0x60 + 1))
      else if 0x80 \<le> op \<and> op \<le> 0x8f then DUP (unat (op - 0x80 + 1))
      else if 0x90 \<le> op \<and> op \<le> 0x9f then SWAP (unat (op - 0x90 + 1))
      else if op = 0x50 then POP
      else if op = 0x01 then ADD
      else if op = 0x03 then SUB
      else if op = 0x02 then MUL
      else if op = 0x04 then DIV
      else if op = 0x14 then EQ
      else if op = 0x10 then LT
      else if op = 0x11 then GT
      else if op = 0x15 then ISZERO
      else if op = 0x16 then OpAND
      else if op = 0x17 then OpOR
      else if op = 0x20 then SHA3
      else if op = 0x51 then MLOAD
      else if op = 0x52 then MSTORE
      else if op = 0x53 then MSTORE8
      else if op = 0x54 then SLOAD
      else if op = 0x55 then SSTORE
      else if op = 0x34 then CALLVALUE
      else if op = 0x35 then CALLDATALOAD
      else if op = 0x36 then CALLDATASIZE
      else if op = 0x56 then JUMP
      else if op = 0x57 then JUMPI
      else if op = 0x5b then JUMPDEST
      else if op = 0xf3 then RETURN
      else if op = 0xfd then REVERT
      else if op = 0x00 then STOP
      else UNSUPPORTED)"

datatype 's exec =
    Continue "'s EVM"
  | Return "'s EVM" "byte list"
  | Fail "'s EVM" go_error
  | Crash go_panic

definition exec_bind :: "'s EVM \<Rightarrow> 'a res \<Rightarrow> ('a \<Rightarrow> 's exec) \<Rightarrow> 's exec" where
  "exec_bind evm r f = (case r of Ok x \<Rightarrow> f x | Err e \<Rightarrow> Fail evm e | Panic p \<Rightarrow> Crash p)"

definition evm_push :: "int \<Rightarrow> 's EVM \<Rightarrow> 's EVM" where
  "evm_push v evm = evm\<lparr>evm_stack := Stack_Push (evm_stack evm) v\<rparr>"

definition evm_pop :: "'s EVM \<Rightarrow> int \<times> 's EVM" where
  "evm_pop evm = (let (v, s) = Stack_Pop (evm_stack evm) in (v, evm\<lparr>evm_stack := s\<rparr>))"

definition Int_Uint64 :: "int \<Rightarrow> u64" where
  "Int_Uint64 v = word_of_int v"

definition Int_Div :: "int \<Rightarrow> int \<Rightarrow> int" where
  "Int_Div x y = sgn y * (x div \<bar>y\<bar>)"

definition isValidJumpDest :: "'s EVM \<Rightarrow> u64 \<Rightarrow> bool" where
  "isValidJumpDest evm dest =
     (if dest \<ge> word_of_nat (length (evm_code evm)) then False
      else evm_code evm ! unat dest = 0x5b)"

definition consumeGas :: "u64 \<Rightarrow> 's EVM \<Rightarrow> ('s EVM) res" where
  "consumeGas amount vm =
     (if evm_gasUsed vm + amount > evm_gasLimit vm
      then Err (ErrOutOfGas (evm_gasUsed vm + amount) (evm_gasLimit vm))
      else Ok (vm\<lparr>evm_gasUsed := evm_gasUsed vm + amount\<rparr>))"

definition op_push :: "nat \<Rightarrow> 's EVM \<Rightarrow> 's exec" where
  "op_push n evm =
     (let sz = of_nat n :: u64; pc = evm_pc evm
      in if pc + sz > word_of_nat (length (evm_code evm)) then Fail evm ErrPush
         else exec_bind evm (go_slice (evm_code evm) (unat pc) (unat (pc + sz)))
           (\<lambda>bs. Continue ((evm_push (SetBytes bs) evm)\<lparr>evm_pc := pc + sz\<rparr>)))"

definition op_dup :: "nat \<Rightarrow> 's EVM \<Rightarrow> 's exec" where
  "op_dup n evm =
     (let s = evm_stack evm
      in if length s < n then Fail evm ErrDup
         else Continue (evm_push (s ! (length s - n)) evm))"

definition op_swap :: "nat \<Rightarrow> 's EVM \<Rightarrow> 's exec" where
  "op_swap n evm =
     (let s = evm_stack evm; top = length s - 1
      in if length s \<le> n then Fail evm ErrSwap
         else Continue (evm\<lparr>evm_stack := s[top := s ! (top - n), top - n := s ! top]\<rparr>))"

definition op_binary :: "(int \<Rightarrow> int \<Rightarrow> int) \<Rightarrow> 's EVM \<Rightarrow> 's exec" where
  "op_binary f evm =
     (let (x, evm1) = evm_pop evm; (y, evm2) = evm_pop evm1 in Continue (evm_push (f x y) evm2))"

definition op_iszero :: "'s EVM \<Rightarrow> 's exec" where
  "op_iszero evm = (let (x, evm1) = evm_pop evm in Continue (evm_push (if x = 0 then 1 else 0) evm1))"

definition op_sha3 :: "'x prims_scheme \<Rightarrow> 's EVM \<Rightarrow> 's exec" where
  "op_sha3 P evm =
     (let (off, evm1) = evm_pop evm; (sz, evm2) = evm_pop evm1
      in exec_bind evm2 (Memory_Get P (evm_memory evm2) (Int_Uint64 off) (Int_Uint64 sz))
           (\<lambda>(m, data). Continue (evm_push (SetBytes (hash_bytes (keccak256 P data)))
              (evm2\<lparr>evm_memory := m\<rparr>))))"

definition op_mload :: "'x prims_scheme \<Rightarrow> 's EVM \<Rightarrow> 's exec" where
  "op_mload P evm =
     (let (off, evm1) = evm_pop evm
      in exec_bind evm1 (Memory_Get P (evm_memory evm1) (Int_Uint64 off) 32)
           (\<lambda>(m, data). Continue (evm_push (SetBytes data) (evm1\<lparr>evm_memory := m\<rparr>))))"

definition op_mstore :: "'x prims_scheme \<Rightarrow> 's EVM \<Rightarrow> 's exec" where
  "op_mstore P evm =
     (let (off, evm1) = evm_pop evm; (val, evm2) = evm_pop evm1
      in exec_bind evm2 (Memory_Set32 P (evm_memory evm2) (Int_Uint64 off) val)
           (\<lambda>m. Continue (evm2\<lparr>evm_memory := m\<rparr>)))"

definition op_mstore8 :: "'x prims_scheme \<Rightarrow> 's EVM \<Rightarrow> 's exec" where
  "op_mstore8 P evm =
     (let (off, evm1) = evm_pop evm; (val, evm2) = evm_pop evm1
      in exec_bind evm2 (Memory_Set P (evm_memory evm2) (Int_Uint64 off) 1
             [ucast (Int_Uint64 val AND 0xff)])
           (\<lambda>m. Continue (evm2\<lparr>evm_memory := m\<rparr>)))"

definition storage_key :: "'x prims_scheme \<Rightarrow> int \<Rightarrow> hash res" where
  "storage_key P key = bind_outcome (pad32 (Int_Bytes key)) (\<lambda>padded. Ok (sha256 P padded))"

definition op_sload :: "'x prims_scheme \<Rightarrow> 's StateDB \<Rightarrow> 's EVM \<Rightarrow> 's exec" where
  "op_sload P db evm =
     (let (key, evm1) = evm_pop evm
      in exec_bind evm1 (storage_key P key)
           (\<lambda>keyHash. case db_GetAccountState db (evm_state evm1) (evm_contract evm1) keyHash of
              Ok val \<Rightarrow> Continue (evm_push (if val = [] then 0 else SetBytes val) evm1)
            | Err _ \<Rightarrow> Continue (evm_push 0 evm1)
            | Panic p \<Rightarrow> Crash p))"

definition op_sstore :: "'x prims_scheme \<Rightarrow> 's StateDB \<Rightarrow> 's EVM \<Rightarrow> 's exec" where
  "op_sstore P db evm =
     (let (key, evm1) = evm_pop evm; (val, evm2) = evm_pop evm1
      in exec_bind evm2 (storage_key P key)
           (\<lambda>keyHash.
              let valBytes = (if Int_Bytes val = [] then [0] else Int_Bytes val);
                  (st, r) = db_SetAccountState db (evm_contract evm2) keyHash valBytes (evm_state evm2)
              in case r of Panic p \<Rightarrow> Crash p | _ \<Rightarrow> Continue (evm2\<lparr>evm_state := st\<rparr>)))"

definition op_calldataload :: "'s EVM \<Rightarrow> 's exec" where
  "op_calldataload evm =
     (let (off, evm1) = evm_pop evm; offset = Int_Uint64 off; res0 = replicate 32 0;
          r = (if offset < word_of_nat (length (evm_callData evm1))
               then go_copy res0 (drop (unat offset) (evm_callData evm1)) else res0)
      in Continue (evm_push (SetBytes r) evm1))"

definition op_jump :: "'s EVM \<Rightarrow> 's exec" where
  "op_jump evm =
     (let (d, evm1) = evm_pop evm; dest = Int_Uint64 d
      in if \<not> isValidJumpDest evm1 dest then Fail evm1 (ErrJump dest)
         else Continue (evm1\<lparr>evm_pc := dest\<rparr>))"

definition op_jumpi :: "'s EVM \<Rightarrow> 's exec" where
  "op_jumpi evm =
     (let (d, evm1) = evm_pop evm; dest = Int_Uint64 d; (cond, evm2) = evm_pop evm1
      in if cond \<noteq> 0
         then if \<not> isValidJumpDest evm2 dest then Fail evm2 (ErrJump dest)
              else Continue (evm2\<lparr>evm_pc := dest\<rparr>)
         else Continue evm2)"

definition op_return :: "'x prims_scheme \<Rightarrow> 's EVM \<Rightarrow> 's exec" where
  "op_return P evm =
     (let (off, evm1) = evm_pop evm; (sz, evm2) = evm_pop evm1
      in exec_bind evm2 (Memory_Get P (evm_memory evm2) (Int_Uint64 off) (Int_Uint64 sz))
           (\<lambda>(m, data). Return (evm2\<lparr>evm_memory := m, evm_retData := data\<rparr>) data))"

definition op_revert :: "'x prims_scheme \<Rightarrow> 's EVM \<Rightarrow> 's exec" where
  "op_revert P evm =
     (let (off, evm1) = evm_pop evm; (sz, evm2) = evm_pop evm1
      in exec_bind evm2 (Memory_Get P (evm_memory evm2) (Int_Uint64 off) (Int_Uint64 sz))
           (\<lambda>(m, data). Fail (evm2\<lparr>evm_memory := m, evm_retData := data\<rparr>) (ErrRevert data)))"

primrec exec_op :: "'x prims_scheme \<Rightarrow> 's StateDB \<Rightarrow> 's EVM \<Rightarrow> opcode \<Rightarrow> 's exec" where
  "exec_op P db evm (PUSH n) = op_push n evm"
| "exec_op P db evm (DUP n) = op_dup n evm"
| "exec_op P db evm (SWAP n) = op_swap n evm"
| "exec_op P db evm POP = Continue (snd (evm_pop evm))"
| "exec_op P db evm ADD = op_binary (+) evm"
| "exec_op P db evm SUB = op_binary (-) evm"
| "exec_op P db evm MUL = op_binary (*) evm"
| "exec_op P db evm DIV = op_binary (\<lambda>x y. if y = 0 then 0 else Int_Div x y) evm"
| "exec_op P db evm EQ = op_binary (\<lambda>x y. if x = y then 1 else 0) evm"
| "exec_op P db evm LT = op_binary (\<lambda>x y. if x < y then 1 else 0) evm"
| "exec_op P db evm GT = op_binary (\<lambda>x y. if x > y then 1 else 0) evm"
| "exec_op P db evm ISZERO = op_iszero evm"
| "exec_op P db evm OpAND = op_binary (AND) evm"
| "exec_op P db evm OpOR = op_binary (OR) evm"
| "exec_op P db evm SHA3 = op_sha3 P evm"
| "exec_op P db evm MLOAD = op_mload P evm"
| "exec_op P db evm MSTORE = op_mstore P evm"
| "exec_op P db evm MSTORE8 = op_mstore8 P evm"
| "exec_op P db evm SLOAD = op_sload P db evm"
| "exec_op P db evm SSTORE = op_sstore P db evm"
| "exec_op P db evm CALLVALUE = Continue (evm_push (evm_value evm) evm)"
| "exec_op P db evm CALLDATALOAD = op_calldataload evm"
| "exec_op P db evm CALLDATASIZE = Continue (evm_push (int (length (evm_callData evm))) evm)"
| "exec_op P db evm JUMP = op_jump evm"
| "exec_op P db evm JUMPI = op_jumpi evm"
| "exec_op P db evm JUMPDEST = Continue evm"
| "exec_op P db evm RETURN = op_return P evm"
| "exec_op P db evm REVERT = op_revert P evm"
| "exec_op P db evm STOP = Return evm []"
| "exec_op P db evm UNSUPPORTED = Continue evm"

definition EVM_step :: "'x prims_scheme \<Rightarrow> 's StateDB \<Rightarrow> 's EVM \<Rightarrow> 's exec" where
  "EVM_step P db evm =
     (let op = evm_code evm ! unat (evm_pc evm)
      in exec_bind evm (consumeGas 1 evm)
           (\<lambda>evm1. exec_op P db (evm1\<lparr>evm_pc := evm_pc evm1 + 1\<rparr>) (decode_op op)))"

definition EVM_running :: "'s EVM \<Rightarrow> bool" where
  "EVM_running evm = (evm_pc evm < word_of_nat (length (evm_code evm)))"

partial_function (option) EVM_Run ::
  "'x prims_scheme \<Rightarrow> 's StateDB \<Rightarrow> 's EVM \<Rightarrow> 's exec option" where
  "EVM_Run prm db evm =
     (if EVM_running evm
      then (case EVM_step prm db evm of
              Continue evm' \<Rightarrow> EVM_Run prm db evm'
            | Return evm' data \<Rightarrow> Some (Return evm' data)
            | Fail evm' e \<Rightarrow> Some (Fail evm' e)
            | Crash p \<Rightarrow> Some (Crash p))
      else Some (Return evm (evm_retData evm)))"

declare EVM_Run.simps [code]

definition GasUsed :: "'s EVM \<Rightarrow> u64" where
  "GasUsed vm = evm_gasUsed vm"

text \<open>
  The type invariant of a machine: 256-bit words on the stack, whole words of memory within the
  allocation limit, and a call value that was a \<open>uint64\<close> or was pushed masked.
\<close>

definition EVM_ok :: "'x prims_scheme \<Rightarrow> 's EVM \<Rightarrow> bool" where
  "EVM_ok P evm \<longleftrightarrow> stack_ok (evm_stack evm) \<and> memory_ok P (evm_memory evm)"

text \<open>The machine an iteration or a run leaves behind.\<close>

primrec exec_evm :: "'s exec \<Rightarrow> 's EVM option" where
  "exec_evm (Continue evm) = Some evm"
| "exec_evm (Return evm _) = Some evm"
| "exec_evm (Fail evm _) = Some evm"
| "exec_evm (Crash _) = None"

end
