(* ===== verification/EVM_Lemmas.thy ===== *)
theory EVM_Lemmas
  imports EVM
begin

text \<open>
  What one instruction keeps and changes, the type invariant of the machine, and the runs of the
  loop: gas bounds their length, and contract code touches nothing but its own storage.
\<close>

section \<open>One instruction\<close>

lemmas op_defs = op_push_def op_dup_def op_swap_def op_binary_def op_iszero_def op_sha3_def
  op_mload_def op_mstore_def op_mstore8_def op_sload_def op_sstore_def op_calldataload_def
  op_jump_def op_jumpi_def op_return_def op_revert_def exec_bind_def evm_push_def evm_pop_def

lemmas op_splits = outcome.splits prod.splits if_splits

definition same_frame :: "'s EVM \<Rightarrow> 's EVM \<Rightarrow> bool" where
  "same_frame e e' \<longleftrightarrow>
     evm_code e' = evm_code e \<and> evm_gasUsed e' = evm_gasUsed e \<and> evm_gasLimit e' = evm_gasLimit e
     \<and> evm_contract e' = evm_contract e \<and> evm_caller e' = evm_caller e
     \<and> evm_callData e' = evm_callData e \<and> evm_value e' = evm_value e"

lemma exec_op_frame:
  "exec_evm (exec_op P db evm op) = Some evm' \<Longrightarrow> same_frame evm evm'"
  by (cases op) (auto simp: same_frame_def op_defs Let_def split: op_splits)

lemma exec_op_state:
  assumes "exec_evm (exec_op P db evm op) = Some evm'"
  shows "evm_state evm' = evm_state evm \<or>
    (\<exists>k v. evm_state evm' = fst (db_SetAccountState db (evm_contract evm) k v (evm_state evm)))"
proof (cases "op = SSTORE")
  case True
  with assms show ?thesis
    by (auto simp: op_defs Let_def split: op_splits) (metis fst_conv)+
next
  case False
  with assms show ?thesis
    by (cases op) (auto simp: op_defs Let_def split: op_splits)
qed

section \<open>The type invariant\<close>

lemma evm_push_ok: "EVM_ok P evm \<Longrightarrow> EVM_ok P (evm_push v evm)"
  by (simp add: EVM_ok_def evm_push_def Stack_Push_ok)

lemma evm_pop_ok: "evm_pop evm = (v, evm') \<Longrightarrow> EVM_ok P evm \<Longrightarrow> EVM_ok P evm'"
  by (auto simp: EVM_ok_def evm_pop_def split: prod.splits dest: Stack_Pop_okD)

lemma evm_pop_u256: "evm_pop evm = (v, evm') \<Longrightarrow> EVM_ok P evm \<Longrightarrow> is_u256 v"
  by (auto simp: EVM_ok_def evm_pop_def split: prod.splits dest: Stack_Pop_okD)

lemma evm_pop2_ok:
  "evm_pop evm = (v, evm1) \<Longrightarrow> evm_pop evm1 = (w, evm2) \<Longrightarrow> EVM_ok P evm \<Longrightarrow> EVM_ok P evm2"
  by (blast intro: evm_pop_ok)

lemma EVM_ok_pc [simp]: "EVM_ok P (evm\<lparr>evm_pc := pc\<rparr>) = EVM_ok P evm"
  by (simp add: EVM_ok_def)

lemma EVM_ok_state [simp]: "EVM_ok P (evm\<lparr>evm_state := st\<rparr>) = EVM_ok P evm"
  by (simp add: EVM_ok_def)

lemma EVM_ok_gas [simp]: "EVM_ok P (evm\<lparr>evm_gasUsed := g\<rparr>) = EVM_ok P evm"
  by (simp add: EVM_ok_def)

lemma EVM_ok_ret [simp]: "EVM_ok P (evm\<lparr>evm_retData := g\<rparr>) = EVM_ok P evm"
  by (simp add: EVM_ok_def)

lemma EVM_ok_memory: "EVM_ok P evm \<Longrightarrow> memory_ok P m \<Longrightarrow> EVM_ok P (evm\<lparr>evm_memory := m\<rparr>)"
  by (simp add: EVM_ok_def)

lemma EVM_ok_get:
  assumes "Memory_Get P (evm_memory evm) off sz = Ok (m, d)" and "EVM_ok P evm" and "go_runtime P"
  shows "memory_ok P m"
  using Memory_Get_ok [OF assms(1) memory_ok_length [of P]] assms(2,3) by (simp add: EVM_ok_def)

lemma EVM_ok_set:
  assumes "Memory_Set P (evm_memory evm) off sz d = Ok m" and "EVM_ok P evm" and "go_runtime P"
  shows "memory_ok P m"
  using Memory_Set_ok [OF assms(1) memory_ok_length [of P]] assms(2,3) by (simp add: EVM_ok_def)

lemma EVM_ok_set32:
  assumes "Memory_Set32 P (evm_memory evm) off v = Ok m" and "EVM_ok P evm" and "go_runtime P"
  shows "memory_ok P m"
  using Memory_Set32_ok [OF assms(1) memory_ok_length [of P]] assms(2,3) by (simp add: EVM_ok_def)

lemmas op_evm_defs = op_push_def op_dup_def op_binary_def op_iszero_def op_sha3_def
  op_mload_def op_mstore_def op_mstore8_def op_sload_def op_sstore_def op_calldataload_def
  op_jump_def op_jumpi_def exec_bind_def

lemma op_swap_ok:
  assumes "EVM_ok P evm" and "exec_evm (op_swap n evm) = Some evm'"
  shows "EVM_ok P evm'"
  using assms
  by (auto simp: EVM_ok_def op_swap_def Let_def intro!: stack_ok_update stack_ok_nth split: if_splits)

text \<open>\<open>RETURN\<close> and \<open>REVERT\<close> pop an offset and a size and read the memory.\<close>

lemma op_halt_ok:
  assumes "EVM_ok P evm" and "go_runtime P"
    and "exec_evm (op_return P evm) = Some evm' \<or> exec_evm (op_revert P evm) = Some evm'"
  shows "EVM_ok P evm'"
proof -
  obtain off evm1 where p1: "evm_pop evm = (off, evm1)" by fastforce
  obtain sz evm2 where p2: "evm_pop evm1 = (sz, evm2)" by fastforce
  have ok2: "EVM_ok P evm2" using p1 p2 assms(1) by (rule evm_pop2_ok)
  show ?thesis
  proof (cases "Memory_Get P (evm_memory evm2) (Int_Uint64 off) (Int_Uint64 sz)")
    case (Ok x)
    then obtain m d where "Memory_Get P (evm_memory evm2) (Int_Uint64 off) (Int_Uint64 sz) = Ok (m, d)"
      by (cases x) auto
    moreover from this have "EVM_ok P (evm2\<lparr>evm_memory := m\<rparr>)"
      using ok2 assms(2) by (intro EVM_ok_memory) (auto dest: EVM_ok_get)
    ultimately show ?thesis
      using assms(3) p1 p2 by (auto simp: op_return_def op_revert_def exec_bind_def)
  qed (use assms(3) p1 p2 ok2 in \<open>auto simp: op_return_def op_revert_def exec_bind_def\<close>)
qed

lemma snd_evm_pop_ok: "EVM_ok P evm \<Longrightarrow> EVM_ok P (snd (evm_pop evm))"
  by (cases "evm_pop evm") (auto intro: evm_pop_ok)

lemma exec_op_ok:
  assumes "exec_evm (exec_op P db evm op) = Some evm'" and "EVM_ok P evm" and "go_runtime P"
  shows "EVM_ok P evm'"
  using assms
  by (cases op)
    (auto simp: op_evm_defs Let_def snd_evm_pop_ok split: op_splits
      dest: op_swap_ok op_halt_ok intro: evm_pop_ok evm_pop2_ok EVM_ok_get EVM_ok_set EVM_ok_set32
      intro!: evm_push_ok EVM_ok_memory)

section \<open>One iteration of the loop\<close>

lemma consumeGas_Ok_iff:
  "consumeGas n evm = Ok evm' \<longleftrightarrow>
     evm_gasUsed evm + n \<le> evm_gasLimit evm \<and> evm' = evm\<lparr>evm_gasUsed := evm_gasUsed evm + n\<rparr>"
  by (auto simp: consumeGas_def)

text \<open>An iteration is out of gas, or pays one unit and executes the instruction.\<close>

lemma EVM_step_cases:
  obtains (no_gas) "evm_gasLimit evm < evm_gasUsed evm + 1"
      "EVM_step P db evm = Fail evm (ErrOutOfGas (evm_gasUsed evm + 1) (evm_gasLimit evm))"
  | (paid) "evm_gasUsed evm + 1 \<le> evm_gasLimit evm"
      "EVM_step P db evm = exec_op P db
         (evm\<lparr>evm_gasUsed := evm_gasUsed evm + 1, evm_pc := evm_pc evm + 1\<rparr>)
         (decode_op (evm_code evm ! unat (evm_pc evm)))"
proof (cases "evm_gasLimit evm < evm_gasUsed evm + 1")
  case True
  then show ?thesis
    by (intro no_gas) (simp_all add: EVM_step_def exec_bind_def consumeGas_def)
next
  case False
  then show ?thesis
    by (intro paid) (simp_all add: EVM_step_def exec_bind_def consumeGas_def)
qed

definition same_program :: "'s EVM \<Rightarrow> 's EVM \<Rightarrow> bool" where
  "same_program e e' \<longleftrightarrow>
     evm_code e' = evm_code e \<and> evm_gasLimit e' = evm_gasLimit e \<and> evm_contract e' = evm_contract e
     \<and> evm_caller e' = evm_caller e \<and> evm_callData e' = evm_callData e \<and> evm_value e' = evm_value e"

lemma EVM_step_frame:
  assumes "exec_evm (EVM_step P db evm) = Some evm'"
  shows "same_program evm evm'"
proof (cases rule: EVM_step_cases [of evm P db])
  case no_gas
  with assms show ?thesis by (simp add: same_program_def)
next
  case paid
  with assms exec_op_frame show ?thesis by (fastforce simp: same_program_def same_frame_def)
qed

lemma EVM_step_gas:
  assumes "EVM_step P db evm = Continue evm'"
  shows "evm_gasUsed evm' = evm_gasUsed evm + 1" and "evm_gasUsed evm + 1 \<le> evm_gasLimit evm"
proof -
  have "evm_gasUsed evm' = evm_gasUsed evm + 1 \<and> evm_gasUsed evm + 1 \<le> evm_gasLimit evm"
  proof (cases rule: EVM_step_cases [of evm P db])
    case no_gas
    with assms show ?thesis by simp
  next
    case paid
    have "exec_evm (EVM_step P db evm) = Some evm'" using assms by simp
    with paid exec_op_frame show ?thesis by (fastforce simp: same_frame_def)
  qed
  then show "evm_gasUsed evm' = evm_gasUsed evm + 1" and "evm_gasUsed evm + 1 \<le> evm_gasLimit evm"
    by simp_all
qed

lemma EVM_step_ok:
  assumes "exec_evm (EVM_step P db evm) = Some evm'" and "EVM_ok P evm" and "go_runtime P"
  shows "EVM_ok P evm'"
proof (cases rule: EVM_step_cases [of evm P db])
  case no_gas
  with assms show ?thesis by simp
next
  case paid
  with assms(1) have "EVM_ok P (evm\<lparr>evm_gasUsed := evm_gasUsed evm + 1, evm_pc := evm_pc evm + 1\<rparr>) \<Longrightarrow>
      EVM_ok P evm'"
    using exec_op_ok assms(3) by fastforce
  then show ?thesis using assms(2) by simp
qed

lemma EVM_step_state:
  assumes "exec_evm (EVM_step P db evm) = Some evm'"
  shows "evm_state evm' = evm_state evm \<or>
    (\<exists>k v. evm_state evm' = fst (db_SetAccountState db (evm_contract evm) k v (evm_state evm)))"
proof (cases rule: EVM_step_cases [of evm P db])
  case no_gas
  with assms show ?thesis by simp
next
  case paid
  with assms exec_op_state show ?thesis by fastforce
qed

section \<open>Runs of the loop\<close>

text \<open>The loop as a step relation, and how a finished run decomposes into its steps.\<close>

inductive evm_steps :: "'x prims_scheme \<Rightarrow> 's StateDB \<Rightarrow> 's EVM \<Rightarrow> 's EVM \<Rightarrow> bool" for P db where
  evm_done: "evm_steps P db e e"
| evm_more: "EVM_running e \<Longrightarrow> EVM_step P db e = Continue e' \<Longrightarrow> evm_steps P db e' e'' \<Longrightarrow>
     evm_steps P db e e''"

definition final_result :: "'x prims_scheme \<Rightarrow> 's StateDB \<Rightarrow> 's EVM \<Rightarrow> 's exec \<Rightarrow> bool" where
  "final_result P db e r \<longleftrightarrow>
     (if EVM_running e then r = EVM_step P db e \<and> (\<forall>e'. r \<noteq> Continue e')
      else r = Return e (evm_retData e))"

lemma EVM_Run_steps:
  assumes "EVM_Run P db evm = Some r"
  shows "\<exists>e. evm_steps P db evm e \<and> final_result P db e r"
proof (rule EVM_Run.raw_induct [where P = "\<lambda>P db evm r. \<exists>e. evm_steps P db evm e \<and> final_result P db e r",
      OF _ assms])
  fix run :: "'b prims_scheme \<Rightarrow> 'a StateDB \<Rightarrow> 'a EVM \<Rightarrow> 'a exec option"
    and P :: "'b prims_scheme" and db :: "'a StateDB" and evm r
  assume IH: "\<And>P db evm r. run P db evm = Some r \<Longrightarrow> \<exists>e. evm_steps P db evm e \<and> final_result P db e r"
    and eq: "(if EVM_running evm
      then (case EVM_step P db evm of
              Continue evm' \<Rightarrow> run P db evm'
            | Return evm' data \<Rightarrow> Some (Return evm' data)
            | Fail evm' e \<Rightarrow> Some (Fail evm' e)
            | Crash p \<Rightarrow> Some (Crash p))
      else Some (Return evm (evm_retData evm))) = Some r"
  show "\<exists>e. evm_steps P db evm e \<and> final_result P db e r"
  proof (cases "EVM_running evm \<and> (\<exists>e'. EVM_step P db evm = Continue e')")
    case True
    then obtain e' where run: "EVM_running evm" and step: "EVM_step P db evm = Continue e'" by blast
    with eq have "run P db e' = Some r" by simp
    with IH run step show ?thesis by (blast intro: evm_more)
  next
    case False
    with eq have "final_result P db evm r"
      by (auto simp: final_result_def split: if_splits exec.splits)
    then show ?thesis by (blast intro: evm_done)
  qed
qed

lemma EVM_Run_unfold_Continue:
  "EVM_running evm \<Longrightarrow> EVM_step P db evm = Continue evm' \<Longrightarrow> EVM_Run P db evm = EVM_Run P db evm'"
  by (simp add: EVM_Run.simps [of P db evm])

lemma EVM_Run_final:
  "final_result P db e r \<Longrightarrow> EVM_Run P db e = Some r"
  by (auto simp: final_result_def EVM_Run.simps [of P db e] split: if_splits exec.splits)

lemma evm_steps_Run:
  "evm_steps P db evm e \<Longrightarrow> EVM_Run P db evm = EVM_Run P db e"
  by (induction rule: evm_steps.induct) (simp_all add: EVM_Run_unfold_Continue)

text \<open>Gas bounds the run, unless the limit is the largest \<open>uint64\<close>, where the counter wraps.\<close>

lemma EVM_Run_terminates_aux:
  assumes "evm_gasLimit evm \<noteq> -1" and "evm_gasUsed evm \<le> evm_gasLimit evm"
  shows "\<exists>r. EVM_Run P db evm = Some r"
  using assms
proof (induction "unat (evm_gasLimit evm) - unat (evm_gasUsed evm)" arbitrary: evm rule: less_induct)
  case less
  show ?case
  proof (cases "EVM_running evm \<and> (\<exists>e'. EVM_step P db evm = Continue e')")
    case True
    then obtain e' where run: "EVM_running evm" and step: "EVM_step P db evm = Continue e'" by blast
    have gas: "evm_gasUsed e' = evm_gasUsed evm + 1" "evm_gasUsed evm + 1 \<le> evm_gasLimit evm"
      using EVM_step_gas [OF step] by simp_all
    have lim: "evm_gasLimit e' = evm_gasLimit evm"
      using EVM_step_frame [of P db evm e'] step by (simp add: same_program_def)
    have "evm_gasUsed evm \<noteq> -1" using less.prems by (metis word_n1_ge order_antisym_conv word_order.extremum)
    then have "unat (evm_gasUsed evm + 1) = unat (evm_gasUsed evm) + 1"
      by (simp add: unatSuc add.commute eq_neg_iff_add_eq_0)
    then have "unat (evm_gasLimit e') - unat (evm_gasUsed e') < unat (evm_gasLimit evm) - unat (evm_gasUsed evm)"
      using gas lim by (simp add: word_le_nat_alt)
    from less.hyps [OF this] less.prems gas lim obtain r where "EVM_Run P db e' = Some r" by auto
    with EVM_Run_unfold_Continue [OF run step] show ?thesis by simp
  next
    case False
    then have "\<exists>r. final_result P db evm r" by (auto simp: final_result_def)
    then show ?thesis by (blast intro: EVM_Run_final)
  qed
qed

text \<open>What every iteration preserves, a run preserves, however it ends.\<close>

lemma EVM_Run_invariant:
  assumes step: "\<And>e e'. exec_evm (EVM_step P db e) = Some e' \<Longrightarrow> I e \<Longrightarrow> I e'"
    and run: "EVM_Run P db evm = Some r" and res: "exec_evm r = Some evm'" and init: "I evm"
  shows "I evm'"
proof -
  obtain e where steps: "evm_steps P db evm e" and fin: "final_result P db e r"
    using EVM_Run_steps [OF run] by blast
  from steps init have "I e"
  proof (induction rule: evm_steps.induct)
    case (evm_more e e' e'')
    have "I e'" by (rule step [of e]) (simp_all add: evm_more.hyps(2) evm_more.prems)
    then show ?case by (rule evm_more.IH)
  qed
  with fin res step [of e evm'] show ?thesis by (auto simp: final_result_def split: if_splits)
qed

lemma EVM_Run_frame:
  "EVM_Run P db evm = Some r \<Longrightarrow> exec_evm r = Some evm' \<Longrightarrow> same_program evm evm'"
  by (rule EVM_Run_invariant [where I = "same_program evm"])
    (auto simp: same_program_def dest: EVM_step_frame)

lemma EVM_Run_ok:
  "EVM_Run P db evm = Some r \<Longrightarrow> exec_evm r = Some evm' \<Longrightarrow> EVM_ok P evm \<Longrightarrow> go_runtime P \<Longrightarrow> EVM_ok P evm'"
  by (rule EVM_Run_invariant [where I = "EVM_ok P"]) (auto intro: EVM_step_ok)

lemma EVM_step_gas_bound:
  assumes "exec_evm (EVM_step P db e) = Some e'" and "evm_gasUsed e \<le> evm_gasLimit e"
  shows "evm_gasUsed e' \<le> evm_gasLimit e'"
proof (cases rule: EVM_step_cases [of e P db])
  case no_gas
  with assms show ?thesis by simp
next
  case paid
  with assms exec_op_frame show ?thesis by (fastforce simp: same_frame_def)
qed

lemma EVM_Run_gas_bound:
  assumes "EVM_Run P db evm = Some r" and "exec_evm r = Some evm'" and "evm_gasUsed evm \<le> evm_gasLimit evm"
  shows "evm_gasUsed evm' \<le> evm_gasLimit evm'"
  using EVM_step_gas_bound assms by (rule EVM_Run_invariant)

text \<open>
  A relation on states that every storage write of the contract satisfies, and that composes,
  relates the state before a run to the state after it, however the run ends.
\<close>

lemma EVM_Run_confined:
  assumes refl: "\<And>s. R s s" and trans: "\<And>s t u. R s t \<Longrightarrow> R t u \<Longrightarrow> R s u"
    and wr: "\<And>k v s. R s (fst (db_SetAccountState db (evm_contract evm) k v s))"
    and run: "EVM_Run P db evm = Some r" and res: "exec_evm r = Some evm'"
  shows "R (evm_state evm) (evm_state evm')"
proof -
  let ?I = "\<lambda>e. evm_contract e = evm_contract evm \<and> R (evm_state evm) (evm_state e)"
  have "?I evm'"
  proof (rule EVM_Run_invariant [where I = ?I, OF _ run res])
    fix e e' assume step: "exec_evm (EVM_step P db e) = Some e'" and I: "?I e"
    have "R (evm_state e) (evm_state e')" using EVM_step_state [OF step] refl wr I by auto
    then show "?I e'" using EVM_step_frame [OF step] I trans by (auto simp: same_program_def)
  qed (simp add: refl)
  then show ?thesis by simp
qed

end
