(* ===== verification/Account.thy ===== *)
theory Account
  imports Keypair
begin

text \<open>
  Accounts, from src/core/account.go. Go iterates a map in an unspecified order, and so does
  \<open>encoding/gob\<close> when it writes one; wherever the code ranges over a map, the order it meets is
  an argument, a list of the keys (\<open>enumerates\<close>).
\<close>

section \<open>Definitions\<close>

record Account =
  acc_Nonce :: u64
  acc_Balance :: u64
  acc_CodeHash :: hash
  acc_StorageRoot :: hash
  acc_Storage :: "hash \<rightharpoonup> byte list"

record account_wire =
  aw_Nonce :: u64
  aw_Balance :: u64
  aw_CodeHash :: hash
  aw_StorageRoot :: hash
  aw_Storage :: "(hash \<times> byte list) list"

record acc_prims = prims +
  gob_Account :: "account_wire \<Rightarrow> byte list option"
  ungob_Account :: "byte list \<Rightarrow> account_wire option"

definition enumerates :: "'k list \<Rightarrow> ('k \<rightharpoonup> 'v) \<Rightarrow> bool" where
  "enumerates ks m \<longleftrightarrow> distinct ks \<and> set ks = dom m"

definition range_copy :: "'k list \<Rightarrow> ('v \<Rightarrow> 'w) \<Rightarrow> ('k \<rightharpoonup> 'v) \<Rightarrow> ('k \<rightharpoonup> 'w)" where
  "range_copy ks f m = fold (\<lambda>k acc. acc(k \<mapsto> f (the (m k)))) ks Map.empty"

definition NewAccount :: "u64 \<Rightarrow> Account" where
  "NewAccount balance =
     \<lparr>acc_Nonce = 0, acc_Balance = balance, acc_CodeHash = zero_hash,
      acc_StorageRoot = zero_hash, acc_Storage = Map.empty\<rparr>"

definition DeepCopy :: "hash list \<Rightarrow> Account \<Rightarrow> Account" where
  "DeepCopy ks a =
     \<lparr>acc_Nonce = acc_Nonce a, acc_Balance = acc_Balance a, acc_CodeHash = acc_CodeHash a,
      acc_StorageRoot = acc_StorageRoot a, acc_Storage = range_copy ks (\<lambda>v. v) (acc_Storage a)\<rparr>"

definition IsContract :: "Account \<Rightarrow> bool" where
  "IsContract a = (\<not> Hash_IsZero (acc_CodeHash a))"

definition Account_Encode :: "'x acc_prims_scheme \<Rightarrow> hash list \<Rightarrow> Account \<Rightarrow> byte list option" where
  "Account_Encode P ks a =
     gob_Account P
       \<lparr>aw_Nonce = acc_Nonce a, aw_Balance = acc_Balance a, aw_CodeHash = acc_CodeHash a,
        aw_StorageRoot = acc_StorageRoot a,
        aw_Storage = map (\<lambda>k. (k, the (acc_Storage a k))) ks\<rparr>"

definition DecodeAccount :: "'x acc_prims_scheme \<Rightarrow> byte list \<Rightarrow> Account option" where
  "DecodeAccount P bs =
     map_option (\<lambda>w. \<lparr>acc_Nonce = aw_Nonce w, acc_Balance = aw_Balance w,
        acc_CodeHash = aw_CodeHash w, acc_StorageRoot = aw_StorageRoot w,
        acc_Storage = map_of (aw_Storage w)\<rparr>) (ungob_Account P bs)"

definition gob_account_roundtrip :: "'x acc_prims_scheme \<Rightarrow> bool" where
  "gob_account_roundtrip P \<longleftrightarrow>
     (\<forall>w bs. gob_Account P w = Some bs \<longrightarrow> ungob_Account P bs = Some w)"

section \<open>Lemmas\<close>

lemma fold_upd_lookup:
  "fold (\<lambda>k acc. acc(k \<mapsto> g k)) ks m0 x = (if x \<in> set ks then Some (g x) else m0 x)"
  by (induction ks arbitrary: m0) auto

lemma range_copy_map: "enumerates ks m \<Longrightarrow> range_copy ks f m = map_option f \<circ> m"
  by (auto simp: range_copy_def fold_upd_lookup enumerates_def fun_eq_iff domIff
      split: option.splits)

lemma range_copy_id [simp]: "enumerates ks m \<Longrightarrow> range_copy ks (\<lambda>v. v) m = m"
  by (simp add: range_copy_map fun_eq_iff option.map_ident)

lemma DeepCopy_eq: "enumerates ks (acc_Storage a) \<Longrightarrow> DeepCopy ks a = a"
  by (cases a) (simp add: DeepCopy_def)

lemma map_of_enumeration:
  "enumerates ks m \<Longrightarrow> map_of (map (\<lambda>k. (k, the (m k))) ks) = m"
  by (auto simp: enumerates_def map_of_map_restrict restrict_map_def fun_eq_iff domIff)

lemma Account_gob_roundtrip:
  assumes "gob_account_roundtrip P" and "enumerates ks (acc_Storage a)"
    and "Account_Encode P ks a = Some bs"
  shows "DecodeAccount P bs = Some a"
  using assms
  by (cases a) (simp add: Account_Encode_def DecodeAccount_def gob_account_roundtrip_def map_of_enumeration)

lemma NewAccount_simps [simp]:
  "acc_Nonce (NewAccount b) = 0" "acc_Balance (NewAccount b) = b"
  "acc_CodeHash (NewAccount b) = zero_hash" "acc_Storage (NewAccount b) = Map.empty"
  by (simp_all add: NewAccount_def)

lemma enumerates_exists: "finite (dom m) \<Longrightarrow> \<exists>ks. enumerates ks m"
  unfolding enumerates_def using finite_distinct_list by metis

text \<open>An at most one-element domain has one enumeration only.\<close>

lemma enumerates_unique:
  assumes "card (dom m) \<le> 1" and "finite (dom m)" and "enumerates ks m" and "enumerates ks' m"
  shows "ks = ks'"
proof -
  have len: "length ks = card (dom m)" "length ks' = card (dom m)"
    using assms(3,4) by (auto simp: enumerates_def simp flip: distinct_card)
  have eq: "set ks = set ks'" using assms(3,4) by (simp add: enumerates_def)
  from assms(1) consider "card (dom m) = 0" | "card (dom m) = 1" by linarith
  then show ?thesis
  proof cases
    case 1
    with len show ?thesis by simp
  next
    case 2
    with len obtain k k' where "ks = [k]" and "ks' = [k']" by (auto simp: length_Suc_conv)
    with eq show ?thesis by simp
  qed
qed

end
