(* ===== verification/Ledger.thy ===== *)
theory Ledger
  imports Errors
begin

text \<open>
  The contract of the account state as seen by the code that executes transactions: a ledger of
  natural-number balances, moved by transfers and increased by minting. The interfaces are
  locales; \<open>WorldState\<close> interprets them.
\<close>

section \<open>Definitions\<close>

definition total_supply :: "(address \<Rightarrow> nat) \<Rightarrow> nat" where
  "total_supply b = (\<Sum>a\<in>UNIV. b a)"

definition ledger_transfer ::
  "address \<Rightarrow> address \<Rightarrow> nat \<Rightarrow> (address \<Rightarrow> nat) \<Rightarrow> (address \<Rightarrow> nat)" where
  "ledger_transfer f t v b = (let b' = b(f := b f - v) in b'(t := b' t + v))"

text \<open>A sequence of requested transfers; those that fail are skipped.\<close>

primrec run_transfers ::
  "(address \<Rightarrow> address \<Rightarrow> u64 \<Rightarrow> 's \<Rightarrow> 's \<times> unit res) \<Rightarrow> (address \<times> address \<times> u64) list \<Rightarrow> 's \<Rightarrow> 's" where
  "run_transfers tr [] s = s"
| "run_transfers tr (x # xs) s = run_transfers tr xs (fst (tr (fst x) (fst (snd x)) (snd (snd x)) s))"

section \<open>The sum of the balances\<close>

lemma total_supply_upd: "total_supply (b(a := v)) + b a = total_supply b + v"
proof -
  have "total_supply (b(a := v)) = v + sum b (UNIV - {a})" for v
    unfolding total_supply_def by (subst sum.remove [of _ a]) (auto intro: sum.cong)
  from this [of v] this [of "b a"] show ?thesis by simp
qed

lemma balance_le_supply: "b a \<le> total_supply b"
  unfolding total_supply_def by (rule member_le_sum) auto

lemma ledger_transfer_supply:
  "v \<le> b f \<Longrightarrow> total_supply (ledger_transfer f t v b) = total_supply b"
  using total_supply_upd [of b f "b f - v"]
    total_supply_upd [of "b(f := b f - v)" t "(b(f := b f - v)) t + v"]
  by (simp add: ledger_transfer_def Let_def)

lemma two_balances_le_supply: "a \<noteq> c \<Longrightarrow> b a + b c \<le> total_supply b"
proof -
  assume "a \<noteq> c"
  then have "b a + b c = sum b {a, c}" by simp
  also have "\<dots> \<le> sum b UNIV" by (rule sum_mono2) auto
  finally show ?thesis by (simp add: total_supply_def)
qed

lemma ledger_transfer_other: "x \<noteq> f \<Longrightarrow> x \<noteq> t \<Longrightarrow> ledger_transfer f t v b x = b x"
  by (simp add: ledger_transfer_def Let_def)

section \<open>The interfaces\<close>

locale ledger =
  fixes bal :: "'s \<Rightarrow> address \<Rightarrow> nat"
    and transfer :: "address \<Rightarrow> address \<Rightarrow> u64 \<Rightarrow> 's \<Rightarrow> 's \<times> unit res"
  assumes transfer_moves:
      "transfer f t v s = (s', Ok ()) \<Longrightarrow> total_supply (bal s) < 2 ^ 64 \<Longrightarrow>
         unat v \<le> bal s f \<and> bal s' = ledger_transfer f t (unat v) (bal s)"
    and transfer_fails: "transfer f t v s = (s', r) \<Longrightarrow> r \<noteq> Ok () \<Longrightarrow> s' = s"
begin

lemma transfer_supply:
  assumes "total_supply (bal s) < 2 ^ 64" and "transfer f t v s = (s', r)"
  shows "total_supply (bal s') = total_supply (bal s)"
proof (cases "r = Ok ()")
  case True
  with assms transfer_moves [of f t v s s'] show ?thesis by (simp add: ledger_transfer_supply)
next
  case False
  with assms(2) transfer_fails [of f t v s s' r] show ?thesis by simp
qed

lemma transfer_outsider:
  assumes "total_supply (bal s) < 2 ^ 64" and "transfer f t v s = (s', r)" and "x \<noteq> f" and "x \<noteq> t"
  shows "bal s' x = bal s x"
proof (cases "r = Ok ()")
  case True
  with assms transfer_moves [of f t v s s'] show ?thesis by (simp add: ledger_transfer_other)
next
  case False
  with assms(2) transfer_fails [of f t v s s' r] show ?thesis by simp
qed

lemma run_supply:
  "total_supply (bal s) < 2 ^ 64 \<Longrightarrow>
     total_supply (bal (run_transfers transfer xs s)) = total_supply (bal s)"
proof (induction xs arbitrary: s)
  case Nil
  show ?case by simp
next
  case (Cons x xs)
  obtain s' r where s': "transfer (fst x) (fst (snd x)) (snd (snd x)) s = (s', r)" by fastforce
  have "total_supply (bal s') = total_supply (bal s)"
    using Cons.prems s' by (rule transfer_supply)
  with Cons s' show ?case by simp
qed

lemma run_outsider:
  assumes "total_supply (bal s) < 2 ^ 64" and "\<forall>x\<in>set xs. a \<noteq> fst x \<and> a \<noteq> fst (snd x)"
  shows "bal (run_transfers transfer xs s) a = bal s a"
  using assms
proof (induction xs arbitrary: s)
  case Nil
  show ?case by simp
next
  case (Cons x xs)
  obtain s' r where s': "transfer (fst x) (fst (snd x)) (snd (snd x)) s = (s', r)" by fastforce
  have "total_supply (bal s') = total_supply (bal s)"
    using Cons.prems(1) s' by (rule transfer_supply)
  moreover have "bal s' a = bal s a"
    using Cons.prems s' by (intro transfer_outsider) auto
  ultimately show ?case using Cons s' by simp
qed

end

locale minting_ledger = ledger bal transfer
  for bal :: "'s \<Rightarrow> address \<Rightarrow> nat"
    and transfer :: "address \<Rightarrow> address \<Rightarrow> u64 \<Rightarrow> 's \<Rightarrow> 's \<times> unit res" +
  fixes mint :: "address \<Rightarrow> u64 \<Rightarrow> 's \<Rightarrow> 's"
  assumes mint_adds:
    "bal s a + unat v < 2 ^ 64 \<Longrightarrow> bal (mint a v s) = (bal s)(a := bal s a + unat v)"
begin

lemma mint_supply:
  assumes "total_supply (bal s) + unat v < 2 ^ 64"
  shows "total_supply (bal (mint a v s)) = total_supply (bal s) + unat v"
proof -
  have "bal s a + unat v < 2 ^ 64"
    using balance_le_supply [of "bal s" a] assms by simp
  then have "bal (mint a v s) = (bal s)(a := bal s a + unat v)" by (rule mint_adds)
  then show ?thesis using total_supply_upd [of "bal s" a "bal s a + unat v"] by simp
qed

end

end
