(* ===== verification/WorldState.thy ===== *)
theory WorldState
  imports Account Ledger StateDB
begin

text \<open>
  The account state, from src/core/world_state.go. The Go maps hold account pointers, each stored
  under one address only, so the model keeps the accounts themselves; a debit and a credit of
  the same account act one after the other on the one entry, as they do on the shared object.
  Every method holds the mutex for its whole body and is one atomic operation here. An operation
  that can fail returns the state with its outcome.
\<close>

section \<open>Definitions\<close>

record WorldState =
  accounts :: "address \<rightharpoonup> Account"
  contractCode :: "hash \<rightharpoonup> byte list"

definition NewWorldState :: WorldState where
  "NewWorldState = \<lparr>accounts = Map.empty, contractCode = Map.empty\<rparr>"

definition CreateGenesisState :: "address list \<Rightarrow> (address \<rightharpoonup> u64) \<Rightarrow> WorldState" where
  "CreateGenesisState order allocs =
     NewWorldState\<lparr>accounts := range_copy order NewAccount allocs\<rparr>"

definition GetAccount :: "WorldState \<Rightarrow> address \<Rightarrow> Account option" where
  "GetAccount ws addr = accounts ws addr"

definition GetOrCreateAccount :: "address \<Rightarrow> WorldState \<Rightarrow> WorldState \<times> Account" where
  "GetOrCreateAccount addr ws =
     (case accounts ws addr of
        Some acc \<Rightarrow> (ws, acc)
      | None \<Rightarrow> (let acc = NewAccount 0 in (ws\<lparr>accounts := (accounts ws)(addr \<mapsto> acc)\<rparr>, acc)))"

definition GetBalance :: "WorldState \<Rightarrow> address \<Rightarrow> u64" where
  "GetBalance ws addr = (case accounts ws addr of None \<Rightarrow> 0 | Some acc \<Rightarrow> acc_Balance acc)"

definition GetNonce :: "WorldState \<Rightarrow> address \<Rightarrow> u64" where
  "GetNonce ws addr = (case accounts ws addr of None \<Rightarrow> 0 | Some acc \<Rightarrow> acc_Nonce acc)"

text \<open>The lookup that the writing methods share: a missing account is created empty.\<close>

definition account_or_new :: "WorldState \<Rightarrow> address \<Rightarrow> Account" where
  "account_or_new ws addr = (case accounts ws addr of Some acc \<Rightarrow> acc | None \<Rightarrow> NewAccount 0)"

definition put_account :: "address \<Rightarrow> Account \<Rightarrow> WorldState \<Rightarrow> WorldState" where
  "put_account addr acc ws = ws\<lparr>accounts := (accounts ws)(addr \<mapsto> acc)\<rparr>"

definition IncrementNonce :: "address \<Rightarrow> WorldState \<Rightarrow> WorldState" where
  "IncrementNonce addr ws =
     (let acc = account_or_new ws addr
      in put_account addr (acc\<lparr>acc_Nonce := acc_Nonce acc + 1\<rparr>) ws)"

definition Transfer :: "address \<Rightarrow> address \<Rightarrow> u64 \<Rightarrow> WorldState \<Rightarrow> WorldState \<times> unit res" where
  "Transfer src dst val ws =
     (if val = 0 then (ws, Err ErrZeroTransfer)
      else case accounts ws src of
        None \<Rightarrow> (ws, Err (ErrNoSender src))
      | Some fromAcc \<Rightarrow>
          if acc_Balance fromAcc < val
          then (ws, Err (ErrInsufficientSend src (acc_Balance fromAcc) val))
          else (let ws1 = put_account dst (account_or_new ws dst) ws;
                    ws2 = put_account src (fromAcc\<lparr>acc_Balance := acc_Balance fromAcc - val\<rparr>) ws1;
                    toAcc = account_or_new ws2 dst;
                    ws3 = put_account dst (toAcc\<lparr>acc_Balance := acc_Balance toAcc + val\<rparr>) ws2
                in (ws3, Ok ())))"

definition AddBalance :: "address \<Rightarrow> u64 \<Rightarrow> WorldState \<Rightarrow> WorldState" where
  "AddBalance addr amount ws =
     (let acc = account_or_new ws addr
      in put_account addr (acc\<lparr>acc_Balance := acc_Balance acc + amount\<rparr>) ws)"

definition SubBalance :: "address \<Rightarrow> u64 \<Rightarrow> WorldState \<Rightarrow> WorldState \<times> unit res" where
  "SubBalance addr amount ws =
     (case accounts ws addr of
        None \<Rightarrow> (ws, Err (ErrNoAccount addr))
      | Some acc \<Rightarrow>
          if acc_Balance acc < amount
          then (ws, Err (ErrInsufficientSub addr (acc_Balance acc) amount))
          else (put_account addr (acc\<lparr>acc_Balance := acc_Balance acc - amount\<rparr>) ws, Ok ()))"

definition SetCode :: "'x prims_scheme \<Rightarrow> address \<Rightarrow> byte list \<Rightarrow> WorldState \<Rightarrow> WorldState" where
  "SetCode P addr code ws =
     (let acc = account_or_new ws addr;
          codeHash = sha256 P code
      in (put_account addr (acc\<lparr>acc_CodeHash := codeHash\<rparr>) ws)
           \<lparr>contractCode := (contractCode ws)(codeHash \<mapsto> code)\<rparr>)"

definition GetCode :: "WorldState \<Rightarrow> address \<Rightarrow> byte list option" where
  "GetCode ws addr =
     (case accounts ws addr of None \<Rightarrow> None | Some acc \<Rightarrow> contractCode ws (acc_CodeHash acc))"

definition StateRoot ::
  "'x acc_prims_scheme \<Rightarrow> address list \<Rightarrow> (address \<Rightarrow> hash list) \<Rightarrow> WorldState \<Rightarrow> hash" where
  "StateRoot P order sorder ws =
     (let addrs = sort order;
          combined = fold (\<lambda>addr acc.
             case Account_Encode P (sorder addr) (the (accounts ws addr)) of
               None \<Rightarrow> acc
             | Some data \<Rightarrow> acc @ Address_ToSlice addr @ data) addrs []
      in sha256 P combined)"

definition WorldState_Copy ::
  "address list \<Rightarrow> (address \<Rightarrow> hash list) \<Rightarrow> hash list \<Rightarrow> WorldState \<Rightarrow> WorldState" where
  "WorldState_Copy order sorder corder ws =
     \<lparr>accounts = fold (\<lambda>addr acc. acc(addr \<mapsto> DeepCopy (sorder addr) (the (accounts ws addr))))
        order Map.empty,
      contractCode = range_copy corder (\<lambda>code. go_copy (replicate (length code) 0) code)
        (contractCode ws)\<rparr>"

definition AccountCount :: "WorldState \<Rightarrow> nat" where
  "AccountCount ws = card (dom (accounts ws))"

definition SetAccountState ::
  "address \<Rightarrow> hash \<Rightarrow> byte list \<Rightarrow> WorldState \<Rightarrow> WorldState \<times> unit res" where
  "SetAccountState addr key val ws =
     (let acc = account_or_new ws addr
      in (put_account addr (acc\<lparr>acc_Storage := (acc_Storage acc)(key \<mapsto> val)\<rparr>) ws, Ok ()))"

definition GetAccountState :: "WorldState \<Rightarrow> address \<Rightarrow> hash \<Rightarrow> byte list res" where
  "GetAccountState ws addr key =
     (case accounts ws addr of
        None \<Rightarrow> Err (ErrAccountNotFound addr)
      | Some acc \<Rightarrow>
          (case acc_Storage acc key of
             None \<Rightarrow> Err (ErrKeyNotFound key addr)
           | Some val \<Rightarrow> Ok val))"

text \<open>
  The abstract ledger that the state implements: a natural-number balance per address.
\<close>

definition balance_of :: "WorldState \<Rightarrow> address \<Rightarrow> nat" where
  "balance_of ws a = unat (GetBalance ws a)"

section \<open>Lookups after writes\<close>

lemma put_account_lookup [simp]:
  "accounts (put_account a acc ws) = (accounts ws)(a \<mapsto> acc)"
  "contractCode (put_account a acc ws) = contractCode ws"
  by (simp_all add: put_account_def)

lemma GetBalance_put [simp]:
  "GetBalance (put_account a acc ws) x = (if x = a then acc_Balance acc else GetBalance ws x)"
  by (simp add: GetBalance_def)

lemma GetNonce_put [simp]:
  "GetNonce (put_account a acc ws) x = (if x = a then acc_Nonce acc else GetNonce ws x)"
  by (simp add: GetNonce_def)

lemma account_or_new_put [simp]:
  "account_or_new (put_account a acc ws) x = (if x = a then acc else account_or_new ws x)"
  by (simp add: account_or_new_def)

lemma account_or_new_balance [simp]: "acc_Balance (account_or_new ws a) = GetBalance ws a"
  by (simp add: account_or_new_def GetBalance_def split: option.splits)

lemma account_or_new_nonce [simp]: "acc_Nonce (account_or_new ws a) = GetNonce ws a"
  by (simp add: account_or_new_def GetNonce_def split: option.splits)

lemma IncrementNonce_balance [simp]: "GetBalance (IncrementNonce a ws) x = GetBalance ws x"
  by (simp add: IncrementNonce_def Let_def)

lemma IncrementNonce_nonce:
  "GetNonce (IncrementNonce a ws) x = (if x = a then GetNonce ws a + 1 else GetNonce ws x)"
  by (simp add: IncrementNonce_def Let_def)

lemma AddBalance_balance:
  "GetBalance (AddBalance a v ws) x = (if x = a then GetBalance ws a + v else GetBalance ws x)"
  by (simp add: AddBalance_def Let_def)

lemma AddBalance_nonce [simp]: "GetNonce (AddBalance a v ws) x = GetNonce ws x"
  by (simp add: AddBalance_def Let_def)

lemma SetAccountState_balance [simp]:
  "GetBalance (fst (SetAccountState a k v ws)) x = GetBalance ws x"
  by (simp add: SetAccountState_def Let_def)

lemma SetAccountState_nonce [simp]:
  "GetNonce (fst (SetAccountState a k v ws)) x = GetNonce ws x"
  by (simp add: SetAccountState_def Let_def)

section \<open>Transfers\<close>

text \<open>The four ways a transfer can end, in the order the code tests them.\<close>

lemma Transfer_cases:
  obtains (zero) "val = 0" "Transfer src dst val ws = (ws, Err ErrZeroTransfer)"
  | (missing) "val \<noteq> 0" "accounts ws src = None"
      "Transfer src dst val ws = (ws, Err (ErrNoSender src))"
  | (poor) "val \<noteq> 0" "accounts ws src \<noteq> None" "GetBalance ws src < val"
      "Transfer src dst val ws = (ws, Err (ErrInsufficientSend src (GetBalance ws src) val))"
  | (moved) ws' where "val \<noteq> 0" "accounts ws src \<noteq> None" "val \<le> GetBalance ws src"
      "Transfer src dst val ws = (ws', Ok ())"
proof (cases "val = 0")
  case True
  then show ?thesis using zero by (simp add: Transfer_def)
next
  case nz: False
  show ?thesis
  proof (cases "accounts ws src")
    case None
    then show ?thesis using missing nz by (simp add: Transfer_def)
  next
    case (Some acc)
    then have bal: "GetBalance ws src = acc_Balance acc" by (simp add: GetBalance_def)
    show ?thesis
    proof (cases "acc_Balance acc < val")
      case True
      then show ?thesis using poor nz Some bal by (simp add: Transfer_def)
    next
      case False
      then show ?thesis using moved nz Some bal by (simp add: Transfer_def Let_def)
    qed
  qed
qed

lemma Transfer_error_unchanged: "Transfer src dst val ws = (ws', r) \<Longrightarrow> r \<noteq> Ok () \<Longrightarrow> ws' = ws"
  by (cases rule: Transfer_cases [of val src dst ws]) auto

lemma Transfer_Ok_iff:
  "snd (Transfer src dst val ws) = Ok () \<longleftrightarrow>
     val \<noteq> 0 \<and> accounts ws src \<noteq> None \<and> val \<le> GetBalance ws src"
  by (cases rule: Transfer_cases [of val src dst ws]) auto

lemma Transfer_balance:
  assumes "Transfer src dst val ws = (ws', Ok ())"
  shows "GetBalance ws' x =
    (let b = (\<lambda>y. if y = src then GetBalance ws y - val else GetBalance ws y)
     in if x = dst then b x + val else b x)"
  using assms
  by (auto simp: Transfer_def Let_def GetBalance_def account_or_new_def
      split: if_splits option.splits)

lemma Transfer_nonce:
  assumes "Transfer src dst val ws = (ws', r)"
  shows "GetNonce ws' x = GetNonce ws x"
  using assms
  by (auto simp: Transfer_def Let_def GetNonce_def account_or_new_def
      split: if_splits option.splits)

lemma Transfer_storage:
  assumes "Transfer src dst val ws = (ws', r)"
  shows "acc_Storage (account_or_new ws' x) = acc_Storage (account_or_new ws x)"
  using assms
  by (auto simp: Transfer_def Let_def account_or_new_def split: if_splits option.splits)

text \<open>While the supply fits 64 bits, no transfer wraps, and it refines the ledger's.\<close>

lemma Transfer_refines:
  assumes "Transfer src dst val ws = (ws', Ok ())" and "total_supply (balance_of ws) < 2 ^ 64"
  shows "unat val \<le> balance_of ws src"
    and "balance_of ws' = ledger_transfer src dst (unat val) (balance_of ws)"
proof -
  from assms(1) have le: "val \<le> GetBalance ws src"
    using Transfer_Ok_iff [of src dst val ws] by simp
  then show leq: "unat val \<le> balance_of ws src"
    by (simp add: balance_of_def word_le_nat_alt)
  have fits: "unat (GetBalance ws dst) + unat val < 2 ^ 64" if "dst \<noteq> src"
    using two_balances_le_supply [OF that, of "balance_of ws"] leq assms(2)
    by (simp add: balance_of_def)
  show "balance_of ws' = ledger_transfer src dst (unat val) (balance_of ws)"
  proof
    fix x
    show "balance_of ws' x = ledger_transfer src dst (unat val) (balance_of ws) x"
      using le fits leq Transfer_balance [OF assms(1), of x]
      by (auto simp: balance_of_def ledger_transfer_def Let_def unat_sub_le unat_add_no_overflow)
  qed
qed

interpretation ws_ledger: ledger balance_of Transfer
proof
  fix src dst val ws ws' and r :: "unit res"
  show "unat val \<le> balance_of ws src \<and>
      balance_of ws' = ledger_transfer src dst (unat val) (balance_of ws)"
    if "Transfer src dst val ws = (ws', Ok ())" and "total_supply (balance_of ws) < 2 ^ 64"
    using Transfer_refines [OF that] by simp
  show "ws' = ws" if "Transfer src dst val ws = (ws', r)" and "r \<noteq> Ok ()"
    using that by (rule Transfer_error_unchanged)
qed

interpretation ws_mint: minting_ledger balance_of Transfer AddBalance
proof
  fix ws a and val :: u64
  assume "balance_of ws a + unat val < 2 ^ 64"
  then show "balance_of (AddBalance a val ws) = (balance_of ws)(a := balance_of ws a + unat val)"
    by (auto simp: balance_of_def AddBalance_balance unat_add_no_overflow fun_eq_iff)
qed

section \<open>Contract storage\<close>

definition WorldState_StateDB :: "WorldState StateDB" where
  "WorldState_StateDB =
     \<lparr>db_GetAccountState = GetAccountState, db_SetAccountState = SetAccountState\<rparr>"

lemma GetAccountState_value:
  "ok_value (GetAccountState ws a k) = acc_Storage (account_or_new ws a) k"
  by (simp add: GetAccountState_def account_or_new_def split: option.splits)

lemma SetAccountState_storage:
  "acc_Storage (account_or_new (fst (SetAccountState a k v ws)) x) =
     (if x = a then (acc_Storage (account_or_new ws a))(k \<mapsto> v) else acc_Storage (account_or_new ws x))"
  by (simp add: SetAccountState_def Let_def)

interpretation ws_db: state_db WorldState_StateDB
proof
  fix a a' k k' v ws p
  show "snd (db_SetAccountState WorldState_StateDB a k v ws) = Ok ()"
    by (simp add: WorldState_StateDB_def SetAccountState_def Let_def)
  show "db_GetAccountState WorldState_StateDB (fst (db_SetAccountState WorldState_StateDB a k v ws)) a k = Ok v"
    by (simp add: WorldState_StateDB_def GetAccountState_value SetAccountState_storage
        flip: ok_value_eq_Some)
  show "ok_value (db_GetAccountState WorldState_StateDB
          (fst (db_SetAccountState WorldState_StateDB a k v ws)) a' k')
        = ok_value (db_GetAccountState WorldState_StateDB ws a' k')" if "(a', k') \<noteq> (a, k)"
    using that by (auto simp: WorldState_StateDB_def GetAccountState_value SetAccountState_storage)
  show "db_GetAccountState WorldState_StateDB ws a k \<noteq> Panic p"
    by (simp add: WorldState_StateDB_def GetAccountState_def split: option.splits)
qed

section \<open>Enumeration orders: the state root and copies\<close>

lemma sort_enumeration: "enumerates ks m \<Longrightarrow> enumerates ks' m \<Longrightarrow> sort ks = sort ks'"
  by (simp add: enumerates_def sorted_distinct_set_unique)

lemma fold_cong_set:
  "(\<And>x acc. x \<in> set xs \<Longrightarrow> f x acc = g x acc) \<Longrightarrow> fold f xs acc = fold g xs acc"
  by (induction xs arbitrary: acc) auto

lemma StateRoot_order:
  assumes "enumerates order (accounts ws)" and "enumerates order' (accounts ws)"
    and same: "\<And>a acc. accounts ws a = Some acc \<Longrightarrow>
      Account_Encode P (sorder a) acc = Account_Encode P (sorder' a) acc"
  shows "StateRoot P order sorder ws = StateRoot P order' sorder' ws"
proof -
  have "sort order = sort order'" using assms(1,2) by (rule sort_enumeration)
  moreover have "Account_Encode P (sorder a) (the (accounts ws a))
      = Account_Encode P (sorder' a) (the (accounts ws a))" if "a \<in> set (sort order')" for a
  proof -
    from that assms(2) obtain acc where "accounts ws a = Some acc"
      by (auto simp: enumerates_def)
    with same show ?thesis by simp
  qed
  ultimately show ?thesis
    unfolding StateRoot_def Let_def
    by (intro arg_cong [where f = "sha256 P"]) (auto intro: fold_cong_set)
qed

lemma WorldState_Copy_eq:
  assumes "enumerates order (accounts ws)" and "enumerates corder (contractCode ws)"
    and "\<And>a acc. accounts ws a = Some acc \<Longrightarrow> enumerates (sorder a) (acc_Storage acc)"
  shows "WorldState_Copy order sorder corder ws = ws"
proof -
  have "fold (\<lambda>addr acc. acc(addr \<mapsto> DeepCopy (sorder addr) (the (accounts ws addr)))) order Map.empty
      = accounts ws"
  proof
    fix a
    show "fold (\<lambda>addr acc. acc(addr \<mapsto> DeepCopy (sorder addr) (the (accounts ws addr))))
        order Map.empty a = accounts ws a"
      using assms(1,3) by (cases "accounts ws a")
        (auto simp: fold_upd_lookup enumerates_def DeepCopy_eq)
  qed
  moreover have "range_copy corder (\<lambda>code. go_copy (replicate (length code) 0) code) (contractCode ws)
      = contractCode ws"
    using assms(2) by (simp add: range_copy_map go_copy_same_length fun_eq_iff option.map_ident)
  ultimately show ?thesis by (cases ws) (simp add: WorldState_Copy_def)
qed

section \<open>Contract code\<close>

lemma GetCode_SetCode_same: "GetCode (SetCode P a code ws) a = Some code"
  by (simp add: GetCode_def SetCode_def Let_def)

lemma GetCode_SetCode_other:
  assumes "x \<noteq> a" and "accounts ws x = Some acc" and "acc_CodeHash acc \<noteq> sha256 P code"
  shows "GetCode (SetCode P a code ws) x = GetCode ws x"
  using assms by (simp add: GetCode_def SetCode_def Let_def)

end
