(* ===== verification/EVM_Props.thy ===== *)
theory EVM_Props
  imports EVM_Lemmas WorldState
begin

text \<open>
  The properties of the virtual machine: its arithmetic is that of 256-bit words, its storage
  instructions read what they wrote, its gas bounds every run but those with the largest limit,
  and a run touches nothing but the storage of its contract.
\<close>

unbundle bit_operations_syntax

section \<open>Runs that never end\<close>

text \<open>\<open>JUMPDEST; PUSH1 0; JUMP\<close>\<close>

definition spin_code :: "byte list" where
  "spin_code = [0x5b, 0x60, 0x00, 0x56]"

definition spinning :: "'s EVM \<Rightarrow> bool" where
  "spinning e \<longleftrightarrow> evm_code e = spin_code \<and> evm_gasLimit e = -1 \<and>
     (evm_pc e = 0 \<and> evm_stack e = [] \<or> evm_pc e = 1 \<and> evm_stack e = [] \<or>
      evm_pc e = 3 \<and> evm_stack e = [0])"

lemma spinning_step:
  assumes "spinning e"
  shows "EVM_running e \<and> (\<exists>e'. EVM_step P db e = Continue e' \<and> spinning e')"
proof -
  have gas: "consumeGas 1 e = Ok (e\<lparr>evm_gasUsed := evm_gasUsed e + 1\<rparr>)"
    using assms by (simp add: consumeGas_def spinning_def)
  from assms consider "evm_pc e = 0" "evm_stack e = []" | "evm_pc e = 1" "evm_stack e = []"
    | "evm_pc e = 3" "evm_stack e = [0]" by (auto simp: spinning_def)
  then show ?thesis
  proof cases
    case 1
    with assms gas show ?thesis
      by (simp add: spinning_def EVM_running_def EVM_step_def exec_bind_def spin_code_def decode_op_def)
  next
    case 2
    with assms gas show ?thesis
      by (simp add: spinning_def EVM_running_def EVM_step_def exec_bind_def spin_code_def decode_op_def
          op_push_def go_slice_def evm_push_def Stack_Push_eq SetBytes_def SetBytes_nat_def)
  next
    case 3
    with assms gas show ?thesis
      by (simp add: spinning_def EVM_running_def EVM_step_def exec_bind_def spin_code_def decode_op_def
          op_jump_def evm_pop_def Stack_Pop_def isValidJumpDest_def Int_Uint64_def)
  qed
qed

lemma spinning_Run: "spinning e \<Longrightarrow> EVM_Run P db e = None"
proof (rule ccontr)
  assume spin: "spinning e" and "EVM_Run P db e \<noteq> None"
  then obtain r where "EVM_Run P db e = Some r" by blast
  then obtain e' where steps: "evm_steps P db e e'" and fin: "final_result P db e' r"
    using EVM_Run_steps by blast
  from steps spin have "spinning e'"
  proof (induction rule: evm_steps.induct)
    case (evm_done e)
    then show ?case .
  next
    case (evm_more e e' e'')
    then show ?case using spinning_step [of e P db] by auto
  qed
  with spinning_step [of e' P db] fin show False by (auto simp: final_result_def)
qed

section \<open>Arithmetic on 256-bit words\<close>

text \<open>
  The reference machine: a stack of \<open>256 word\<close>, where a pop of the empty stack gives zero.
\<close>

definition word_pop :: "256 word list \<Rightarrow> 256 word \<times> 256 word list" where
  "word_pop s = (if s = [] then (0, []) else (last s, butlast s))"

definition word_binary :: "(256 word \<Rightarrow> 256 word \<Rightarrow> 256 word) \<Rightarrow> 256 word list \<Rightarrow> 256 word list" where
  "word_binary f s = (let (x, s1) = word_pop s; (y, s2) = word_pop s1 in s2 @ [f x y])"

primrec word_op :: "opcode \<Rightarrow> (256 word \<Rightarrow> 256 word \<Rightarrow> 256 word) option" where
  "word_op ADD = Some (+)"
| "word_op SUB = Some (-)"
| "word_op MUL = Some (*)"
| "word_op DIV = Some (\<lambda>x y. if y = 0 then 0 else x div y)"
| "word_op EQ = Some (\<lambda>x y. if x = y then 1 else 0)"
| "word_op LT = Some (\<lambda>x y. if x < y then 1 else 0)"
| "word_op GT = Some (\<lambda>x y. if y < x then 1 else 0)"
| "word_op OpAND = Some (AND)"
| "word_op OpOR = Some (OR)"
| "word_op (PUSH n) = None" | "word_op (DUP n) = None" | "word_op (SWAP n) = None"
| "word_op POP = None" | "word_op ISZERO = None" | "word_op SHA3 = None" | "word_op MLOAD = None"
| "word_op MSTORE = None" | "word_op MSTORE8 = None" | "word_op SLOAD = None"
| "word_op SSTORE = None" | "word_op CALLVALUE = None" | "word_op CALLDATALOAD = None"
| "word_op CALLDATASIZE = None" | "word_op JUMP = None" | "word_op JUMPI = None"
| "word_op JUMPDEST = None" | "word_op RETURN = None" | "word_op REVERT = None"
| "word_op STOP = None" | "word_op UNSUPPORTED = None"

definition word_stack :: "stack \<Rightarrow> 256 word list" where
  "word_stack s = map word_of_int s"

lemma is_u256_word: "is_u256 v \<Longrightarrow> \<exists>w :: 256 word. v = uint w"
  by (rule exI [of _ "word_of_int v"]) (simp add: is_u256_def uint_word_of_int)

lemma word_of_int_mod256 [simp]:
  "word_of_int (v mod 115792089237316195423570985008687907853269984665640564039457584007913129639936)
     = (word_of_int v :: 256 word)"
  by (simp add: word_of_int_eq_iff take_bit_eq_mod)

lemma word_stack_push: "word_stack (Stack_Push s v) = word_stack s @ [word_of_int v]"
  by (simp add: word_stack_def Stack_Push_eq)

lemma word_stack_pop:
  "stack_ok s \<Longrightarrow> Stack_Pop s = (v, s') \<Longrightarrow> word_pop (word_stack s) = (word_of_int v, word_stack s')"
  by (auto simp: Stack_Pop_def word_pop_def word_stack_def last_map map_butlast split: if_splits)

lemma op_binary_word:
  assumes ok: "stack_ok (evm_stack evm)"
    and f: "\<And>X Y :: 256 word. word_of_int (f (uint X) (uint Y)) = g X Y"
  shows "\<exists>evm'. op_binary f evm = Continue evm' \<and>
    word_stack (evm_stack evm') = word_binary g (word_stack (evm_stack evm)) \<and>
    evm' = evm\<lparr>evm_stack := evm_stack evm'\<rparr>"
proof -
  obtain x s1 where p1: "Stack_Pop (evm_stack evm) = (x, s1)" by fastforce
  obtain y s2 where p2: "Stack_Pop s1 = (y, s2)" by fastforce
  have x: "is_u256 x" and s1: "stack_ok s1" using Stack_Pop_okD [OF p1 ok] by simp_all
  have y: "is_u256 y" using Stack_Pop_okD [OF p2 s1] by simp
  obtain X Y :: "256 word" where X: "x = uint X" and Y: "y = uint Y"
    using is_u256_word [OF x] is_u256_word [OF y] by auto
  have "word_of_int (f x y) = g (word_of_int x) (word_of_int y)"
    by (simp add: X Y f)
  then show ?thesis
    using word_stack_pop [OF ok p1] word_stack_pop [OF s1 p2] p1 p2
    by (simp add: op_binary_def evm_pop_def evm_push_def word_binary_def word_stack_push)
qed

lemma uint_256_less: "uint (w :: 256 word) < 2 ^ 256"
  using uint_bounded [of w] by simp

lemma word_arith_ops:
  fixes X Y :: "256 word"
  shows "word_of_int (uint X + uint Y) = X + Y"
    and "word_of_int (uint X - uint Y) = X - Y"
    and "word_of_int (uint X * uint Y) = X * Y"
    and "word_of_int (uint X AND uint Y) = X AND Y"
    and "word_of_int (uint X OR uint Y) = X OR Y"
  by (simp_all add: of_int_and_eq of_int_or_eq)

lemma word_div_op:
  fixes X Y :: "256 word"
  shows "word_of_int (if uint Y = 0 then 0 else Int_Div (uint X) (uint Y)) = (if Y = 0 then 0 else X div Y)"
proof (cases "Y = 0")
  case False
  then have "uint Y > 0" by (metis uint_0_iff uint_ge_0 order_less_le)
  then show ?thesis using False by (simp add: Int_Div_def word_div_def)
qed simp

lemma word_cmp_ops:
  fixes X Y :: "256 word"
  shows "word_of_int (if uint X = uint Y then 1 else 0) = (if X = Y then 1 else 0 :: 256 word)"
    and "word_of_int (if uint X < uint Y then 1 else 0) = (if X < Y then 1 else 0 :: 256 word)"
    and "word_of_int (if uint X > uint Y then 1 else 0) = (if Y < X then 1 else 0 :: 256 word)"
  by (simp_all add: word_less_def word_uint_eq_iff)

lemma exec_op_binary:
  assumes "word_op op = Some g"
  obtains f where "exec_op P db evm op = op_binary f evm"
    and "\<And>X Y :: 256 word. word_of_int (f (uint X) (uint Y)) = g X Y"
proof (cases op)
  case ADD
  with assms show ?thesis using that [of "(+)"] by (simp add: word_arith_ops)
next
  case SUB
  with assms show ?thesis using that [of "(-)"] by (simp add: word_arith_ops)
next
  case MUL
  with assms show ?thesis using that [of "(*)"] by (simp add: word_arith_ops)
next
  case DIV
  show ?thesis by (rule that, simp only: DIV exec_op.simps) (use assms DIV word_div_op in auto)
next
  case EQ
  show ?thesis by (rule that, simp only: EQ exec_op.simps) (use assms EQ word_cmp_ops(1) in auto)
next
  case LT
  show ?thesis by (rule that, simp only: LT exec_op.simps) (use assms LT word_cmp_ops(2) in auto)
next
  case GT
  show ?thesis by (rule that, simp only: GT exec_op.simps) (use assms GT word_cmp_ops(3) in auto)
next
  case OpAND
  with assms show ?thesis using that [of "(AND)"] by (simp add: word_arith_ops)
next
  case OpOR
  with assms show ?thesis using that [of "(OR)"] by (simp add: word_arith_ops)
qed (use assms in simp_all)

lemma exec_op_word:
  assumes "word_op op = Some g" and "stack_ok (evm_stack evm)"
  shows "\<exists>evm'. exec_op P db evm op = Continue evm' \<and>
    word_stack (evm_stack evm') = word_binary g (word_stack (evm_stack evm)) \<and>
    evm' = evm\<lparr>evm_stack := evm_stack evm'\<rparr>"
proof -
  obtain f where f: "exec_op P db evm op = op_binary f evm"
    and g: "\<And>X Y :: 256 word. word_of_int (f (uint X) (uint Y)) = g X Y"
    using exec_op_binary [OF assms(1), of P db evm] by blast
  show ?thesis unfolding f using assms(2) g by (rule op_binary_word)
qed

section \<open>Storage instructions\<close>

text \<open>The value that \<open>SLOAD\<close> pushes for a key, given the state and the contract.\<close>

definition slot_value :: "'x prims_scheme \<Rightarrow> 's StateDB \<Rightarrow> 's \<Rightarrow> address \<Rightarrow> int \<Rightarrow> int" where
  "slot_value P db st c key =
     (case storage_key P key of
        Ok kh \<Rightarrow> (case db_GetAccountState db st c kh of
                    Ok bs \<Rightarrow> if bs = [] then 0 else SetBytes bs mod 2 ^ 256
                  | _ \<Rightarrow> 0)
      | _ \<Rightarrow> 0)"

lemma storage_key_Ok: "is_u256 key \<Longrightarrow> \<exists>kh. storage_key P key = Ok kh"
  using pad32_word [of key] by (auto simp: storage_key_def is_u256_def)

lemma storage_key_eq_iff:
  assumes "is_u256 a" and "is_u256 b" and "inj_on (sha256 P) {bs. length bs = 32}"
  shows "storage_key P a = storage_key P b \<longleftrightarrow> a = b"
proof -
  obtain x where x: "pad32 (Int_Bytes a) = (Ok x :: byte list res)" "length x = 32" "SetBytes x = a"
    using pad32_word [of a] assms(1) by (auto simp: is_u256_def)
  obtain y where y: "pad32 (Int_Bytes b) = (Ok y :: byte list res)" "length y = 32" "SetBytes y = b"
    using pad32_word [of b] assms(2) by (auto simp: is_u256_def)
  have "sha256 P x = sha256 P y \<longleftrightarrow> x = y"
    using assms(3) x(2) y(2) by (simp add: inj_on_eq_iff)
  moreover have "x = y \<longleftrightarrow> a = b"
    using x(1,3) y(1,3) by (metis outcome.inject(1))
  ultimately show ?thesis by (simp add: storage_key_def x(1) y(1))
qed

lemma stored_bytes_value:
  assumes "is_u256 val" and "bs = (if Int_Bytes val = [] then [0] else Int_Bytes val)"
  shows "bs \<noteq> [] \<and> SetBytes bs = val"
  using assms SetBytes_Int_Bytes [of val]
  by (auto simp: is_u256_def SetBytes_def SetBytes_nat_def)

context state_db
begin

lemma op_sload_pushes:
  assumes "evm_stack evm = s @ [key]" and "is_u256 key"
  shows "op_sload P db evm =
    Continue (evm\<lparr>evm_stack := s @ [slot_value P db (evm_state evm) (evm_contract evm) key]\<rparr>)"
proof -
  obtain kh where kh: "storage_key P key = Ok kh" using storage_key_Ok [OF assms(2)] by blast
  show ?thesis
    using assms(1) get_no_panic
    by (cases "db_GetAccountState db (evm_state evm) (evm_contract evm) kh")
      (auto simp: op_sload_def evm_pop_def evm_push_def exec_bind_def slot_value_def kh Stack_Push_eq)
qed

lemma op_sstore_writes:
  assumes "evm_stack evm = s @ [val, key]" and key: "is_u256 key" and val: "is_u256 val"
  shows "\<exists>st. op_sstore P db evm = Continue (evm\<lparr>evm_stack := s, evm_state := st\<rparr>)
    \<and> slot_value P db st (evm_contract evm) key = val
    \<and> (\<forall>c key'. (c, storage_key P key') \<noteq> (evm_contract evm, storage_key P key) \<longrightarrow>
         slot_value P db st c key' = slot_value P db (evm_state evm) c key')"
proof -
  obtain kh where kh: "storage_key P key = Ok kh" using storage_key_Ok [OF key] by blast
  define bs where "bs = (if Int_Bytes val = [] then [0] else Int_Bytes val)"
  define st where "st = fst (db_SetAccountState db (evm_contract evm) kh bs (evm_state evm))"
  have bs: "bs \<noteq> []" "SetBytes bs = val"
    using stored_bytes_value [OF val bs_def] by simp_all
  have stack: "evm_stack evm = (s @ [val]) @ [key]" using assms(1) by simp
  have set: "db_SetAccountState db (evm_contract evm) kh bs (evm_state evm) = (st, Ok ())"
    using set_ok [of "evm_contract evm" kh bs "evm_state evm"] by (simp add: st_def prod_eq_iff)
  have "op_sstore P db evm = Continue (evm\<lparr>evm_stack := s, evm_state := st\<rparr>)"
    unfolding op_sstore_def evm_pop_def stack Stack_Pop_snoc
    by (simp add: exec_bind_def kh set Let_def flip: bs_def)
  moreover have "slot_value P db st (evm_contract evm) key = val"
    using bs val by (simp add: slot_value_def kh st_def get_set_same is_u256_def)
  moreover have "slot_value P db st c key' = slot_value P db (evm_state evm) c key'"
    if "(c, storage_key P key') \<noteq> (evm_contract evm, storage_key P key)" for c key'
  proof (cases "storage_key P key'")
    case (Ok kh')
    with that kh have "(c, kh') \<noteq> (evm_contract evm, kh)" by simp
    then have "ok_value (db_GetAccountState db st c kh') = ok_value (db_GetAccountState db (evm_state evm) c kh')"
      unfolding st_def by (rule get_set_other)
    with Ok show ?thesis
      by (cases "db_GetAccountState db st c kh'"; cases "db_GetAccountState db (evm_state evm) c kh'")
        (simp_all add: slot_value_def)
  qed (simp_all add: slot_value_def)
  ultimately show ?thesis by blast
qed

end

section \<open>What a run may change\<close>

text \<open>
  The two states agree except in the storage of one account, which may also be new and empty.
\<close>

definition storage_only :: "address \<Rightarrow> WorldState \<Rightarrow> WorldState \<Rightarrow> bool" where
  "storage_only c ws ws' \<longleftrightarrow>
     (\<forall>a. a \<noteq> c \<longrightarrow> accounts ws' a = accounts ws a) \<and> contractCode ws' = contractCode ws \<and>
     (account_or_new ws' c)\<lparr>acc_Storage := Map.empty\<rparr> = (account_or_new ws c)\<lparr>acc_Storage := Map.empty\<rparr>"

lemma storage_only_refl: "storage_only c ws ws"
  by (simp add: storage_only_def)

lemma storage_only_trans: "storage_only c s t \<Longrightarrow> storage_only c t u \<Longrightarrow> storage_only c s u"
  by (simp add: storage_only_def)

lemma storage_only_set: "storage_only c ws (fst (SetAccountState c k v ws))"
  by (simp add: storage_only_def SetAccountState_def Let_def)

lemma storage_only_balance:
  assumes "storage_only c ws ws'"
  shows "GetBalance ws' = GetBalance ws" and "GetNonce ws' = GetNonce ws"
proof -
  have "acc_Balance ((account_or_new ws' c)\<lparr>acc_Storage := Map.empty\<rparr>)
      = acc_Balance ((account_or_new ws c)\<lparr>acc_Storage := Map.empty\<rparr>)"
    and "acc_Nonce ((account_or_new ws' c)\<lparr>acc_Storage := Map.empty\<rparr>)
      = acc_Nonce ((account_or_new ws c)\<lparr>acc_Storage := Map.empty\<rparr>)"
    using assms by (simp_all add: storage_only_def)
  then have c: "GetBalance ws' c = GetBalance ws c" "GetNonce ws' c = GetNonce ws c" by simp_all
  have "GetBalance ws' a = GetBalance ws a \<and> GetNonce ws' a = GetNonce ws a" for a
    using c assms by (cases "a = c") (simp_all add: storage_only_def GetBalance_def GetNonce_def)
  then show "GetBalance ws' = GetBalance ws" and "GetNonce ws' = GetNonce ws" by auto
qed

lemma EVM_Run_storage_only:
  assumes "EVM_Run P WorldState_StateDB evm = Some r" and "exec_evm r = Some evm'"
  shows "storage_only (evm_contract evm) (evm_state evm) (evm_state evm')"
proof (rule EVM_Run_confined [OF _ _ _ assms])
  show "storage_only (evm_contract evm) s
      (fst (db_SetAccountState WorldState_StateDB (evm_contract evm) k v s))" for k v s
    by (simp add: WorldState_StateDB_def storage_only_set)
qed (rule storage_only_refl, erule (1) storage_only_trans)

end
