(* ===== verification/Transaction.thy ===== *)
theory Transaction
  imports Keypair
begin

text \<open>
  Transactions: src/core/transaction.go, \<open>TxHasher\<close> of src/core/hasher.go and the gob codec of
  src/core/encoding.go. The memoised hash is a field; the method that fills it returns the
  updated transaction. \<open>encoding/gob\<close> itself is a parameter: it sees the exported fields, with
  the sender already turned into bytes by \<open>PublicKey.GobEncode\<close> (\<open>tx_wire\<close>), and a decoded
  transaction has its unexported fields zero.
\<close>

section \<open>Definitions\<close>

record Transaction =
  tx_Data :: "byte list"
  tx_To :: address
  tx_Value :: u64
  tx_Nonce :: u64
  tx_GasLimit :: u64
  tx_GasPrice :: u64
  tx_From :: PublicKey
  tx_Signature :: "Signature option"
  tx_hash :: hash
  tx_firstSeen :: i64

record tx_wire =
  w_Data :: "byte list"
  w_To :: address
  w_Value :: u64
  w_Nonce :: u64
  w_GasLimit :: u64
  w_GasPrice :: u64
  w_From :: "byte list"
  w_Signature :: "Signature option"

record tx_prims = prims +
  gob_Transaction :: "tx_wire \<Rightarrow> byte list res"
  ungob_Transaction :: "byte list \<Rightarrow> tx_wire res"

definition NewTransaction :: "byte list \<Rightarrow> Transaction" where
  "NewTransaction data =
     \<lparr>tx_Data = data, tx_To = zero_address, tx_Value = 0, tx_Nonce = 0, tx_GasLimit = 0,
      tx_GasPrice = 0, tx_From = \<lparr>Key = None\<rparr>, tx_Signature = None, tx_hash = zero_hash,
      tx_firstSeen = 0\<rparr>"

definition TxHasher_Hash :: "'x prims_scheme \<Rightarrow> Transaction \<Rightarrow> hash" where
  "TxHasher_Hash P tx = sha256 P (tx_Data tx)"

definition Transaction_Hash :: "(Transaction \<Rightarrow> hash) \<Rightarrow> Transaction \<Rightarrow> hash \<times> Transaction" where
  "Transaction_Hash hasher tx =
     (let tx' = (if Hash_IsZero (tx_hash tx) then tx\<lparr>tx_hash := hasher tx\<rparr> else tx)
      in (tx_hash tx', tx'))"

definition Transaction_Sign ::
  "'x prims_scheme \<Rightarrow> nat \<Rightarrow> PrivateKey \<Rightarrow> Transaction \<Rightarrow> Transaction res" where
  "Transaction_Sign P rnd privKey tx =
     bind_outcome (PrivateKey_Sign P rnd privKey (tx_Data tx))
       (\<lambda>sig. Ok (tx\<lparr>tx_From := PrivateKey_PublicKey privKey, tx_Signature := Some sig\<rparr>))"

definition Transaction_Verify :: "'x prims_scheme \<Rightarrow> Transaction \<Rightarrow> unit res" where
  "Transaction_Verify P tx =
     (case tx_Signature tx of
        None \<Rightarrow> Err ErrTxNoSignature
      | Some sig \<Rightarrow>
          bind_outcome (Signature_Verify P sig (tx_From tx) (tx_Data tx))
            (\<lambda>ok. if \<not> ok then Err ErrTxBadSignature else Ok ()))"

definition Transaction_wire :: "'x prims_scheme \<Rightarrow> Transaction \<Rightarrow> tx_wire res" where
  "Transaction_wire P tx =
     bind_outcome (PublicKey_GobEncode P (tx_From tx))
       (\<lambda>fb. Ok \<lparr>w_Data = tx_Data tx, w_To = tx_To tx, w_Value = tx_Value tx,
          w_Nonce = tx_Nonce tx, w_GasLimit = tx_GasLimit tx, w_GasPrice = tx_GasPrice tx,
          w_From = fb, w_Signature = tx_Signature tx\<rparr>)"

definition Transaction_unwire :: "'x prims_scheme \<Rightarrow> tx_wire \<Rightarrow> Transaction res" where
  "Transaction_unwire P w =
     bind_outcome (PublicKey_GobDecode P (w_From w))
       (\<lambda>pk. Ok \<lparr>tx_Data = w_Data w, tx_To = w_To w, tx_Value = w_Value w,
          tx_Nonce = w_Nonce w, tx_GasLimit = w_GasLimit w, tx_GasPrice = w_GasPrice w,
          tx_From = pk, tx_Signature = w_Signature w, tx_hash = zero_hash, tx_firstSeen = 0\<rparr>)"

definition Transaction_Encode :: "'x tx_prims_scheme \<Rightarrow> Transaction \<Rightarrow> byte list res" where
  "Transaction_Encode P tx = bind_outcome (Transaction_wire P tx) (gob_Transaction P)"

definition Transaction_Decode :: "'x tx_prims_scheme \<Rightarrow> byte list \<Rightarrow> Transaction res" where
  "Transaction_Decode P bs = bind_outcome (ungob_Transaction P bs) (Transaction_unwire P)"

definition SetFirstSeen :: "i64 \<Rightarrow> Transaction \<Rightarrow> Transaction" where
  "SetFirstSeen t tx = tx\<lparr>tx_firstSeen := t\<rparr>"

definition FirstSeen :: "Transaction \<Rightarrow> i64" where
  "FirstSeen tx = tx_firstSeen tx"

text \<open>What a gob round trip keeps of a transaction: everything but the unexported fields.\<close>

definition tx_exported :: "Transaction \<Rightarrow> Transaction" where
  "tx_exported tx = tx\<lparr>tx_hash := zero_hash, tx_firstSeen := 0\<rparr>"

text \<open>The memo is either unset or the hash of the data.\<close>

definition tx_memo_ok :: "'x prims_scheme \<Rightarrow> Transaction \<Rightarrow> bool" where
  "tx_memo_ok P tx \<longleftrightarrow> tx_hash tx = zero_hash \<or> tx_hash tx = TxHasher_Hash P tx"

text \<open>\<open>gob\<close> reads back what it wrote.\<close>

definition gob_tx_roundtrip :: "'x tx_prims_scheme \<Rightarrow> bool" where
  "gob_tx_roundtrip P \<longleftrightarrow>
     (\<forall>w bs. gob_Transaction P w = Ok bs \<longrightarrow> ungob_Transaction P bs = Ok w)"

section \<open>Lemmas\<close>

lemma Transaction_Hash_value:
  "tx_memo_ok P tx \<Longrightarrow> fst (Transaction_Hash (TxHasher_Hash P) tx) = TxHasher_Hash P tx"
  by (auto simp: Transaction_Hash_def tx_memo_ok_def Let_def Hash_IsZero_iff)

lemma Transaction_Hash_memo_ok [wf_intro]:
  "tx_memo_ok P tx \<Longrightarrow> tx_memo_ok P (snd (Transaction_Hash (TxHasher_Hash P) tx))"
  by (auto simp: Transaction_Hash_def tx_memo_ok_def Let_def TxHasher_Hash_def)

lemma Transaction_Hash_frame:
  "\<exists>h. snd (Transaction_Hash hasher tx) = tx\<lparr>tx_hash := h\<rparr>"
  by (cases tx) (auto simp: Transaction_Hash_def Let_def)

lemma tx_exported_Hash [simp]:
  "tx_exported (snd (Transaction_Hash hasher tx)) = tx_exported tx"
  by (cases tx) (auto simp: Transaction_Hash_def tx_exported_def Let_def)

lemma Transaction_Hash_idem:
  "fst (Transaction_Hash hasher (snd (Transaction_Hash hasher tx))) = fst (Transaction_Hash hasher tx)
   \<or> hasher tx = zero_hash"
  by (auto simp: Transaction_Hash_def Let_def Hash_IsZero_iff)

lemma Transaction_Decode_memo_ok [wf_intro]:
  "Transaction_Decode P bs = Ok tx \<Longrightarrow> tx_memo_ok P tx"
  by (auto simp: Transaction_Decode_def Transaction_unwire_def tx_memo_ok_def)

lemma NewTransaction_memo_ok [wf_intro]: "tx_memo_ok P (NewTransaction d)"
  by (simp add: NewTransaction_def tx_memo_ok_def)

lemma SetFirstSeen_memo_ok [wf_intro]: "tx_memo_ok P tx \<Longrightarrow> tx_memo_ok P (SetFirstSeen t tx)"
  by (simp add: SetFirstSeen_def tx_memo_ok_def TxHasher_Hash_def)

lemma Transaction_Sign_frame:
  "Transaction_Sign P rnd k tx = Ok tx' \<Longrightarrow>
     \<exists>sig. tx' = tx\<lparr>tx_From := PrivateKey_PublicKey k, tx_Signature := Some sig\<rparr>
       \<and> PrivateKey_Sign P rnd k (tx_Data tx) = Ok sig"
  by (auto simp: Transaction_Sign_def)

lemma Transaction_Sign_then_Verify:
  "sign_verifies P \<Longrightarrow> Transaction_Sign P rnd k tx = Ok tx' \<Longrightarrow> Transaction_Verify P tx' = Ok ()"
  by (auto dest!: Transaction_Sign_frame dest: PrivateKey_Sign_verifies simp: Transaction_Verify_def)

lemma Transaction_unwire_wire:
  assumes "marshal_roundtrip P" and "Transaction_wire P tx = Ok w"
  shows "Transaction_unwire P w = Ok (tx_exported tx)"
proof -
  from assms(2) obtain fb where "PublicKey_GobEncode P (tx_From tx) = Ok fb" and "w_From w = fb"
    and w: "w = \<lparr>w_Data = tx_Data tx, w_To = tx_To tx, w_Value = tx_Value tx,
          w_Nonce = tx_Nonce tx, w_GasLimit = tx_GasLimit tx, w_GasPrice = tx_GasPrice tx,
          w_From = fb, w_Signature = tx_Signature tx\<rparr>"
    by (auto simp: Transaction_wire_def)
  then have "PublicKey_GobDecode P (w_From w) = Ok (tx_From tx)"
    using PublicKey_gob_roundtrip [OF assms(1)] by simp
  then show ?thesis
    by (cases tx) (simp add: Transaction_unwire_def tx_exported_def w)
qed

lemma Transaction_gob_roundtrip:
  assumes "marshal_roundtrip P" and "gob_tx_roundtrip P" and "Transaction_Encode P tx = Ok bs"
  shows "Transaction_Decode P bs = Ok (tx_exported tx)"
proof -
  from assms(3) obtain w where "Transaction_wire P tx = Ok w" and "gob_Transaction P w = Ok bs"
    by (auto simp: Transaction_Encode_def)
  with assms(1,2) show ?thesis
    by (auto simp: Transaction_Decode_def gob_tx_roundtrip_def Transaction_unwire_wire)
qed

end
