(* ===== verification/Execute.thy ===== *)
theory Execute
  imports EVM_Props Transaction
begin

text \<open>
  Execution of one transaction on the world state: \<open>executeTransaction\<close> of src/core/blockchain.go,
  step by step, and the loop of \<open>AddBlock\<close> over a block's transactions. The virtual machine writes
  to the live world state and nothing is rolled back on an error, so the state after an error is
  part of the result. \<open>None\<close> is a contract that never returns.
\<close>

section \<open>Definitions\<close>

definition vm_result :: "WorldState \<Rightarrow> WorldState exec option \<Rightarrow> (WorldState \<times> unit res) option" where
  "vm_result ws r =
     (case r of
        None \<Rightarrow> None
      | Some (Continue evm) \<Rightarrow> None
      | Some (Return evm _) \<Rightarrow> Some (evm_state evm, Ok ())
      | Some (Fail evm e) \<Rightarrow> Some (evm_state evm, Err e)
      | Some (Crash p) \<Rightarrow> Some (ws, Panic p))"

definition with_sender ::
  "'x prims_scheme \<Rightarrow> Transaction \<Rightarrow> WorldState \<Rightarrow> (address \<Rightarrow> (WorldState \<times> unit res) option)
   \<Rightarrow> (WorldState \<times> unit res) option" where
  "with_sender P tx ws f =
     (case PublicKey_Address P (tx_From tx) of
        Ok fromAddr \<Rightarrow> f fromAddr
      | Err e \<Rightarrow> Some (ws, Err e)
      | Panic p \<Rightarrow> Some (ws, Panic p))"

definition execute_code :: "'x prims_scheme \<Rightarrow> Transaction \<Rightarrow> WorldState \<Rightarrow> (WorldState \<times> unit res) option" where
  "execute_code P tx ws =
     (if length (tx_Data tx) > 0
      then with_sender P tx ws (\<lambda>fromAddr.
        vm_result ws (EVM_Run P WorldState_StateDB
          (NewEVM (tx_Data tx) [] ws (tx_To tx) fromAddr (Some (uint (tx_Value tx))) (tx_GasLimit tx))))
      else Some (ws, Ok ()))"

definition execute_value :: "'x prims_scheme \<Rightarrow> Transaction \<Rightarrow> WorldState \<Rightarrow> (WorldState \<times> unit res) option" where
  "execute_value P tx ws =
     (if tx_Value tx > 0
      then with_sender P tx ws (\<lambda>fromAddr.
        (case Transfer fromAddr (tx_To tx) (tx_Value tx) ws of
           (ws', Err e) \<Rightarrow> Some (ws', Err (ErrTransferFailed e))
         | (ws', r) \<Rightarrow> Some (ws', r)))
      else Some (ws, Ok ()))"

definition execute_nonce :: "'x prims_scheme \<Rightarrow> Transaction \<Rightarrow> WorldState \<Rightarrow> (WorldState \<times> unit res) option" where
  "execute_nonce P tx ws =
     (if tx_Signature tx \<noteq> None
      then with_sender P tx ws (\<lambda>fromAddr. Some (IncrementNonce fromAddr ws, Ok ()))
      else Some (ws, Ok ()))"

definition executeTransaction ::
  "'x prims_scheme \<Rightarrow> Transaction \<Rightarrow> WorldState \<Rightarrow> (WorldState \<times> unit res) option" where
  "executeTransaction P tx ws =
     then_exec (execute_code P tx ws) (\<lambda>ws.
     then_exec (execute_value P tx ws) (\<lambda>ws.
     execute_nonce P tx ws))"

primrec executeTransactions ::
  "'x prims_scheme \<Rightarrow> Transaction list \<Rightarrow> WorldState \<Rightarrow> (WorldState \<times> unit res) option" where
  "executeTransactions P [] ws = Some (ws, Ok ())"
| "executeTransactions P (tx # txs) ws =
     then_exec (executeTransaction P tx ws) (executeTransactions P txs)"

section \<open>Termination\<close>

lemma EVM_Run_not_Continue: "EVM_Run P db evm \<noteq> Some (Continue e)"
  using EVM_Run_steps [of P db evm "Continue e"]
  by (auto simp: final_result_def split: if_splits exec.splits)

lemma with_sender_returns: "(\<And>a. f a \<noteq> None) \<Longrightarrow> with_sender P tx ws f \<noteq> None"
  by (simp add: with_sender_def split: outcome.splits)

lemma if_returns: "x \<noteq> None \<Longrightarrow> (if c then x else Some y) \<noteq> None"
  by simp

lemma execute_code_returns:
  assumes "tx_GasLimit tx \<noteq> - 1"
  shows "execute_code P tx ws \<noteq> None"
proof -
  have "vm_result ws (EVM_Run P WorldState_StateDB
          (NewEVM (tx_Data tx) [] ws (tx_To tx) a (Some (uint (tx_Value tx))) (tx_GasLimit tx))) \<noteq> None" for a
  proof -
    have "\<exists>r. EVM_Run P WorldState_StateDB
          (NewEVM (tx_Data tx) [] ws (tx_To tx) a (Some (uint (tx_Value tx))) (tx_GasLimit tx)) = Some r"
      by (rule EVM_Run_terminates_aux) (simp_all add: NewEVM_def assms)
    then show ?thesis
      using EVM_Run_not_Continue by (fastforce simp: vm_result_def split: exec.splits)
  qed
  then show ?thesis unfolding execute_code_def by (rule if_returns [OF with_sender_returns])
qed

lemma execute_value_returns: "execute_value P tx ws \<noteq> None"
proof -
  have "(case Transfer a (tx_To tx) (tx_Value tx) ws of
           (ws', Err e) \<Rightarrow> Some (ws', Err (ErrTransferFailed e)) | (ws', r) \<Rightarrow> Some (ws', r)) \<noteq> None" for a
    by (simp split: prod.splits outcome.splits)
  then show ?thesis unfolding execute_value_def by (rule if_returns [OF with_sender_returns])
qed

lemma execute_nonce_returns: "execute_nonce P tx ws \<noteq> None"
  unfolding execute_nonce_def
  by (rule if_returns [OF with_sender_returns]) simp

lemma executeTransaction_returns:
  assumes "tx_GasLimit tx \<noteq> - 1"
  shows "executeTransaction P tx ws \<noteq> None"
  unfolding executeTransaction_def
  by (intro then_exec_returns execute_code_returns [OF assms] execute_value_returns execute_nonce_returns)

lemma executeTransactions_returns:
  assumes "\<And>tx. tx \<in> set txs \<Longrightarrow> tx_GasLimit tx \<noteq> - 1"
  shows "executeTransactions P txs ws \<noteq> None"
  using assms
proof (induction txs arbitrary: ws)
  case (Cons tx txs)
  then show ?case
    unfolding executeTransactions.simps by (intro then_exec_returns executeTransaction_returns) simp_all
qed simp

section \<open>Effect on the world state\<close>

lemma execute_code_storage:
  assumes "execute_code P tx ws = Some (ws', r)"
  shows "storage_only (tx_To tx) ws ws'"
proof (cases "\<exists>evm0 res evm. EVM_Run P WorldState_StateDB evm0 = Some res \<and> exec_evm res = Some evm
    \<and> evm_contract evm0 = tx_To tx \<and> evm_state evm0 = ws \<and> ws' = evm_state evm")
  case True
  then show ?thesis using EVM_Run_storage_only by metis
next
  case False
  have "ws' = ws"
  proof (rule ccontr)
    assume "ws' \<noteq> ws"
    with assms obtain a where "vm_result ws (EVM_Run P WorldState_StateDB
        (NewEVM (tx_Data tx) [] ws (tx_To tx) a (Some (uint (tx_Value tx))) (tx_GasLimit tx))) = Some (ws', r)"
      by (auto simp: execute_code_def with_sender_def split: if_splits outcome.splits)
    with \<open>ws' \<noteq> ws\<close> obtain res evm where "EVM_Run P WorldState_StateDB
        (NewEVM (tx_Data tx) [] ws (tx_To tx) a (Some (uint (tx_Value tx))) (tx_GasLimit tx)) = Some res"
      "exec_evm res = Some evm" "ws' = evm_state evm"
      by (auto simp: vm_result_def split: option.splits exec.splits)
    with False show False by (force simp: NewEVM_def)
  qed
  then show ?thesis by (simp add: storage_only_refl)
qed

lemma execute_code_balance:
  assumes "execute_code P tx ws = Some (ws', r)"
  shows "balance_of ws' = balance_of ws" and "GetNonce ws' = GetNonce ws"
  using storage_only_balance [OF execute_code_storage [OF assms]] by (simp_all add: balance_of_def fun_eq_iff)

lemma execute_value_cases:
  assumes "execute_value P tx ws = Some (ws', r)"
  shows "(tx_Value tx = 0 \<and> ws' = ws \<and> r = Ok ()) \<or> (ws' = ws \<and> r \<noteq> Ok ()) \<or>
    (\<exists>a. PublicKey_Address P (tx_From tx) = Ok a \<and> r = Ok () \<and>
       Transfer a (tx_To tx) (tx_Value tx) ws = (ws', Ok ()))"
proof (cases "tx_Value tx > 0")
  case True
  show ?thesis
  proof (cases "PublicKey_Address P (tx_From tx)")
    case (Ok a)
    obtain w q where t: "Transfer a (tx_To tx) (tx_Value tx) ws = (w, q)" by fastforce
    with assms True Ok have w: "ws' = w" and "r = Ok () \<longleftrightarrow> q = Ok ()"
      by (auto simp: execute_value_def with_sender_def split: outcome.splits)
    with t Ok Transfer_error_unchanged [OF t] show ?thesis by auto
  qed (use assms True in \<open>auto simp: execute_value_def with_sender_def\<close>)
qed (use assms in \<open>auto simp: execute_value_def word_gt_0\<close>)

lemma execute_nonce_cases:
  assumes "execute_nonce P tx ws = Some (ws', r)"
  shows "(ws' = ws \<and> (tx_Signature tx = None \<or> r \<noteq> Ok ())) \<or>
    (\<exists>a. PublicKey_Address P (tx_From tx) = Ok a \<and> tx_Signature tx \<noteq> None \<and> r = Ok () \<and> ws' = IncrementNonce a ws)"
  using assms by (auto simp: execute_nonce_def with_sender_def split: if_splits outcome.splits)

lemma balance_of_IncrementNonce [simp]: "balance_of (IncrementNonce a ws) = balance_of ws"
  by (rule ext) (simp add: balance_of_def)

lemma execute_value_supply:
  assumes "execute_value P tx ws = Some (ws', r)" and "total_supply (balance_of ws) < 2 ^ 64"
  shows "total_supply (balance_of ws') = total_supply (balance_of ws)"
  using execute_value_cases [OF assms(1)] ws_ledger.transfer_supply assms(2) by auto

lemma execute_nonce_supply:
  assumes "execute_nonce P tx ws = Some (ws', r)"
  shows "balance_of ws' = balance_of ws"
  using execute_nonce_cases [OF assms] by auto

text \<open>Execution moves currency but neither makes nor loses any, whether or not it succeeds.\<close>

lemma executeTransaction_supply:
  assumes "executeTransaction P tx ws = Some (ws', r)" and "total_supply (balance_of ws) < 2 ^ 64"
  shows "total_supply (balance_of ws') = total_supply (balance_of ws)"
  using assms(1) unfolding executeTransaction_def
proof (cases rule: then_execE)
  case stop
  then show ?thesis using execute_code_balance(1) by metis
next
  case (go ws1)
  then have 1: "balance_of ws1 = balance_of ws" by (intro execute_code_balance(1))
  from go(2) show ?thesis
  proof (cases rule: then_execE)
    case stop
    then show ?thesis using execute_value_supply 1 assms(2) by metis
  next
    case (go ws2)
    then show ?thesis using execute_value_supply [of P tx ws1 ws2] execute_nonce_supply 1 assms(2) by metis
  qed
qed

lemma executeTransactions_supply:
  assumes "executeTransactions P txs ws = Some (ws', r)" and "total_supply (balance_of ws) < 2 ^ 64"
  shows "total_supply (balance_of ws') = total_supply (balance_of ws)"
  using assms
proof (induction txs arbitrary: ws)
  case (Cons tx txs)
  from Cons.prems(1) show ?case unfolding executeTransactions.simps
  proof (cases rule: then_execE)
    case stop
    then show ?thesis using Cons.prems(2) by (intro executeTransaction_supply)
  next
    case (go ws1)
    then show ?thesis using Cons.IH [of ws1] executeTransaction_supply [OF go(1) Cons.prems(2)] Cons.prems(2) by simp
  qed
qed simp

lemma executeTransaction_Ok:
  assumes "executeTransaction P tx ws = Some (ws', Ok ())" and "tx_Signature tx \<noteq> None"
    and "total_supply (balance_of ws) < 2 ^ 64"
  obtains a where "PublicKey_Address P (tx_From tx) = Ok a"
    and "unat (tx_Value tx) \<le> balance_of ws a"
    and "balance_of ws' = ledger_transfer a (tx_To tx) (unat (tx_Value tx)) (balance_of ws)"
    and "GetNonce ws' = (GetNonce ws)(a := GetNonce ws a + 1)"
proof -
  from assms(1) obtain ws1 ws2 where code: "execute_code P tx ws = Some (ws1, Ok ())"
    and val: "execute_value P tx ws1 = Some (ws2, Ok ())" and "execute_nonce P tx ws2 = Some (ws', Ok ())"
    by (auto simp: executeTransaction_def then_exec_eq_Ok)
  then obtain a where a: "PublicKey_Address P (tx_From tx) = Ok a" and ws': "ws' = IncrementNonce a ws2"
    using execute_nonce_cases [of P tx ws2 ws' "Ok ()"] assms(2) by auto
  note 1 = execute_code_balance [OF code]
  consider "tx_Value tx = 0" "ws2 = ws1" | "Transfer a (tx_To tx) (tx_Value tx) ws1 = (ws2, Ok ())"
    using execute_value_cases [OF val] a by auto
  then have "unat (tx_Value tx) \<le> balance_of ws a \<and> GetNonce ws2 = GetNonce ws \<and>
      balance_of ws2 = ledger_transfer a (tx_To tx) (unat (tx_Value tx)) (balance_of ws)"
  proof cases
    case 1
    then show ?thesis using \<open>balance_of ws1 = balance_of ws\<close> \<open>GetNonce ws1 = GetNonce ws\<close>
      by (simp add: ledger_transfer_def Let_def)
  next
    case 2
    have "GetNonce ws2 = GetNonce ws1" using 2 by (intro ext) (rule Transfer_nonce)
    with Transfer_refines [OF 2] 1 assms(3) show ?thesis by simp
  qed
  moreover from this have "GetNonce ws' = (GetNonce ws)(a := GetNonce ws a + 1)"
    by (intro ext) (simp add: ws' IncrementNonce_nonce)
  ultimately show thesis using a ws' by (intro that) simp_all
qed

end
