(* ===== verification/Block.thy ===== *)
theory Block
  imports Transaction
begin

text \<open>
  Headers and blocks: src/core/block.go and \<open>BlockHasher\<close> of src/core/hasher.go. The header of a
  block is a pointer, nil in a block that was decoded from a message without one, so it is an
  option and every access to it can panic. Where a block is rejected, the memoised hash that
  the error message fills is not tracked: the block is dropped. The clock is an argument.
\<close>

section \<open>Definitions\<close>

record Header =
  hd_Version :: u32
  hd_DataHash :: hash
  hd_PrevBlockHash :: hash
  hd_StateRoot :: hash
  hd_Height :: u32
  hd_Timestamp :: i64
  hd_Nonce :: u64
  hd_Difficulty :: u64
  hd_Coinbase :: address

record Block =
  b_Header :: "Header option"
  b_Transactions :: "Transaction list"
  b_Evidence :: "Header list"
  b_Validator :: PublicKey
  b_Signature :: "Signature option"
  b_hash :: hash

record block_wire =
  bw_Header :: "Header option"
  bw_Transactions :: "tx_wire list"
  bw_Evidence :: "Header list"
  bw_Validator :: "byte list"
  bw_Signature :: "Signature option"

record block_prims = tx_prims +
  gob_Header :: "Header \<Rightarrow> byte list"
  gob_Block :: "block_wire \<Rightarrow> byte list res"
  ungob_Block :: "byte list \<Rightarrow> block_wire res"

definition Header_Bytes :: "'x block_prims_scheme \<Rightarrow> Header \<Rightarrow> byte list" where
  "Header_Bytes P h = gob_Header P h"

definition BlockHasher_Hash :: "'x block_prims_scheme \<Rightarrow> Header \<Rightarrow> hash" where
  "BlockHasher_Hash P h = sha256 P (Header_Bytes P h)"

definition Header_Hash :: "'x block_prims_scheme \<Rightarrow> Header \<Rightarrow> hash" where
  "Header_Hash P h = BlockHasher_Hash P h"

definition NewBlock :: "Header \<Rightarrow> Transaction list \<Rightarrow> Block" where
  "NewBlock h txx =
     \<lparr>b_Header = Some h, b_Transactions = txx, b_Evidence = [], b_Validator = \<lparr>Key = None\<rparr>,
      b_Signature = None, b_hash = zero_hash\<rparr>"

definition CalculateDataHash ::
  "'x block_prims_scheme \<Rightarrow> Transaction list \<Rightarrow> Header list \<Rightarrow> hash res" where
  "CalculateDataHash P txx evidence =
     bind_outcome (mapM_outcome (Transaction_Encode P) txx)
       (\<lambda>encs. Ok (sha256 P (concat encs @ concat (map (Header_Bytes P) evidence))))"

definition NewBlockFromPrevHeader ::
  "'x block_prims_scheme \<Rightarrow> i64 \<Rightarrow> Header \<Rightarrow> Transaction list \<Rightarrow> Block res" where
  "NewBlockFromPrevHeader P now prevHeader txx =
     bind_outcome (CalculateDataHash P txx [])
       (\<lambda>dataHash. Ok (NewBlock
          \<lparr>hd_Version = 1, hd_DataHash = dataHash,
           hd_PrevBlockHash = BlockHasher_Hash P prevHeader, hd_StateRoot = zero_hash,
           hd_Height = hd_Height prevHeader + 1, hd_Timestamp = now, hd_Nonce = 0,
           hd_Difficulty = 0, hd_Coinbase = zero_address\<rparr> txx))"

definition AddTransaction :: "Block \<Rightarrow> Transaction \<Rightarrow> Block" where
  "AddTransaction b tx = b\<lparr>b_Transactions := b_Transactions b @ [tx]\<rparr>"

definition Block_Sign ::
  "'x block_prims_scheme \<Rightarrow> nat \<Rightarrow> PrivateKey \<Rightarrow> Block \<Rightarrow> Block res" where
  "Block_Sign P rnd privKey b =
     (case b_Header b of
        None \<Rightarrow> Panic NilDereference
      | Some h \<Rightarrow>
          bind_outcome (PrivateKey_Sign P rnd privKey (Header_Bytes P h))
            (\<lambda>sig. Ok (b\<lparr>b_Validator := PrivateKey_PublicKey privKey, b_Signature := Some sig\<rparr>)))"

definition Block_Hash :: "'x block_prims_scheme \<Rightarrow> Block \<Rightarrow> (hash \<times> Block) res" where
  "Block_Hash P b =
     (if Hash_IsZero (b_hash b)
      then (case b_Header b of
              None \<Rightarrow> Panic NilDereference
            | Some h \<Rightarrow> (let b' = b\<lparr>b_hash := BlockHasher_Hash P h\<rparr> in Ok (b_hash b', b')))
      else Ok (b_hash b, b))"

definition Block_Verify :: "'x block_prims_scheme \<Rightarrow> Block \<Rightarrow> unit res" where
  "Block_Verify P b =
     (case b_Signature b of
        None \<Rightarrow> Err ErrBlockNoSignature
      | Some sig \<Rightarrow>
          (case b_Header b of
             None \<Rightarrow> Panic NilDereference
           | Some h \<Rightarrow>
               bind_outcome (Signature_Verify P sig (b_Validator b) (Header_Bytes P h))
                 (\<lambda>ok. if \<not> ok then Err ErrBlockBadSignature
                   else bind_outcome (mapM_outcome (Transaction_Verify P) (b_Transactions b))
                     (\<lambda>_. bind_outcome (CalculateDataHash P (b_Transactions b) (b_Evidence b))
                       (\<lambda>dataHash. if dataHash \<noteq> hd_DataHash h
                          then bind_outcome (Block_Hash P b) (\<lambda>(bh, _). Err (ErrDataHash bh))
                          else Ok ())))))"

definition Block_wire :: "'x prims_scheme \<Rightarrow> Block \<Rightarrow> block_wire res" where
  "Block_wire P b =
     bind_outcome (mapM_outcome (Transaction_wire P) (b_Transactions b))
       (\<lambda>ws. bind_outcome (PublicKey_GobEncode P (b_Validator b))
          (\<lambda>vb. Ok \<lparr>bw_Header = b_Header b, bw_Transactions = ws, bw_Evidence = b_Evidence b,
              bw_Validator = vb, bw_Signature = b_Signature b\<rparr>))"

definition Block_unwire :: "'x prims_scheme \<Rightarrow> block_wire \<Rightarrow> Block res" where
  "Block_unwire P w =
     bind_outcome (mapM_outcome (Transaction_unwire P) (bw_Transactions w))
       (\<lambda>txx. bind_outcome (PublicKey_GobDecode P (bw_Validator w))
          (\<lambda>v. Ok \<lparr>b_Header = bw_Header w, b_Transactions = txx, b_Evidence = bw_Evidence w,
             b_Validator = v, b_Signature = bw_Signature w, b_hash = zero_hash\<rparr>))"

definition Block_Encode :: "'x block_prims_scheme \<Rightarrow> Block \<Rightarrow> byte list res" where
  "Block_Encode P b = bind_outcome (Block_wire P b) (gob_Block P)"

definition Block_Decode :: "'x block_prims_scheme \<Rightarrow> byte list \<Rightarrow> Block res" where
  "Block_Decode P bs = bind_outcome (ungob_Block P bs) (Block_unwire P)"

definition gob_block_roundtrip :: "'x block_prims_scheme \<Rightarrow> bool" where
  "gob_block_roundtrip P \<longleftrightarrow>
     (\<forall>w bs. gob_Block P w = Ok bs \<longrightarrow> ungob_Block P bs = Ok w)"

definition block_exported :: "Block \<Rightarrow> Block" where
  "block_exported b = b\<lparr>b_Transactions := map tx_exported (b_Transactions b), b_hash := zero_hash\<rparr>"

definition block_memo_ok :: "'x block_prims_scheme \<Rightarrow> Block \<Rightarrow> bool" where
  "block_memo_ok P b \<longleftrightarrow>
     b_hash b = zero_hash \<or> (\<exists>h. b_Header b = Some h \<and> b_hash b = BlockHasher_Hash P h)"

section \<open>Lemmas\<close>

lemma Block_Hash_value:
  "block_memo_ok P b \<Longrightarrow> b_Header b = Some h \<Longrightarrow>
     Block_Hash P b = Ok (BlockHasher_Hash P h, b\<lparr>b_hash := BlockHasher_Hash P h\<rparr>)"
  by (cases b) (auto simp: Block_Hash_def block_memo_ok_def Let_def Hash_IsZero_iff)

lemma block_exported_sel [simp]:
  "b_Header (block_exported b) = b_Header b"
  "b_Transactions (block_exported b) = map tx_exported (b_Transactions b)"
  "b_Evidence (block_exported b) = b_Evidence b"
  "b_Validator (block_exported b) = b_Validator b"
  "b_Signature (block_exported b) = b_Signature b"
  by (simp_all add: block_exported_def)

lemma NewBlock_memo_ok [wf_intro]: "block_memo_ok P (NewBlock h txx)"
  by (simp add: NewBlock_def block_memo_ok_def)

lemma Block_unwire_memo_ok [wf_intro]: "Block_unwire P w = Ok b \<Longrightarrow> block_memo_ok P b"
  by (auto simp: Block_unwire_def block_memo_ok_def)

lemma Block_Decode_memo_ok [wf_intro]: "Block_Decode P bs = Ok b \<Longrightarrow> block_memo_ok P b"
  by (auto simp: Block_Decode_def intro: Block_unwire_memo_ok)

lemma Block_Sign_memo_ok [wf_intro]:
  "Block_Sign P rnd k b = Ok b' \<Longrightarrow> block_memo_ok P b \<Longrightarrow> block_memo_ok P b'"
  by (auto simp: Block_Sign_def block_memo_ok_def split: option.splits)

lemma Block_Verify_OkD:
  assumes "Block_Verify P b = Ok ()"
  obtains h sig where "b_Header b = Some h" "b_Signature b = Some sig"
    "Signature_Verify P sig (b_Validator b) (Header_Bytes P h) = Ok True"
    "CalculateDataHash P (b_Transactions b) (b_Evidence b) = Ok (hd_DataHash h)"
    "mapM_outcome (Transaction_Verify P) (b_Transactions b)
       = Ok (replicate (length (b_Transactions b)) ())"
proof -
  from assms obtain h sig us dh where "b_Header b = Some h" "b_Signature b = Some sig"
    and "Signature_Verify P sig (b_Validator b) (Header_Bytes P h) = Ok True"
    and us: "mapM_outcome (Transaction_Verify P) (b_Transactions b) = Ok us"
    and "CalculateDataHash P (b_Transactions b) (b_Evidence b) = Ok dh" "dh = hd_DataHash h"
    by (auto simp: Block_Verify_def split: option.splits if_splits prod.splits)
  moreover from us have "us = replicate (length (b_Transactions b)) ()"
    by (intro replicate_eqI) (simp_all add: length_mapM_outcome)
  ultimately show thesis using that by simp
qed

lemma Block_Sign_then_Verify:
  assumes "sign_verifies P" and "Block_Sign P rnd k b = Ok b'" and "b_Header b = Some h"
    and "mapM_outcome (Transaction_Verify P) (b_Transactions b) = Ok us"
    and "CalculateDataHash P (b_Transactions b) (b_Evidence b) = Ok (hd_DataHash h)"
  shows "Block_Verify P b' = Ok ()"
proof -
  from assms(2,3) obtain sig where
    b': "b' = b\<lparr>b_Validator := PrivateKey_PublicKey k, b_Signature := Some sig\<rparr>"
    and s: "PrivateKey_Sign P rnd k (Header_Bytes P h) = Ok sig"
    by (auto simp: Block_Sign_def)
  have "Signature_Verify P sig (PrivateKey_PublicKey k) (Header_Bytes P h) = Ok True"
    using assms(1) s by (rule PrivateKey_Sign_verifies)
  with assms(3-5) b' show ?thesis by (simp add: Block_Verify_def)
qed

lemma Block_unwire_wire:
  assumes "marshal_roundtrip P" and "Block_wire P b = Ok w"
  shows "Block_unwire P w = Ok (block_exported b)"
proof -
  from assms(2) obtain ws vb where
    ws: "mapM_outcome (Transaction_wire P) (b_Transactions b) = Ok ws"
    and vb: "PublicKey_GobEncode P (b_Validator b) = Ok vb"
    and w: "w = \<lparr>bw_Header = b_Header b, bw_Transactions = ws, bw_Evidence = b_Evidence b,
              bw_Validator = vb, bw_Signature = b_Signature b\<rparr>"
    by (auto simp: Block_wire_def)
  have "mapM_outcome (Transaction_unwire P) ws = Ok (map tx_exported (b_Transactions b))"
    by (rule mapM_outcome_inverse [OF ws]) (rule Transaction_unwire_wire [OF assms(1)])
  moreover have "PublicKey_GobDecode P vb = Ok (b_Validator b)"
    using assms(1) vb by (rule PublicKey_gob_roundtrip)
  ultimately show ?thesis by (cases b) (simp add: w Block_unwire_def block_exported_def)
qed

lemma Block_gob_roundtrip:
  assumes "marshal_roundtrip P" and "gob_block_roundtrip P" and "Block_Encode P b = Ok bs"
  shows "Block_Decode P bs = Ok (block_exported b)"
proof -
  from assms(3) obtain w where "Block_wire P b = Ok w" and "gob_Block P w = Ok bs"
    by (auto simp: Block_Encode_def)
  then show ?thesis
    using assms(2) Block_unwire_wire [OF assms(1)] by (simp add: Block_Decode_def gob_block_roundtrip_def)
qed

end
