(* ===== verification/Storage.thy ===== *)
theory Storage
  imports Block
begin

text \<open>
  Block storage, from src/core/storage.go: the interface \<open>Storage\<close> as a method table and, with its
  laws, as a locale, and the in-memory implementation \<open>MemoryStore\<close>. The mutex makes every method
  atomic. \<open>Put\<close> fills the memoised hashes of the block and its transactions; the stored values
  have them filled.
\<close>

section \<open>Definitions\<close>

record 's Storage =
  st_Put :: "Block \<Rightarrow> 's \<Rightarrow> 's \<times> unit res"
  st_Get :: "'s \<Rightarrow> u32 \<Rightarrow> Block res"
  st_GetByHash :: "'s \<Rightarrow> hash \<Rightarrow> Block res"
  st_GetTxByHash :: "'s \<Rightarrow> hash \<Rightarrow> Transaction res"

record MemoryStore =
  ms_blocks :: "u32 \<rightharpoonup> Block"
  ms_blockByHash :: "hash \<rightharpoonup> Block"
  ms_txByHash :: "hash \<rightharpoonup> Transaction"

definition NewMemoryStorage :: MemoryStore where
  "NewMemoryStorage = \<lparr>ms_blocks = Map.empty, ms_blockByHash = Map.empty, ms_txByHash = Map.empty\<rparr>"

text \<open>A transaction with its hash computed, as it is after a call of \<open>tx.Hash\<close>.\<close>

definition tx_hashed :: "'x prims_scheme \<Rightarrow> Transaction \<Rightarrow> Transaction" where
  "tx_hashed P tx = snd (Transaction_Hash (TxHasher_Hash P) tx)"

definition index_tx :: "'x prims_scheme \<Rightarrow> Transaction \<Rightarrow> (hash \<rightharpoonup> Transaction) \<Rightarrow> (hash \<rightharpoonup> Transaction)" where
  "index_tx P tx m = m(fst (Transaction_Hash (TxHasher_Hash P) tx) \<mapsto> tx_hashed P tx)"

definition MemoryStore_Put ::
  "'x block_prims_scheme \<Rightarrow> Block \<Rightarrow> MemoryStore \<Rightarrow> MemoryStore \<times> unit res" where
  "MemoryStore_Put P b s =
     (case Block_Hash P b of
        Err e \<Rightarrow> (s, Err e)
      | Panic p \<Rightarrow> (s, Panic p)
      | Ok (h, b1) \<Rightarrow>
          (case b_Header b1 of
             None \<Rightarrow> (s, Panic NilDereference)
           | Some hdr \<Rightarrow>
               let b2 = b1\<lparr>b_Transactions := map (tx_hashed P) (b_Transactions b1)\<rparr>;
                   s1 = s\<lparr>ms_blocks := (ms_blocks s)(hd_Height hdr \<mapsto> b2),
                          ms_blockByHash := (ms_blockByHash s)(h \<mapsto> b2)\<rparr>
               in (s1\<lparr>ms_txByHash := fold (index_tx P) (b_Transactions b1) (ms_txByHash s1)\<rparr>, Ok ())))"

definition MemoryStore_Get :: "MemoryStore \<Rightarrow> u32 \<Rightarrow> Block res" where
  "MemoryStore_Get s height =
     (case ms_blocks s height of None \<Rightarrow> Err (ErrNoBlock height) | Some b \<Rightarrow> Ok b)"

definition MemoryStore_GetByHash :: "MemoryStore \<Rightarrow> hash \<Rightarrow> Block res" where
  "MemoryStore_GetByHash s h =
     (case ms_blockByHash s h of None \<Rightarrow> Err (ErrNoBlockHash h) | Some b \<Rightarrow> Ok b)"

definition MemoryStore_GetTxByHash :: "MemoryStore \<Rightarrow> hash \<Rightarrow> Transaction res" where
  "MemoryStore_GetTxByHash s h =
     (case ms_txByHash s h of None \<Rightarrow> Err (ErrNoTx h) | Some tx \<Rightarrow> Ok tx)"

definition MemoryStore_Storage :: "'x block_prims_scheme \<Rightarrow> MemoryStore Storage" where
  "MemoryStore_Storage P =
     \<lparr>st_Put = MemoryStore_Put P, st_Get = MemoryStore_Get,
      st_GetByHash = MemoryStore_GetByHash, st_GetTxByHash = MemoryStore_GetTxByHash\<rparr>"

text \<open>A block whose memoised hashes are unset or right: every block that \<open>gob\<close> or the node made.\<close>

definition block_memos_ok :: "'x block_prims_scheme \<Rightarrow> Block \<Rightarrow> bool" where
  "block_memos_ok P b \<longleftrightarrow> block_memo_ok P b \<and> list_all (tx_memo_ok P) (b_Transactions b)"

section \<open>The contract of a block store\<close>

text \<open>
  What a successful \<open>Put\<close> promises to later lookups. Blocks are compared up to their memoised
  hashes.
\<close>

locale block_store =
  fixes P :: "'x block_prims_scheme" and ops :: "'s Storage"
  assumes put_header: "st_Put ops b s = (s', Ok ()) \<Longrightarrow> \<exists>h. b_Header b = Some h"
    and get_put_same: "st_Put ops b s = (s', Ok ()) \<Longrightarrow> b_Header b = Some h \<Longrightarrow>
      \<exists>b'. st_Get ops s' (hd_Height h) = Ok b' \<and> block_exported b' = block_exported b"
    and get_put_other: "st_Put ops b s = (s', Ok ()) \<Longrightarrow> b_Header b = Some h \<Longrightarrow> n \<noteq> hd_Height h \<Longrightarrow>
      st_Get ops s' n = st_Get ops s n"
    and by_hash: "st_Put ops b s = (s', Ok ()) \<Longrightarrow> b_Header b = Some h \<Longrightarrow> block_memos_ok P b \<Longrightarrow>
      \<exists>b'. st_GetByHash ops s' (BlockHasher_Hash P h) = Ok b' \<and> block_exported b' = block_exported b"
    and tx_by_hash: "st_Put ops b s = (s', Ok ()) \<Longrightarrow> block_memos_ok P b \<Longrightarrow> tx \<in> set (b_Transactions b) \<Longrightarrow>
      \<exists>tx'\<in>set (b_Transactions b). TxHasher_Hash P tx' = TxHasher_Hash P tx \<and>
        (\<exists>tx''. st_GetTxByHash ops s' (TxHasher_Hash P tx) = Ok tx'' \<and> tx_exported tx'' = tx_exported tx')"
begin

text \<open>The blocks of a chain, as far as the store can be read by height.\<close>

definition stored_header :: "'s \<Rightarrow> u32 \<Rightarrow> Header option" where
  "stored_header s n = (case st_Get ops s n of Ok b \<Rightarrow> b_Header b | _ \<Rightarrow> None)"

lemma stored_header_put:
  assumes "st_Put ops b s = (s', Ok ())" and "b_Header b = Some h"
  shows "stored_header s' n = (if n = hd_Height h then Some h else stored_header s n)"
proof (cases "n = hd_Height h")
  case True
  obtain b' where "st_Get ops s' (hd_Height h) = Ok b'" and "block_exported b' = block_exported b"
    using get_put_same [OF assms] by blast
  moreover from this have "b_Header b' = b_Header b" by (metis block_exported_sel(1))
  ultimately show ?thesis using True assms(2) by (simp add: stored_header_def)
next
  case False
  with get_put_other [OF assms False] show ?thesis by (simp add: stored_header_def)
qed

end

section \<open>The in-memory store implements the contract\<close>

lemma fold_index_tx:
  "fold (index_tx P) txs m k =
     (case find (\<lambda>tx. fst (Transaction_Hash (TxHasher_Hash P) tx) = k) (rev txs) of
        Some tx \<Rightarrow> Some (tx_hashed P tx) | None \<Rightarrow> m k)"
  by (induction txs rule: rev_induct) (auto simp: index_tx_def)

lemma MemoryStore_PutE:
  assumes "MemoryStore_Put P b s = (s', Ok ())"
  obtains h k b1 where "b_Header b = Some h" "block_exported b1 = block_exported b"
    "block_memo_ok P b \<Longrightarrow> k = BlockHasher_Hash P h"
    "s' = \<lparr>ms_blocks = (ms_blocks s)(hd_Height h \<mapsto> b1),
           ms_blockByHash = (ms_blockByHash s)(k \<mapsto> b1),
           ms_txByHash = fold (index_tx P) (b_Transactions b) (ms_txByHash s)\<rparr>"
proof -
  from assms obtain k b0 h where b0: "Block_Hash P b = Ok (k, b0)" and h: "b_Header b0 = Some h"
    and s': "s' = \<lparr>ms_blocks = (ms_blocks s)(hd_Height h \<mapsto> b0\<lparr>b_Transactions := map (tx_hashed P) (b_Transactions b0)\<rparr>),
           ms_blockByHash = (ms_blockByHash s)(k \<mapsto> b0\<lparr>b_Transactions := map (tx_hashed P) (b_Transactions b0)\<rparr>),
           ms_txByHash = fold (index_tx P) (b_Transactions b0) (ms_txByHash s)\<rparr>"
    by (cases s) (auto simp: MemoryStore_Put_def Let_def split: outcome.splits option.splits)
  from b0 have eq: "b_Header b0 = b_Header b" "b_Transactions b0 = b_Transactions b"
    "block_exported b0 = block_exported b"
    by (auto simp: Block_Hash_def Let_def block_exported_def split: if_splits option.splits)
  have "block_exported (b0\<lparr>b_Transactions := map (tx_hashed P) (b_Transactions b0)\<rparr>) = block_exported b0"
    by (cases b0) (simp add: block_exported_def tx_hashed_def)
  moreover have "block_memo_ok P b \<Longrightarrow> k = BlockHasher_Hash P h"
    using Block_Hash_value [of P b h] b0 h eq by simp
  ultimately show thesis using h eq(1,3) s' [unfolded eq(2)] unfolding eq(2) by (intro that) auto
qed

lemma block_memos_hash:
  "block_memos_ok P b \<Longrightarrow> t \<in> set (b_Transactions b) \<Longrightarrow> fst (Transaction_Hash (TxHasher_Hash P) t) = TxHasher_Hash P t"
  by (simp add: block_memos_ok_def list_all_iff Transaction_Hash_value)

lemma MemoryStore_Put_finds_tx:
  assumes "MemoryStore_Put P b s = (s', Ok ())" and "block_memos_ok P b" and "tx \<in> set (b_Transactions b)"
  shows "\<exists>tx'\<in>set (b_Transactions b). TxHasher_Hash P tx' = TxHasher_Hash P tx \<and>
    (\<exists>tx''. MemoryStore_GetTxByHash s' (TxHasher_Hash P tx) = Ok tx'' \<and> tx_exported tx'' = tx_exported tx')"
proof -
  let ?f = "\<lambda>t. fst (Transaction_Hash (TxHasher_Hash P) t) = TxHasher_Hash P tx"
  note val = block_memos_hash [OF assms(2)]
  obtain t where t: "find ?f (rev (b_Transactions b)) = Some t"
    using assms(3) val by (fastforce simp: find_None_iff)
  then have mem: "t \<in> set (b_Transactions b)" and "?f t" by (auto dest: find_SomeD)
  have "ms_txByHash s' = fold (index_tx P) (b_Transactions b) (ms_txByHash s)"
    using assms(1) by (rule MemoryStore_PutE) simp
  then have "MemoryStore_GetTxByHash s' (TxHasher_Hash P tx) = Ok (tx_hashed P t)"
    by (simp add: MemoryStore_GetTxByHash_def fold_index_tx t)
  then show ?thesis using mem \<open>?f t\<close> val [OF mem] by (intro bexI [of _ t]) (auto simp: tx_hashed_def)
qed

lemma MemoryStore_Storage_sel [simp]:
  "st_Put (MemoryStore_Storage P) = MemoryStore_Put P" "st_Get (MemoryStore_Storage P) = MemoryStore_Get"
  "st_GetByHash (MemoryStore_Storage P) = MemoryStore_GetByHash"
  "st_GetTxByHash (MemoryStore_Storage P) = MemoryStore_GetTxByHash"
  by (simp_all add: MemoryStore_Storage_def)

interpretation ms: block_store P "MemoryStore_Storage P" for P
proof unfold_locales
  fix b s s' h n tx
  assume "st_Put (MemoryStore_Storage P) b s = (s', Ok ())"
  then have put: "MemoryStore_Put P b s = (s', Ok ())" by simp
  show "\<exists>h. b_Header b = Some h" using put by (rule MemoryStore_PutE) blast
  show "\<exists>b'. st_Get (MemoryStore_Storage P) s' (hd_Height h) = Ok b' \<and> block_exported b' = block_exported b"
    if "b_Header b = Some h"
    using put by (rule MemoryStore_PutE) (use that in \<open>simp add: MemoryStore_Get_def\<close>)
  show "st_Get (MemoryStore_Storage P) s' n = st_Get (MemoryStore_Storage P) s n"
    if "b_Header b = Some h" and "n \<noteq> hd_Height h"
    using put by (rule MemoryStore_PutE) (use that in \<open>simp add: MemoryStore_Get_def\<close>)
  show "\<exists>b'. st_GetByHash (MemoryStore_Storage P) s' (BlockHasher_Hash P h) = Ok b'
          \<and> block_exported b' = block_exported b"
    if "b_Header b = Some h" and "block_memos_ok P b"
    using put by (rule MemoryStore_PutE) (use that in \<open>simp add: MemoryStore_GetByHash_def block_memos_ok_def\<close>)
  show "\<exists>tx'\<in>set (b_Transactions b). TxHasher_Hash P tx' = TxHasher_Hash P tx \<and>
      (\<exists>tx''. st_GetTxByHash (MemoryStore_Storage P) s' (TxHasher_Hash P tx) = Ok tx'' \<and> tx_exported tx'' = tx_exported tx')"
    if "block_memos_ok P b" and "tx \<in> set (b_Transactions b)"
    using MemoryStore_Put_finds_tx [OF put that] by simp
qed

section \<open>Failed writes\<close>

text \<open>
  A store in which a \<open>Put\<close> that fails may have been written in part, but never returns anything
  under a height that was not put there.
\<close>

locale durable_store = block_store +
  assumes put_failed: "st_Put ops b s = (s', Err e) \<Longrightarrow> b_Header b = Some h \<Longrightarrow> st_Get ops s' n = Ok b' \<Longrightarrow>
    st_Get ops s n = Ok b' \<or> n = hd_Height h \<and> b_Header b' = Some h"
begin

lemma get_after_put:
  assumes "st_Put ops b s = (s', r)" and "\<not> is_Panic r" and "b_Header b = Some h" and "st_Get ops s' n = Ok b'"
  shows "st_Get ops s n = Ok b' \<or> n = hd_Height h \<and> b_Header b' = Some h"
proof (cases r)
  case (Ok u)
  then have put: "st_Put ops b s = (s', Ok ())" using assms(1) by simp
  show ?thesis
  proof (cases "n = hd_Height h")
    case True
    obtain b'' where "st_Get ops s' (hd_Height h) = Ok b''" and "block_exported b'' = block_exported b"
      using get_put_same [OF put assms(3)] by blast
    with True assms(3,4) show ?thesis by (metis block_exported_sel(1) outcome.inject(1))
  qed (use get_put_other [OF put assms(3)] assms(4) in simp)
next
  case (Err e)
  then show ?thesis using put_failed assms(1,3,4) by simp
qed (use assms(2) in simp)

end

lemma Block_Hash_header: "b_Header b = Some h \<Longrightarrow> \<exists>x. Block_Hash P b = Ok x"
  by (simp add: Block_Hash_def Let_def)

lemma Block_Hash_no_err: "Block_Hash P b \<noteq> Err e"
  by (simp add: Block_Hash_def Let_def split: option.splits)

lemma MemoryStore_Put_no_err: "snd (MemoryStore_Put P b s) \<noteq> Err e"
  using Block_Hash_no_err [of P b] by (auto simp: MemoryStore_Put_def Let_def split: outcome.splits option.splits)

interpretation ms: durable_store P "MemoryStore_Storage P" for P
proof unfold_locales
  fix b s s' e h n b'
  assume "st_Put (MemoryStore_Storage P) b s = (s', Err e)"
  then show "st_Get (MemoryStore_Storage P) s n = Ok b' \<or> n = hd_Height h \<and> b_Header b' = Some h"
    using MemoryStore_Put_no_err [of P b s e] by simp
qed

lemma MemoryStore_Put_total:
  assumes "block_memo_ok P b" and "b_Header b = Some h"
  shows "snd (MemoryStore_Put P b s) = Ok ()"
  using assms by (simp add: MemoryStore_Put_def Block_Hash_value Let_def)

end
