(* ===== verification/Consensus.thy ===== *)
theory Consensus
  imports Block
begin

text \<open>
  The consensus interface of src/core/consensus.go as a method table over the engine's state
  \<open>'c\<close>. A method that writes through its header or block pointer returns the new value. The
  two methods the chain looks for by type assertion, \<open>Slash\<close> and \<open>CalculateBlockWeight\<close>, are
  optional. \<open>Seal\<close> may consult the clock: its first argument tells, for a number of tried
  nonces, whether the mining timeout has then passed. The \<open>BlockchainReader\<close> argument of
  \<open>Prepare\<close> and \<open>Seal\<close> is used by no engine and left out.
\<close>

datatype ConsensusType = PoW | PoS

record 'c ConsensusEngine =
  ce_Type :: "'c \<Rightarrow> ConsensusType"
  ce_VerifyHeader :: "Header \<Rightarrow> 'c \<Rightarrow> 'c \<times> unit res"
  ce_Author :: "'c \<Rightarrow> Header \<Rightarrow> address res"
  ce_Prepare :: "Header \<Rightarrow> 'c \<Rightarrow> Header res"
  ce_Seal :: "(u64 \<Rightarrow> bool) \<Rightarrow> Block \<Rightarrow> 'c \<Rightarrow> Block res"
  ce_Slash :: "(address \<Rightarrow> 'c \<Rightarrow> 'c) option"
  ce_CalculateBlockWeight :: "('c \<Rightarrow> Header \<Rightarrow> int res) option"

text \<open>
  What a block producer relies on: preparing and sealing touch only the fields consensus owns,
  so the chain's own checks on height, parent and data hash are not disturbed.
\<close>

definition consensus_frame :: "Header \<Rightarrow> Header \<Rightarrow> bool" where
  "consensus_frame h h' \<longleftrightarrow>
     h' = h\<lparr>hd_Nonce := hd_Nonce h', hd_Difficulty := hd_Difficulty h', hd_Coinbase := hd_Coinbase h'\<rparr>"

locale consensus_engine =
  fixes ce :: "'c ConsensusEngine" and good :: "'c \<Rightarrow> bool"
  assumes prepare_frame: "ce_Prepare ce h c = Ok h' \<Longrightarrow> consensus_frame h h'"
    and seal_frame: "ce_Seal ce clk b c = Ok b' \<Longrightarrow> b_Header b = Some h \<Longrightarrow>
      \<exists>h'. b' = b\<lparr>b_Header := Some h'\<rparr> \<and> consensus_frame h h'"
    and good_verify: "good c \<Longrightarrow> good (fst (ce_VerifyHeader ce h c))"
    and good_slash: "good c \<Longrightarrow> ce_Slash ce = Some sl \<Longrightarrow> good (sl a c)"
    and author: "ce_Author ce c h = Ok (hd_Coinbase h)"
begin

text \<open>A header that is prepared and then sealed differs from the original in consensus fields only.\<close>

lemma prepare_seal_frame:
  assumes "ce_Prepare ce h c = Ok h1" and "b_Header b = Some h1" and "ce_Seal ce clk b c' = Ok b'"
  shows "\<exists>h2. b_Header b' = Some h2 \<and> b_Transactions b' = b_Transactions b
    \<and> hd_Height h2 = hd_Height h \<and> hd_PrevBlockHash h2 = hd_PrevBlockHash h
    \<and> hd_DataHash h2 = hd_DataHash h \<and> hd_Timestamp h2 = hd_Timestamp h"
proof -
  from seal_frame [OF assms(3,2)] obtain h2
    where "b' = b\<lparr>b_Header := Some h2\<rparr>" and f2: "consensus_frame h1 h2" by blast
  moreover have f1: "consensus_frame h h1" using assms(1) by (rule prepare_frame)
  moreover have "hd_Height y = hd_Height x \<and> hd_PrevBlockHash y = hd_PrevBlockHash x
    \<and> hd_DataHash y = hd_DataHash x \<and> hd_Timestamp y = hd_Timestamp x"
    if "consensus_frame x y" for x y
    using that by (cases x; cases y) (simp add: consensus_frame_def)
  ultimately show ?thesis by simp
qed

text \<open>The invariant survives any interleaving of header checks and slashings.\<close>

lemma good_verify_all: "good c \<Longrightarrow> good (fold (\<lambda>h c. fst (ce_VerifyHeader ce h c)) hs c)"
  by (induction hs arbitrary: c) (simp_all add: good_verify)

lemma good_slash_all: "good c \<Longrightarrow> ce_Slash ce = Some sl \<Longrightarrow> good (fold sl as c)"
  by (induction as arbitrary: c) (simp_all add: good_slash)

end

lemma consensus_frame_refl [simp]: "consensus_frame h h"
  by (simp add: consensus_frame_def)

lemma consensus_frame_nonce [simp]: "consensus_frame h (h\<lparr>hd_Nonce := n\<rparr>)"
  by (simp add: consensus_frame_def)

end
