(* ===== verification/Blockchain.thy ===== *)
theory Blockchain
  imports Execute Storage Consensus
begin

text \<open>
  The chain: src/core/blockchain.go and src/core/validator.go. The lock makes \<open>AddBlock\<close> atomic
  with respect to other calls. The store and the consensus engine are reached through their
  method tables \<open>so\<close> and \<open>ce\<close>; logging is left out. A method that changes the chain returns it
  also when it fails. A block in the store has a header, because \<open>Put\<close> dereferences it;
  \<open>loadHeaders\<close> on one without would leave a nil in \<open>Headers\<close>, which the model reports as the
  panic its first use would be.
\<close>

section \<open>Definitions\<close>

datatype Validator = BlockValidator

record ('s, 'c) Blockchain =
  bc_store :: 's
  bc_Headers :: "Header list"
  bc_consensus :: "'c option"
  bc_validator :: Validator
  bc_WorldState :: WorldState
  bc_totalDifficulty :: "int option"

definition SetValidator :: "Validator \<Rightarrow> ('s, 'c) Blockchain \<Rightarrow> ('s, 'c) Blockchain" where
  "SetValidator v bc = bc\<lparr>bc_validator := v\<rparr>"

definition SetConsensus :: "'c \<Rightarrow> ('s, 'c) Blockchain \<Rightarrow> ('s, 'c) Blockchain" where
  "SetConsensus c bc = bc\<lparr>bc_consensus := Some c\<rparr>"

definition heightLocked :: "('s, 'c) Blockchain \<Rightarrow> u32" where
  "heightLocked bc = word_of_nat (length (bc_Headers bc)) - 1"

definition Height :: "('s, 'c) Blockchain \<Rightarrow> u32" where
  "Height bc = heightLocked bc"

definition hasBlockLocked :: "('s, 'c) Blockchain \<Rightarrow> u32 \<Rightarrow> bool" where
  "hasBlockLocked bc height \<longleftrightarrow> height \<le> heightLocked bc"

definition HasBlock :: "('s, 'c) Blockchain \<Rightarrow> u32 \<Rightarrow> bool" where
  "HasBlock bc height \<longleftrightarrow> height \<le> Height bc"

definition GetHeader :: "('s, 'c) Blockchain \<Rightarrow> u32 \<Rightarrow> Header res" where
  "GetHeader bc height =
     (if height > Height bc then Err (ErrGetHeader height)
      else if unat height < length (bc_Headers bc) then Ok (bc_Headers bc ! unat height)
      else Panic IndexOutOfRange)"

definition getHeaderLocked :: "('s, 'c) Blockchain \<Rightarrow> u32 \<Rightarrow> Header res" where
  "getHeaderLocked bc height =
     (if height \<ge> word_of_nat (length (bc_Headers bc)) then Err (ErrHeaderLocked height)
      else if unat height < length (bc_Headers bc) then Ok (bc_Headers bc ! unat height)
      else Panic IndexOutOfRange)"

definition GetBlock :: "'s Storage \<Rightarrow> ('s, 'c) Blockchain \<Rightarrow> u32 \<Rightarrow> Block res" where
  "GetBlock so bc height = st_Get so (bc_store bc) height"

definition GetBlockByHash :: "'s Storage \<Rightarrow> ('s, 'c) Blockchain \<Rightarrow> hash \<Rightarrow> Block res" where
  "GetBlockByHash so bc h = st_GetByHash so (bc_store bc) h"

definition GetTxByHash :: "'s Storage \<Rightarrow> ('s, 'c) Blockchain \<Rightarrow> hash \<Rightarrow> Transaction res" where
  "GetTxByHash so bc h = st_GetTxByHash so (bc_store bc) h"

definition verify_consensus ::
  "'c ConsensusEngine \<Rightarrow> Header \<Rightarrow> ('s, 'c) Blockchain \<Rightarrow> ('s, 'c) Blockchain \<times> unit res" where
  "verify_consensus ce h bc =
     (case bc_consensus bc of
        None \<Rightarrow> (bc, Ok ())
      | Some c \<Rightarrow> (let (c', r) = ce_VerifyHeader ce h c in (bc\<lparr>bc_consensus := Some c'\<rparr>, r)))"

definition ValidateBlockLocked ::
  "'x block_prims_scheme \<Rightarrow> 'c ConsensusEngine \<Rightarrow> Block \<Rightarrow> ('s, 'c) Blockchain
   \<Rightarrow> ('s, 'c) Blockchain \<times> unit res" where
  "ValidateBlockLocked P ce b bc =
     (case b_Header b of
        None \<Rightarrow> (bc, Panic NilDereference)
      | Some h \<Rightarrow>
          if hasBlockLocked bc (hd_Height h)
          then (bc, bind_outcome (Block_Hash P b) (\<lambda>(bh, _). Err (ErrHasBlock (hd_Height h) bh)))
          else if hd_Height h \<noteq> heightLocked bc + 1
          then (bc, bind_outcome (Block_Hash P b)
                      (\<lambda>(bh, _). Err (ErrTooHigh bh (hd_Height h) (heightLocked bc))))
          else bind_state (bc, getHeaderLocked bc (hd_Height h - 1)) (\<lambda>prevHeader bc.
            if BlockHasher_Hash P prevHeader \<noteq> hd_PrevBlockHash h
            then (bc, Err (ErrPrevHash (hd_PrevBlockHash h)))
            else bind_state (verify_consensus ce h bc) (\<lambda>_ bc. (bc, Block_Verify P b))))"

definition ValidateBlock ::
  "'x block_prims_scheme \<Rightarrow> 'c ConsensusEngine \<Rightarrow> Block \<Rightarrow> ('s, 'c) Blockchain
   \<Rightarrow> ('s, 'c) Blockchain \<times> unit res" where
  "ValidateBlock P ce b bc = ValidateBlockLocked P ce b bc"

definition add_weight ::
  "'c ConsensusEngine \<Rightarrow> Header \<Rightarrow> ('s, 'c) Blockchain \<Rightarrow> ('s, 'c) Blockchain \<times> unit res" where
  "add_weight ce h bc =
     (case bc_consensus bc of
        None \<Rightarrow> (bc, Ok ())
      | Some c \<Rightarrow>
          (case ce_CalculateBlockWeight ce of
             None \<Rightarrow> (bc, Panic TypeAssertion)
           | Some weigh \<Rightarrow>
               bind_state (bc, weigh c h) (\<lambda>weight bc.
                 case bc_totalDifficulty bc of
                   None \<Rightarrow> (bc, Panic NilDereference)
                 | Some td \<Rightarrow> (bc\<lparr>bc_totalDifficulty := Some (td + weight)\<rparr>, Ok ()))))"

definition addBlockWithoutValidationLocked ::
  "'x block_prims_scheme \<Rightarrow> 's Storage \<Rightarrow> 'c ConsensusEngine \<Rightarrow> Block \<Rightarrow> ('s, 'c) Blockchain
   \<Rightarrow> ('s, 'c) Blockchain \<times> unit res" where
  "addBlockWithoutValidationLocked P so ce b bc =
     (case b_Header b of
        None \<Rightarrow> (bc, Panic NilDereference)
      | Some h \<Rightarrow>
          bind_state (bc\<lparr>bc_Headers := bc_Headers bc @ [h]\<rparr>, Block_Hash P b) (\<lambda>(_, b) bc.
          bind_state (add_weight ce h bc) (\<lambda>_ bc.
            let (s, r) = st_Put so b (bc_store bc) in (bc\<lparr>bc_store := s\<rparr>, r))))"

definition process_evidence ::
  "'c ConsensusEngine \<Rightarrow> Header \<Rightarrow> ('s, 'c) Blockchain \<Rightarrow> ('s, 'c) Blockchain" where
  "process_evidence ce evidence bc =
     (case bc_consensus bc of
        None \<Rightarrow> bc
      | Some c \<Rightarrow>
          (case ce_Slash ce of
             None \<Rightarrow> bc
           | Some slash \<Rightarrow> bc\<lparr>bc_consensus := Some (slash (hd_Coinbase evidence) c)\<rparr>))"

definition AddBlock ::
  "'x block_prims_scheme \<Rightarrow> 's Storage \<Rightarrow> 'c ConsensusEngine \<Rightarrow> Block \<Rightarrow> ('s, 'c) Blockchain
   \<Rightarrow> (('s, 'c) Blockchain \<times> unit res) option" where
  "AddBlock P so ce b bc =
     then_exec (Some (ValidateBlockLocked P ce b bc)) (\<lambda>bc.
     then_exec (map_option (\<lambda>(ws, r). (bc\<lparr>bc_WorldState := ws\<rparr>, r))
                  (executeTransactions P (b_Transactions b) (bc_WorldState bc))) (\<lambda>bc.
       let bc = fold (process_evidence ce) (b_Evidence b) bc in
       case b_Header b of
         None \<Rightarrow> Some (bc, Panic NilDereference)
       | Some h \<Rightarrow>
           (let bc = bc\<lparr>bc_WorldState := AddBalance (hd_Coinbase h) 5 (bc_WorldState bc)\<rparr>
            in Some (addBlockWithoutValidationLocked P so ce b bc))))"

partial_function (option) loadHeaders_loop ::
  "'s Storage \<Rightarrow> 's \<Rightarrow> u32 \<Rightarrow> Header list \<Rightarrow> (go_error, Header list) outcome option" where
  "loadHeaders_loop so st i headers =
     (case st_Get so st i of
        Err e \<Rightarrow> Some (Ok headers)
      | Panic p \<Rightarrow> Some (Panic p)
      | Ok block \<Rightarrow>
          (case b_Header block of
             None \<Rightarrow> Some (Panic NilDereference)
           | Some h \<Rightarrow> loadHeaders_loop so st (i + 1) (headers @ [h])))"

declare loadHeaders_loop.simps [code]

definition loadHeaders ::
  "'s Storage \<Rightarrow> ('s, 'c) Blockchain \<Rightarrow> (('s, 'c) Blockchain \<times> unit res) option" where
  "loadHeaders so bc =
     map_option (\<lambda>r. case r of
         Ok hs \<Rightarrow> (bc\<lparr>bc_Headers := hs\<rparr>, Ok ())
       | Err e \<Rightarrow> (bc, Err e)
       | Panic p \<Rightarrow> (bc, Panic p))
       (loadHeaders_loop so (bc_store bc) 0 (bc_Headers bc))"

definition NewBlockchain ::
  "'x block_prims_scheme \<Rightarrow> 's Storage \<Rightarrow> 'c ConsensusEngine \<Rightarrow> Block \<Rightarrow> 's
   \<Rightarrow> (('s, 'c) Blockchain \<times> unit res) option" where
  "NewBlockchain P so ce genesis st =
     (let bc = \<lparr>bc_store = st, bc_Headers = [], bc_consensus = None, bc_validator = BlockValidator,
                bc_WorldState = NewWorldState, bc_totalDifficulty = Some 0\<rparr>
      in case st_Get so st 0 of
           Err e \<Rightarrow> Some (addBlockWithoutValidationLocked P so ce genesis bc)
         | Panic p \<Rightarrow> Some (bc, Panic p)
         | Ok _ \<Rightarrow> loadHeaders so bc)"

definition NewBlockchainWithState ::
  "'x block_prims_scheme \<Rightarrow> 'c ConsensusEngine \<Rightarrow> Block \<Rightarrow> WorldState
   \<Rightarrow> (MemoryStore, 'c) Blockchain \<times> unit res" where
  "NewBlockchainWithState P ce genesis ws =
     addBlockWithoutValidationLocked P (MemoryStore_Storage P) ce genesis
       \<lparr>bc_store = NewMemoryStorage, bc_Headers = [], bc_consensus = None, bc_validator = BlockValidator,
        bc_WorldState = ws, bc_totalDifficulty = None\<rparr>"

end
