(* ===== verification/PoWEngine.thy ===== *)
theory PoWEngine
  imports Consensus
begin

text \<open>
  Proof of work, from src/consensus/pow.go. \<open>256 - header.Difficulty\<close> is 64-bit arithmetic and
  wraps for a difficulty above 256; \<open>big.Int.Lsh\<close> then tries to allocate a number of that many
  bits. Mining is a loop over the nonces, which ends because the counter does.
\<close>

section \<open>Definitions\<close>

record PoWEngine =
  targetDifficulty :: u64

definition defaultDifficulty :: u64 where
  "defaultDifficulty = 16"

definition NewPoWEngine :: "u64 \<Rightarrow> PoWEngine" where
  "NewPoWEngine difficulty =
     \<lparr>targetDifficulty = (if difficulty = 0 then defaultDifficulty else difficulty)\<rparr>"

text \<open>\<open>new(big.Int).Lsh(big.NewInt(1), n)\<close>: the result has \<open>n + 1\<close> bits to be stored.\<close>

definition Lsh_one :: "'x prims_scheme \<Rightarrow> u64 \<Rightarrow> int res" where
  "Lsh_one P n = (if unat n div 8 < max_alloc P then Ok (push_bit (unat n) 1) else Panic ShiftTooLarge)"

definition hash_int :: "'x block_prims_scheme \<Rightarrow> Header \<Rightarrow> int" where
  "hash_int P h = SetBytes (hash_bytes (BlockHasher_Hash P h))"

definition PoW_VerifyHeader :: "'x block_prims_scheme \<Rightarrow> Header \<Rightarrow> PoWEngine \<Rightarrow> PoWEngine \<times> unit res" where
  "PoW_VerifyHeader P header pow =
     (pow, bind_outcome (Lsh_one P (256 - hd_Difficulty header))
        (\<lambda>target. if hash_int P header > target
           then Err (ErrDifficulty (BlockHasher_Hash P header) (hd_Difficulty header))
           else Ok ()))"

definition PoW_Author :: "PoWEngine \<Rightarrow> Header \<Rightarrow> address res" where
  "PoW_Author pow header = Ok (hd_Coinbase header)"

definition PoW_Prepare :: "Header \<Rightarrow> PoWEngine \<Rightarrow> Header res" where
  "PoW_Prepare header pow = Ok (header\<lparr>hd_Difficulty := targetDifficulty pow\<rparr>)"

function Seal_loop ::
  "'x block_prims_scheme \<Rightarrow> (u64 \<Rightarrow> bool) \<Rightarrow> int \<Rightarrow> Header \<Rightarrow> u64 \<Rightarrow> Header res" where
  "Seal_loop P timeout target header n =
     (if n < - 1 then
        (let header = header\<lparr>hd_Nonce := n\<rparr> in
         if hash_int P header \<le> target then Ok header
         else (let n = n + 1 in
               if n mod 100000 = 0 \<and> timeout n then Err ErrMiningTimeout
               else Seal_loop P timeout target header n))
      else Err ErrNoNonce)"
  by auto

termination
proof (relation "measure (\<lambda>(_, _, _, _, n). unat (- 1 - n))")
  fix P :: "'x block_prims_scheme" and timeout :: "u64 \<Rightarrow> bool" and target :: int
    and header h' :: Header and n n' :: u64
  assume "n < - 1" and n': "n' = n + 1"
  then have "unat n < unat (- 1 :: u64)" by (simp only: word_less_nat_alt)
  moreover have "unat n' = unat n + 1"
    using \<open>n < - 1\<close> n' by (simp add: unat_succ)
  ultimately show "((P, timeout, target, h', n'), P, timeout, target, header, n)
     \<in> measure (\<lambda>(_, _, _, _, n). unat (- 1 - n))"
    by (simp add: unat_sub_le word_le_nat_alt)
qed simp

definition PoW_Seal :: "'x block_prims_scheme \<Rightarrow> (u64 \<Rightarrow> bool) \<Rightarrow> Block \<Rightarrow> PoWEngine \<Rightarrow> Block res" where
  "PoW_Seal P timeout block pow =
     bind_outcome (Lsh_one P (256 - targetDifficulty pow))
       (\<lambda>target. case b_Header block of
          None \<Rightarrow> Panic NilDereference
        | Some header \<Rightarrow>
            bind_outcome (Seal_loop P timeout target header 0)
              (\<lambda>header'. Ok (block\<lparr>b_Header := Some header'\<rparr>)))"

definition PoW_CalculateBlockWeight :: "'x block_prims_scheme \<Rightarrow> PoWEngine \<Rightarrow> Header \<Rightarrow> int res" where
  "PoW_CalculateBlockWeight P pow header = Lsh_one P (hd_Difficulty header)"

definition PoW_ConsensusEngine :: "'x block_prims_scheme \<Rightarrow> PoWEngine ConsensusEngine" where
  "PoW_ConsensusEngine P =
     \<lparr>ce_Type = (\<lambda>_. PoW), ce_VerifyHeader = PoW_VerifyHeader P, ce_Author = PoW_Author,
      ce_Prepare = PoW_Prepare, ce_Seal = PoW_Seal P, ce_Slash = None,
      ce_CalculateBlockWeight = Some (PoW_CalculateBlockWeight P)\<rparr>"

declare Seal_loop.simps [simp del]

section \<open>Mining\<close>

text \<open>Mining returns the header with the least nonce, from the start on, that meets the target.\<close>

definition meets :: "'x block_prims_scheme \<Rightarrow> int \<Rightarrow> Header \<Rightarrow> u64 \<Rightarrow> bool" where
  "meets P target h n \<longleftrightarrow> hash_int P (h\<lparr>hd_Nonce := n\<rparr>) \<le> target"

definition least_nonce :: "'x block_prims_scheme \<Rightarrow> int \<Rightarrow> Header \<Rightarrow> u64 \<Rightarrow> u64 \<Rightarrow> bool" where
  "least_nonce P target h n m \<longleftrightarrow>
     n \<le> m \<and> m < - 1 \<and> meets P target h m \<and> (\<forall>k. n \<le> k \<and> k < m \<longrightarrow> \<not> meets P target h k)"

lemma meets_nonce [simp]: "meets P target (h\<lparr>hd_Nonce := k\<rparr>) n = meets P target h n"
  by (simp add: meets_def)

lemma least_nonce_nonce [simp]: "least_nonce P target (h\<lparr>hd_Nonce := k\<rparr>) n m = least_nonce P target h n m"
  by (simp add: least_nonce_def)

lemma least_nonce_step:
  assumes "\<not> meets P target h n" and "n < - 1"
  shows "least_nonce P target h n m \<longleftrightarrow> least_nonce P target h (n + 1) m"
proof -
  have le: "n + 1 \<le> k \<longleftrightarrow> n < k" for k
    using unat_succ [OF assms(2)] by (simp add: word_le_nat_alt word_less_nat_alt Suc_le_eq)
  show ?thesis unfolding least_nonce_def le
    using assms(1) by (metis order_le_less)
qed

lemma Seal_loop_least:
  assumes "Seal_loop P timeout target h n = Ok h'"
  shows "\<exists>m. least_nonce P target h n m \<and> h' = h\<lparr>hd_Nonce := m\<rparr>"
  using assms
proof (induction P timeout target h n rule: Seal_loop.induct)
  case (1 P timeout target h n)
  have n: "n < - 1" using "1.prems" by (subst (asm) Seal_loop.simps) (auto split: if_splits)
  show ?case
  proof (cases "meets P target h n")
    case True
    then have "h' = h\<lparr>hd_Nonce := n\<rparr>"
      using "1.prems" n by (subst (asm) Seal_loop.simps) (simp add: meets_def Let_def)
    with True n show ?thesis by (auto simp: least_nonce_def)
  next
    case False
    then have "Seal_loop P timeout target (h\<lparr>hd_Nonce := n\<rparr>) (n + 1) = Ok h'"
      using "1.prems" n by (subst (asm) Seal_loop.simps) (simp add: meets_def Let_def split: if_splits)
    moreover have "\<not> ((n + 1) mod 100000 = 0 \<and> timeout (n + 1))"
      using "1.prems" n False by (subst (asm) Seal_loop.simps) (simp add: meets_def Let_def split: if_splits)
    ultimately have "\<exists>m. least_nonce P target (h\<lparr>hd_Nonce := n\<rparr>) (n + 1) m
        \<and> h' = h\<lparr>hd_Nonce := n\<rparr>\<lparr>hd_Nonce := m\<rparr>"
      using "1.IH" [OF n refl _ refl] False by (simp add: meets_def)
    then show ?thesis using least_nonce_step [OF False n] by simp
  qed
qed

lemma Seal_loop_finds:
  assumes "least_nonce P target h n m"
  shows "Seal_loop P (\<lambda>_. False) target h n = Ok (h\<lparr>hd_Nonce := m\<rparr>)"
  using assms
proof (induction P "\<lambda>_ :: u64. False" target h n rule: Seal_loop.induct)
  case (1 P target h n)
  have n: "n < - 1" using "1.prems" by (auto simp: least_nonce_def)
  show ?case
  proof (cases "meets P target h n")
    case True
    with "1.prems" have "m = n" by (auto simp: least_nonce_def order_le_less)
    with True n show ?thesis by (subst Seal_loop.simps) (simp add: meets_def Let_def)
  next
    case False
    then have "least_nonce P target (h\<lparr>hd_Nonce := n\<rparr>) (n + 1) m"
      using least_nonce_step [OF False n] "1.prems" by simp
    then have "Seal_loop P (\<lambda>_. False) target (h\<lparr>hd_Nonce := n\<rparr>) (n + 1)
        = Ok (h\<lparr>hd_Nonce := n\<rparr>\<lparr>hd_Nonce := m\<rparr>)"
      using "1.hyps" [OF n refl _ refl] False by (simp add: meets_def)
    with False n show ?thesis
      by (subst Seal_loop.simps) (simp add: meets_def Let_def)
  qed
qed

lemma least_nonce_exists:
  assumes "meets P target h m" and "m < - 1" and "n \<le> m"
  shows "\<exists>m'. least_nonce P target h n m'"
proof -
  let ?Q = "\<lambda>k :: u64. n \<le> k \<and> meets P target h k"
  have "?Q m" using assms by simp
  then have "?Q (LEAST k. ?Q k)" and "(LEAST k. ?Q k) \<le> m"
    by (rule LeastI, intro Least_le) (use assms in simp)
  moreover have "\<not> ?Q k" if "k < (LEAST k. ?Q k)" for k using that by (rule not_less_Least)
  ultimately show ?thesis using assms(2)
    unfolding least_nonce_def by (intro exI [of _ "LEAST k. ?Q k"]) (auto dest: order_le_less_trans)
qed

lemma Seal_loop_no_panic: "Seal_loop P timeout target h n \<noteq> Panic p"
proof (induction P timeout target h n rule: Seal_loop.induct)
  case (1 P timeout target h n)
  then show ?case by (subst Seal_loop.simps) (simp add: Let_def)
qed

lemma Seal_loop_errors:
  "Seal_loop P timeout target h n = Err e \<Longrightarrow> e = ErrMiningTimeout \<or> e = ErrNoNonce"
proof (induction P timeout target h n rule: Seal_loop.induct)
  case (1 P timeout target h n)
  from "1.prems" show ?case
    by (subst (asm) Seal_loop.simps) (auto simp: Let_def split: if_splits dest: "1.IH" [OF _ refl _ refl])
qed

section \<open>Targets\<close>

definition pow_target :: "u64 \<Rightarrow> int" where
  "pow_target d = 2 ^ (256 - unat d)"

lemma Lsh_one_target:
  assumes "d \<le> 256" and "32 < max_alloc P"
  shows "Lsh_one P (256 - d) = Ok (pow_target d)"
proof -
  have "unat (256 - d) = 256 - unat d" using assms(1) by (simp add: unat_sub_le)
  with assms(2) show ?thesis by (simp add: Lsh_one_def pow_target_def push_bit_eq_mult)
qed

lemma PoW_VerifyHeader_iff:
  assumes "hd_Difficulty h \<le> 256" and "32 < max_alloc P"
  shows "snd (PoW_VerifyHeader P h pow) = Ok () \<longleftrightarrow> hash_int P h \<le> pow_target (hd_Difficulty h)"
  using Lsh_one_target [OF assms] by (simp add: PoW_VerifyHeader_def)

lemma hash_int_range: "0 \<le> hash_int P h" "hash_int P h < 2 ^ 256"
  using SetBytes_range [of "hash_bytes (BlockHasher_Hash P h)"] by (simp_all add: hash_int_def)

lemma PoW_Seal_OkE:
  assumes "PoW_Seal P timeout b pow = Ok b'"
  obtains h m target where "b_Header b = Some h" "b' = b\<lparr>b_Header := Some (h\<lparr>hd_Nonce := m\<rparr>)\<rparr>"
    "Lsh_one P (256 - targetDifficulty pow) = Ok target" "least_nonce P target h 0 m"
  using assms by (auto simp: PoW_Seal_def split: option.splits dest!: Seal_loop_least)

lemma PoW_Seal_frame:
  assumes "PoW_Seal P clk b pow = Ok b'" and "b_Header b = Some h"
  shows "\<exists>h'. b' = b\<lparr>b_Header := Some h'\<rparr> \<and> consensus_frame h h'"
  using assms(1) by (rule PoW_Seal_OkE) (use assms(2) in auto)

interpretation pow: consensus_engine "PoW_ConsensusEngine P" "\<lambda>_. True" for P
  by unfold_locales
    (auto simp: PoW_ConsensusEngine_def PoW_Prepare_def PoW_Author_def consensus_frame_def
      dest: PoW_Seal_frame [unfolded consensus_frame_def])

end
