(* ===== verification/PoSEngine.thy ===== *)
theory PoSEngine
  imports Consensus
begin

text \<open>
  Proof of stake, from src/consensus/pos.go. The mutex makes every method atomic; interleavings
  of calls are the step relation \<open>pos_step\<close>. The engine implements the consensus interface with
  the optional \<open>Slash\<close> and without \<open>CalculateBlockWeight\<close>.
\<close>

section \<open>Definitions\<close>

record PoSEngine =
  validators :: "address \<rightharpoonup> u64"
  activeSet :: "address list"
  seenHeaders :: "u32 \<rightharpoonup> (address \<rightharpoonup> hash)"

definition NewPoSEngine :: PoSEngine where
  "NewPoSEngine = \<lparr>validators = Map.empty, activeSet = [], seenHeaders = Map.empty\<rparr>"

definition AddValidator :: "address \<Rightarrow> u64 \<Rightarrow> PoSEngine \<Rightarrow> PoSEngine" where
  "AddValidator addr stake pos =
     pos\<lparr>validators := (validators pos)(addr \<mapsto> stake), activeSet := activeSet pos @ [addr]\<rparr>"

definition selectProposerLocked :: "PoSEngine \<Rightarrow> u32 \<Rightarrow> address res" where
  "selectProposerLocked pos height =
     (if length (activeSet pos) = 0 then Err ErrNoValidators
      else (let index = unat height mod length (activeSet pos) in Ok (activeSet pos ! index)))"

definition SelectProposer :: "PoSEngine \<Rightarrow> u32 \<Rightarrow> address res" where
  "SelectProposer pos height = selectProposerLocked pos height"

definition PoS_VerifyHeader :: "'x block_prims_scheme \<Rightarrow> Header \<Rightarrow> PoSEngine \<Rightarrow> PoSEngine \<times> unit res" where
  "PoS_VerifyHeader P header pos =
     (case selectProposerLocked pos (hd_Height header) of
        Err e \<Rightarrow> (pos, Err e)
      | Panic p \<Rightarrow> (pos, Panic p)
      | Ok expected \<Rightarrow>
          if expected \<noteq> hd_Coinbase header
          then (pos, Err (ErrProposer (hd_Coinbase header) (hd_Height header) expected))
          else
            (let height = hd_Height header;
                 seen = (case seenHeaders pos height of None \<Rightarrow> Map.empty | Some m \<Rightarrow> m);
                 pos = pos\<lparr>seenHeaders := (seenHeaders pos)(height \<mapsto> seen)\<rparr>;
                 headerHash = Header_Hash P header;
                 double = (case seen (hd_Coinbase header) of
                             Some existingHash \<Rightarrow> existingHash \<noteq> headerHash | None \<Rightarrow> False)
             in if double then (pos, Err (ErrDoubleSign (hd_Coinbase header) height))
                else (pos\<lparr>seenHeaders := (seenHeaders pos)(height \<mapsto> seen(hd_Coinbase header \<mapsto> headerHash))\<rparr>,
                      Ok ())))"

definition Slash :: "address \<Rightarrow> PoSEngine \<Rightarrow> PoSEngine" where
  "Slash addr pos =
     (case validators pos addr of
        None \<Rightarrow> pos
      | Some stake \<Rightarrow>
          pos\<lparr>validators := (validators pos)(addr \<mapsto> stake div 2),
              activeSet := filter (\<lambda>a. a \<noteq> addr) (activeSet pos)\<rparr>)"

definition PoS_Author :: "PoSEngine \<Rightarrow> Header \<Rightarrow> address res" where
  "PoS_Author pos header = Ok (hd_Coinbase header)"

definition PoS_Prepare :: "Header \<Rightarrow> PoSEngine \<Rightarrow> Header res" where
  "PoS_Prepare header pos =
     bind_outcome (selectProposerLocked pos (hd_Height header))
       (\<lambda>proposer. Ok (header\<lparr>hd_Coinbase := proposer\<rparr>))"

definition PoS_Seal :: "(u64 \<Rightarrow> bool) \<Rightarrow> Block \<Rightarrow> PoSEngine \<Rightarrow> Block res" where
  "PoS_Seal timeout block pos = Ok block"

definition CheckSlashing :: "Header \<Rightarrow> Header \<Rightarrow> address option" where
  "CheckSlashing h1 h2 =
     (if hd_Height h1 = hd_Height h2 \<and> hd_Coinbase h1 = hd_Coinbase h2 then Some (hd_Coinbase h1) else None)"

definition PoS_ConsensusEngine :: "'x block_prims_scheme \<Rightarrow> PoSEngine ConsensusEngine" where
  "PoS_ConsensusEngine P =
     \<lparr>ce_Type = (\<lambda>_. PoS), ce_VerifyHeader = PoS_VerifyHeader P, ce_Author = PoS_Author,
      ce_Prepare = PoS_Prepare, ce_Seal = PoS_Seal, ce_Slash = Some Slash,
      ce_CalculateBlockWeight = None\<rparr>"

text \<open>The calls that change an engine, in any order.\<close>

inductive pos_step :: "'x block_prims_scheme \<Rightarrow> PoSEngine \<Rightarrow> PoSEngine \<Rightarrow> bool"
  for P :: "'x block_prims_scheme" where
  step_add: "pos_step P c (AddValidator a stake c)"
| step_verify: "pos_step P c (fst (PoS_VerifyHeader P h c))"
| step_slash: "pos_step P c (Slash a c)"

text \<open>The same calls as data, and a sequence of them.\<close>

datatype pos_call = CallAdd address u64 | CallVerify Header | CallSlash address

primrec pos_apply :: "'x block_prims_scheme \<Rightarrow> pos_call \<Rightarrow> PoSEngine \<Rightarrow> PoSEngine" where
  "pos_apply P (CallAdd a stake) c = AddValidator a stake c"
| "pos_apply P (CallVerify h) c = fst (PoS_VerifyHeader P h c)"
| "pos_apply P (CallSlash a) c = Slash a c"

abbreviation pos_run :: "'x block_prims_scheme \<Rightarrow> pos_call list \<Rightarrow> PoSEngine \<Rightarrow> PoSEngine" where
  "pos_run P \<equiv> fold (pos_apply P)"

text \<open>Only registered validators are active.\<close>

definition pos_good :: "PoSEngine \<Rightarrow> bool" where
  "pos_good c \<longleftrightarrow> (\<forall>a \<in> set (activeSet c). validators c a \<noteq> None)"

text \<open>The hash recorded for a validator at a height.\<close>

definition seen_hash :: "PoSEngine \<Rightarrow> u32 \<Rightarrow> address \<Rightarrow> hash option" where
  "seen_hash c n a = (case seenHeaders c n of None \<Rightarrow> None | Some m \<Rightarrow> m a)"

section \<open>The invariant\<close>

lemma NewPoSEngine_good [wf_intro]: "pos_good NewPoSEngine"
  by (simp add: pos_good_def NewPoSEngine_def)

lemma AddValidator_good [wf_intro]: "pos_good c \<Longrightarrow> pos_good (AddValidator a s c)"
  by (simp add: pos_good_def AddValidator_def)

lemma Slash_good [wf_intro]: "pos_good c \<Longrightarrow> pos_good (Slash a c)"
  by (auto simp: pos_good_def Slash_def split: option.splits)

lemma PoS_VerifyHeader_frame [simp]:
  "validators (fst (PoS_VerifyHeader P h c)) = validators c"
  "activeSet (fst (PoS_VerifyHeader P h c)) = activeSet c"
  by (simp_all add: PoS_VerifyHeader_def Let_def split: outcome.splits)

lemma PoS_VerifyHeader_proposer [simp]:
  "selectProposerLocked (fst (PoS_VerifyHeader P h c)) = selectProposerLocked c"
  by (simp add: fun_eq_iff selectProposerLocked_def)

lemma PoS_VerifyHeader_good [wf_intro]: "pos_good c \<Longrightarrow> pos_good (fst (PoS_VerifyHeader P h c))"
  by (simp add: pos_good_def)

lemma pos_steps_good:
  assumes "(pos_step P)\<^sup>*\<^sup>* c c'" and "pos_good c"
  shows "pos_good c'"
  using assms by (induction rule: rtranclp_induct) (auto elim!: pos_step.cases intro: wf_intro)

lemma pos_apply_step: "pos_step P c (pos_apply P x c)"
  by (cases x) (auto intro: pos_step.intros)

lemma pos_run_steps: "(pos_step P)\<^sup>*\<^sup>* c (pos_run P xs c)"
  by (induction xs arbitrary: c) (auto intro: converse_rtranclp_into_rtranclp pos_apply_step)

lemma pos_run_good [wf_intro]: "pos_good c \<Longrightarrow> pos_good (pos_run P xs c)"
  using pos_run_steps by (rule pos_steps_good)

lemma PoS_Seal_frame:
  assumes "PoS_Seal clk b c = Ok b'" and "b_Header b = Some h"
  shows "\<exists>h'. b' = b\<lparr>b_Header := Some h'\<rparr> \<and> consensus_frame h h'"
proof -
  have "b' = b\<lparr>b_Header := Some h\<rparr>" using assms by (cases b) (simp add: PoS_Seal_def)
  then show ?thesis by (intro exI [of _ h]) simp
qed

lemma PoS_Prepare_frame: "PoS_Prepare h c = Ok h' \<Longrightarrow> consensus_frame h h'"
  by (auto simp: PoS_Prepare_def consensus_frame_def)

interpretation pos: consensus_engine "PoS_ConsensusEngine P" pos_good for P
  by unfold_locales
    (auto simp: PoS_ConsensusEngine_def PoS_Author_def intro: wf_intro
      dest: PoS_Prepare_frame PoS_Seal_frame)

section \<open>Proposers\<close>

lemma selectProposerLocked_active:
  "selectProposerLocked c n = Ok a \<Longrightarrow> a \<in> set (activeSet c)"
  by (auto simp: selectProposerLocked_def Let_def split: if_splits)

lemma selectProposerLocked_no_panic: "selectProposerLocked c n \<noteq> Panic p"
  by (simp add: selectProposerLocked_def Let_def)

lemma Slash_activeSet:
  "pos_good c \<Longrightarrow> set (activeSet (Slash a c)) = set (activeSet c) - {a}"
  by (auto simp: Slash_def pos_good_def split: option.splits)

lemma pos_apply_inactive:
  "a \<notin> set (activeSet c) \<Longrightarrow> \<forall>s. x \<noteq> CallAdd a s \<Longrightarrow> a \<notin> set (activeSet (pos_apply P x c))"
  by (cases x) (auto simp: AddValidator_def Slash_def split: option.splits)

lemma pos_run_inactive:
  "a \<notin> set (activeSet c) \<Longrightarrow> \<forall>s. CallAdd a s \<notin> set xs \<Longrightarrow> a \<notin> set (activeSet (pos_run P xs c))"
proof (induction xs arbitrary: c)
  case (Cons x xs)
  then have "a \<notin> set (activeSet (pos_apply P x c))" by (intro pos_apply_inactive) auto
  with Cons show ?case by simp
qed simp

lemma round_robin:
  assumes a: "a \<in> set (activeSet c)" and len: "unat n + length (activeSet c) \<le> 2 ^ 32"
  shows "\<exists>k < length (activeSet c). selectProposerLocked c (n + of_nat k) = Ok a"
proof -
  let ?l = "length (activeSet c)"
  obtain i where i: "i < ?l" "activeSet c ! i = a" using a by (auto simp: in_set_conv_nth)
  define k where "k = (i + ?l - unat n mod ?l) mod ?l"
  have k: "k < ?l" using i(1) unfolding k_def by (intro mod_less_divisor) linarith
  have m: "unat n mod ?l < ?l" using i(1) by (intro mod_less_divisor) linarith
  have "(unat n + k) mod ?l = (unat n mod ?l + (i + ?l - unat n mod ?l)) mod ?l"
    unfolding k_def by (simp add: mod_simps)
  also have "\<dots> = i" using i(1) m by simp
  finally have mod: "(unat n + k) mod ?l = i" .
  have "unat n + k < 2 ^ 32" using k len by linarith
  then have "unat (n + of_nat k) = unat n + k"
    by (simp add: unat_word_ariths unat_of_nat take_bit_eq_mod mod_simps)
  with mod i have "selectProposerLocked c (n + of_nat k) = Ok a"
    by (auto simp: selectProposerLocked_def Let_def)
  with k show ?thesis by blast
qed

section \<open>Double signing\<close>

lemma PoS_VerifyHeader_Ok:
  "snd (PoS_VerifyHeader P h c) = Ok () \<longleftrightarrow>
     selectProposerLocked c (hd_Height h) = Ok (hd_Coinbase h) \<and>
     seen_hash c (hd_Height h) (hd_Coinbase h) \<in> {None, Some (BlockHasher_Hash P h)}"
  by (auto simp: PoS_VerifyHeader_def seen_hash_def Let_def Header_Hash_def split: outcome.splits option.splits if_splits)

lemma PoS_VerifyHeader_records:
  "snd (PoS_VerifyHeader P h c) = Ok () \<Longrightarrow>
     seen_hash (fst (PoS_VerifyHeader P h c)) (hd_Height h) (hd_Coinbase h) = Some (BlockHasher_Hash P h)"
  by (auto simp: PoS_VerifyHeader_def seen_hash_def Let_def Header_Hash_def split: outcome.splits option.splits if_splits)

lemma seen_hash_step:
  assumes "pos_step P c c'" and "seen_hash c n a = Some k"
  shows "seen_hash c' n a = Some k"
  using assms
  by cases (auto simp: AddValidator_def Slash_def PoS_VerifyHeader_def seen_hash_def Let_def Header_Hash_def
      split: outcome.splits option.splits if_splits)

lemma seen_hash_steps:
  assumes "(pos_step P)\<^sup>*\<^sup>* c c'" and "seen_hash c n a = Some k"
  shows "seen_hash c' n a = Some k"
  using assms by (induction rule: rtranclp_induct) (auto intro: seen_hash_step)

lemma no_equivocation:
  assumes "snd (PoS_VerifyHeader P h c) = Ok ()"
    and "(pos_step P)\<^sup>*\<^sup>* (fst (PoS_VerifyHeader P h c)) c'"
    and "snd (PoS_VerifyHeader P h' c') = Ok ()"
    and "hd_Height h' = hd_Height h" and "hd_Coinbase h' = hd_Coinbase h"
  shows "BlockHasher_Hash P h' = BlockHasher_Hash P h"
proof -
  have "seen_hash c' (hd_Height h) (hd_Coinbase h) = Some (BlockHasher_Hash P h)"
    using assms(2) PoS_VerifyHeader_records [OF assms(1)] by (rule seen_hash_steps)
  with assms(3-5) show ?thesis by (simp add: PoS_VerifyHeader_Ok)
qed

end
