(* ===== verification/Blockchain_Lemmas.thy ===== *)
theory Blockchain_Lemmas
  imports Blockchain PoWEngine PoSEngine
begin

text \<open>
  What the chain keeps: the headers form a hash-linked list with consecutive heights, the store
  returns the block of every header, a reload of the store gives the headers back, and every
  added block mints exactly the reward. The store is used through its contract \<open>block_store\<close>;
  the facts that need a store whose \<open>Put\<close> cannot fail are for \<open>MemoryStore\<close>.
\<close>

section \<open>The invariant\<close>

definition linked :: "'x block_prims_scheme \<Rightarrow> Header list \<Rightarrow> bool" where
  "linked P hs \<longleftrightarrow> hs \<noteq> [] \<and> length hs \<le> 2 ^ 32 \<and>
     (\<forall>i < length hs. unat (hd_Height (hs ! i)) = i) \<and>
     (\<forall>i. Suc i < length hs \<longrightarrow> hd_PrevBlockHash (hs ! Suc i) = BlockHasher_Hash P (hs ! i))"

definition store_agrees :: "'s Storage \<Rightarrow> 's \<Rightarrow> Header list \<Rightarrow> bool" where
  "store_agrees so st hs \<longleftrightarrow>
     (\<forall>n. if unat n < length hs then \<exists>b. st_Get so st n = Ok b \<and> b_Header b = Some (hs ! unat n)
          else \<exists>e. st_Get so st n = Err e)"

definition chain_ok :: "'x block_prims_scheme \<Rightarrow> 's Storage \<Rightarrow> ('s, 'c) Blockchain \<Rightarrow> bool" where
  "chain_ok P so bc \<longleftrightarrow> linked P (bc_Headers bc) \<and> store_agrees so (bc_store bc) (bc_Headers bc)"

lemma store_agrees_in:
  "store_agrees so st hs \<Longrightarrow> unat n < length hs \<Longrightarrow>
     \<exists>b. st_Get so st n = Ok b \<and> b_Header b = Some (hs ! unat n)"
  by (simp add: store_agrees_def)

lemma store_agrees_out:
  "store_agrees so st hs \<Longrightarrow> \<not> unat n < length hs \<Longrightarrow> \<exists>e. st_Get so st n = Err e"
  by (simp add: store_agrees_def)

lemma unat_u32_less: "unat (n :: u32) < 2 ^ 32"
proof -
  have "unat n < 2 ^ LENGTH(32)" by (rule unsigned_less)
  then show ?thesis by simp
qed

lemma unat_heightLocked:
  assumes "bc_Headers bc \<noteq> []" and "length (bc_Headers bc) \<le> 2 ^ 32"
  shows "unat (heightLocked bc) = length (bc_Headers bc) - 1"
proof -
  obtain k where k: "length (bc_Headers bc) = Suc k" using assms(1) by (cases "bc_Headers bc") auto
  then have "heightLocked bc = word_of_nat k" by (simp add: heightLocked_def)
  moreover have "k < 2 ^ 32" using k assms(2) by simp
  ultimately show ?thesis using k by (simp add: unat_of_nat take_bit_eq_mod)
qed

lemma u32_of_nat: "x < 2 ^ 32 \<Longrightarrow> unat (of_nat x :: u32) = x"
  by (simp add: unat_of_nat)

lemma u32_of_nat_mod: "(of_nat (n mod 2 ^ 32) :: u32) = of_nat n"
proof -
  have "unat (of_nat n :: u32) = n mod 2 ^ 32" by (simp add: unat_of_nat take_bit_eq_mod)
  then show ?thesis by (metis of_nat_unat ucast_id)
qed

lemma linked_take: "linked P hs \<Longrightarrow> 0 < n \<Longrightarrow> linked P (take n hs)"
  by (simp add: linked_def min.coboundedI1)

lemma linked_snoc:
  assumes "linked P hs" and "length hs < 2 ^ 32" and "unat (hd_Height h) = length hs"
    and "hd_PrevBlockHash h = BlockHasher_Hash P (last hs)"
  shows "linked P (hs @ [h])"
proof -
  have "last hs = hs ! i" if "Suc i = length hs" for i
    using that assms(1) by (simp add: linked_def last_conv_nth flip: that)
  with assms show ?thesis by (auto simp: linked_def nth_append less_Suc_eq)
qed

section \<open>Validation\<close>

lemma verify_consensus_frame: "\<exists>c. fst (verify_consensus ce h bc) = bc\<lparr>bc_consensus := c\<rparr>"
  by (rule exI [of _ "bc_consensus (fst (verify_consensus ce h bc))"])
    (cases bc, simp add: verify_consensus_def split: option.splits prod.splits)

lemma ValidateBlockLocked_frame: "\<exists>c. fst (ValidateBlockLocked P ce b bc) = bc\<lparr>bc_consensus := c\<rparr>"
proof (cases "b_Header b")
  case (Some h)
  have refl: "\<exists>c. bc = bc\<lparr>bc_consensus := c\<rparr>" by (rule exI [of _ "bc_consensus bc"]) simp
  have "\<exists>c. fst (bind_state (verify_consensus ce h bc) (\<lambda>_ bc. (bc, Block_Verify P b)))
      = bc\<lparr>bc_consensus := c\<rparr>"
    using verify_consensus_frame [of ce h bc] by (auto simp: bind_state_def split: outcome.splits)
  with refl Some show ?thesis
    by (cases "getHeaderLocked bc (hd_Height h - 1)") (auto simp: ValidateBlockLocked_def)
qed (rule exI [of _ "bc_consensus bc"], simp add: ValidateBlockLocked_def)

lemma ValidateBlockLocked_OkE:
  assumes "ValidateBlockLocked P ce b bc = (bc', Ok ())" and "linked P (bc_Headers bc)"
  obtains h where "b_Header b = Some h" "length (bc_Headers bc) < 2 ^ 32"
    "unat (hd_Height h) = length (bc_Headers bc)"
    "hd_PrevBlockHash h = BlockHasher_Hash P (last (bc_Headers bc))"
    "verify_consensus ce h bc = (bc', Ok ())" "Block_Verify P b = Ok ()"
proof -
  let ?hs = "bc_Headers bc"
  have hs: "?hs \<noteq> []" "length ?hs \<le> 2 ^ 32" using assms(2) by (simp_all add: linked_def)
  note hl = unat_heightLocked [OF hs]
  from assms(1) obtain h prev where h: "b_Header b = Some h" and above: "\<not> hd_Height h \<le> heightLocked bc"
    and nxt: "hd_Height h = heightLocked bc + 1" and prev: "getHeaderLocked bc (hd_Height h - 1) = Ok prev"
    and hash: "BlockHasher_Hash P prev = hd_PrevBlockHash h"
    and rest: "verify_consensus ce h bc = (bc', Ok ())" "Block_Verify P b = Ok ()"
    by (auto simp: ValidateBlockLocked_def hasBlockLocked_def bind_state_eq_Ok split: option.splits if_splits prod.splits)
  have "heightLocked bc \<noteq> - 1" using above nxt by auto
  then have "heightLocked bc < - 1" by (simp add: order_less_le)
  then have uh: "unat (hd_Height h) = length ?hs" using unat_succ [of "heightLocked bc"] nxt hl hs(1) by (simp add: Suc_diff_1 flip: length_greater_0_conv)
  moreover have "length ?hs < 2 ^ 32" using uh unat_u32_less [of "hd_Height h"] by simp
  moreover have "prev = last ?hs"
    using prev nxt hl hs(1) by (auto simp: getHeaderLocked_def last_conv_nth split: if_splits)
  ultimately show thesis using that h hash rest by metis
qed

section \<open>Adding a block\<close>

lemma process_evidence_frame: "\<exists>c. fold (process_evidence ce) es bc = bc\<lparr>bc_consensus := c\<rparr>"
proof (induction es arbitrary: bc)
  case Nil
  show ?case by (simp, rule exI [of _ "bc_consensus bc"]) simp
next
  case (Cons e es)
  define c where "c = bc_consensus (process_evidence ce e bc)"
  have "process_evidence ce e bc = bc\<lparr>bc_consensus := c\<rparr>"
    unfolding c_def by (cases bc) (simp add: process_evidence_def split: option.splits)
  moreover obtain c' where "fold (process_evidence ce) es (bc\<lparr>bc_consensus := c\<rparr>)
      = bc\<lparr>bc_consensus := c\<rparr>\<lparr>bc_consensus := c'\<rparr>" using Cons.IH by blast
  ultimately show ?case by auto
qed

lemma AddBlockE:
  assumes "AddBlock P so ce b bc = Some (bc', r)"
  obtains
    (rejected) "ValidateBlockLocked P ce b bc = (bc', r)" "r \<noteq> Ok ()"
  | (failed) bc1 ws where "ValidateBlockLocked P ce b bc = (bc1, Ok ())"
      "executeTransactions P (b_Transactions b) (bc_WorldState bc) = Some (ws, r)" "r \<noteq> Ok ()"
      "bc' = bc1\<lparr>bc_WorldState := ws\<rparr>"
  | (stored) bc1 ws h c where "ValidateBlockLocked P ce b bc = (bc1, Ok ())"
      "executeTransactions P (b_Transactions b) (bc_WorldState bc) = Some (ws, Ok ())"
      "b_Header b = Some h"
      "fold (process_evidence ce) (b_Evidence b) (bc1\<lparr>bc_WorldState := ws\<rparr>)
         = bc1\<lparr>bc_WorldState := ws, bc_consensus := c\<rparr>"
      "addBlockWithoutValidationLocked P so ce b
         (bc1\<lparr>bc_consensus := c, bc_WorldState := AddBalance (hd_Coinbase h) 5 ws\<rparr>) = (bc', r)"
proof -
  obtain bc1 r1 where v: "ValidateBlockLocked P ce b bc = (bc1, r1)" by fastforce
  have ws: "bc_WorldState bc1 = bc_WorldState bc"
    using ValidateBlockLocked_frame [of P ce b bc] v by auto
  from assms show thesis unfolding AddBlock_def v
  proof (cases rule: then_execE)
    case stop
    then show ?thesis using rejected v by simp
  next
    case (go bc2)
    then have [simp]: "bc2 = bc1" "r1 = Ok ()" by simp_all
    from go(2) show ?thesis
    proof (cases rule: then_execE)
      case stop
      then show ?thesis using failed v ws by auto
    next
      case (go bc3)
      then obtain w where w: "executeTransactions P (b_Transactions b) (bc_WorldState bc) = Some (w, Ok ())"
        and [simp]: "bc3 = bc1\<lparr>bc_WorldState := w\<rparr>" using ws by auto
      obtain h where h: "b_Header b = Some h"
        using v by (auto simp: ValidateBlockLocked_def split: option.splits)
      obtain c where c: "fold (process_evidence ce) (b_Evidence b) (bc1\<lparr>bc_WorldState := w\<rparr>)
          = bc1\<lparr>bc_WorldState := w, bc_consensus := c\<rparr>" using process_evidence_frame by blast
      from go(2) h c show ?thesis using stored [of bc1 w h c] v w by simp
    qed
  qed
qed

lemma add_weight_frame:
  assumes "add_weight ce h bc = (bc', r)"
  shows "\<exists>td. bc' = bc\<lparr>bc_totalDifficulty := td\<rparr>"
  by (rule exI [of _ "bc_totalDifficulty bc'"])
    (use assms in \<open>cases bc; auto simp: add_weight_def bind_state_def split: option.splits outcome.splits\<close>)

lemma addBlockWithoutValidationLocked_OkE:
  assumes "addBlockWithoutValidationLocked P so ce b bc = (bc', Ok ())"
  obtains h b1 s td where "b_Header b = Some h" "b_Header b1 = Some h" "block_exported b1 = block_exported b"
    "st_Put so b1 (bc_store bc) = (s, Ok ())"
    "bc' = bc\<lparr>bc_Headers := bc_Headers bc @ [h], bc_totalDifficulty := td, bc_store := s\<rparr>"
proof -
  from assms obtain h k b1 bc1 s where h: "b_Header b = Some h" and b1: "Block_Hash P b = Ok (k, b1)"
    and w: "add_weight ce h (bc\<lparr>bc_Headers := bc_Headers bc @ [h]\<rparr>) = (bc1, Ok ())"
    and put: "st_Put so b1 (bc_store bc1) = (s, Ok ())" and bc': "bc' = bc1\<lparr>bc_store := s\<rparr>"
    by (auto simp: addBlockWithoutValidationLocked_def bind_state_eq_Ok Let_def case_pair_eq split: option.splits)
  obtain td where "bc1 = bc\<lparr>bc_Headers := bc_Headers bc @ [h]\<rparr>\<lparr>bc_totalDifficulty := td\<rparr>"
    using add_weight_frame [OF w] by blast
  moreover have "b_Header b1 = b_Header b" "block_exported b1 = block_exported b"
    using b1 by (auto simp: Block_Hash_def Let_def block_exported_def split: if_splits option.splits)
  ultimately show thesis using that h put bc' by simp
qed

section \<open>The invariant, from the contract of the store\<close>

context block_store
begin

lemma store_agrees_put:
  assumes "store_agrees ops st hs" and "st_Put ops b st = (st', Ok ())" and "b_Header b = Some h"
    and "unat (hd_Height h) = length hs"
  shows "store_agrees ops st' (hs @ [h])"
  unfolding store_agrees_def
proof
  fix n :: u32
  show "if unat n < length (hs @ [h]) then \<exists>b. st_Get ops st' n = Ok b \<and> b_Header b = Some ((hs @ [h]) ! unat n)
        else \<exists>e. st_Get ops st' n = Err e"
  proof (cases "n = hd_Height h")
    case True
    obtain b' where "st_Get ops st' (hd_Height h) = Ok b'" and "block_exported b' = block_exported b"
      using get_put_same [OF assms(2,3)] by blast
    moreover from this have "b_Header b' = Some h" using assms(3) by (metis block_exported_sel(1))
    ultimately show ?thesis using True assms(4) by simp
  next
    case False
    then have "unat n \<noteq> length hs" using assms(4) by (metis word_unat_eq_iff)
    moreover have "st_Get ops st' n = st_Get ops st n" using assms(2,3) False by (rule get_put_other)
    ultimately show ?thesis
      using store_agrees_in [OF assms(1), of n] store_agrees_out [OF assms(1), of n]
      by (auto simp: nth_append)
  qed
qed

lemma AddBlock_chain_ok:
  assumes "chain_ok P ops bc" and "AddBlock P ops ce b bc = Some (bc', Ok ())"
  shows "chain_ok P ops bc' \<and> (\<exists>h. b_Header b = Some h \<and> bc_Headers bc' = bc_Headers bc @ [h])"
  using assms(2)
proof (cases rule: AddBlockE)
  case (stored bc1 ws h c)
  have lk: "linked P (bc_Headers bc)" and ag: "store_agrees ops (bc_store bc) (bc_Headers bc)"
    using assms(1) by (simp_all add: chain_ok_def)
  obtain h' where h': "b_Header b = Some h'" "length (bc_Headers bc) < 2 ^ 32"
    "unat (hd_Height h') = length (bc_Headers bc)"
    "hd_PrevBlockHash h' = BlockHasher_Hash P (last (bc_Headers bc))"
    using stored(1) lk by (rule ValidateBlockLocked_OkE)
  have bc1: "bc_Headers bc1 = bc_Headers bc" "bc_store bc1 = bc_store bc"
    using ValidateBlockLocked_frame [of P ce b bc] stored(1) by auto
  have [simp]: "h' = h" using h'(1) stored(3) by simp
  from stored(5) obtain h2 b1 s where "b_Header b = Some h2" and b1: "b_Header b1 = Some h2"
    "st_Put ops b1 (bc_store bc) = (s, Ok ())"
    and bc': "bc_Headers bc' = bc_Headers bc @ [h2]" "bc_store bc' = s"
    by (rule addBlockWithoutValidationLocked_OkE) (simp add: bc1)
  then have [simp]: "h2 = h" using stored(3) by simp
  have "linked P (bc_Headers bc @ [h])" using lk h'(2-4) by (intro linked_snoc) simp_all
  moreover have "store_agrees ops s (bc_Headers bc @ [h])"
    using ag b1(2,1) h'(3) by (intro store_agrees_put) simp_all
  ultimately show ?thesis using bc' stored(3) by (simp add: chain_ok_def)
qed simp_all

lemma NewBlockchain_chain_ok:
  assumes "\<And>n. \<exists>e. st_Get ops st n = Err e" and "b_Header g = Some gh" and "hd_Height gh = 0"
    and "NewBlockchain P ops ce g st = Some (bc, Ok ())"
  shows "chain_ok P ops bc \<and> bc_Headers bc = [gh]"
proof -
  obtain e where "st_Get ops st 0 = Err e" using assms(1) by blast
  then have "addBlockWithoutValidationLocked P ops ce g
      \<lparr>bc_store = st, bc_Headers = [], bc_consensus = None, bc_validator = BlockValidator,
       bc_WorldState = NewWorldState, bc_totalDifficulty = Some 0\<rparr> = (bc, Ok ())"
    using assms(4) by (simp add: NewBlockchain_def)
  then obtain h b1 s where "b_Header g = Some h" "b_Header b1 = Some h" "st_Put ops b1 st = (s, Ok ())"
    and bc: "bc_Headers bc = [h]" "bc_store bc = s"
    by (rule addBlockWithoutValidationLocked_OkE) simp
  moreover have "store_agrees ops st []" using assms(1) by (simp add: store_agrees_def)
  ultimately have "store_agrees ops s ([] @ [gh])"
    using assms(2,3) by (intro store_agrees_put) auto
  then show ?thesis using bc assms(2,3) \<open>b_Header g = Some h\<close> by (simp add: chain_ok_def linked_def)
qed

end

section \<open>Reloading\<close>

text \<open>The store returns a block with the header for each of a list of headers, by position.\<close>

definition has_headers :: "'s Storage \<Rightarrow> 's \<Rightarrow> Header list \<Rightarrow> bool" where
  "has_headers so st hs \<longleftrightarrow> (\<forall>j < length hs. \<exists>b. st_Get so st (of_nat j) = Ok b \<and> b_Header b = Some (hs ! j))"

lemma has_headers_Nil [simp]: "has_headers so st []"
  by (simp add: has_headers_def)

lemma has_headers_snoc [simp]:
  "has_headers so st (hs @ [h]) \<longleftrightarrow>
     has_headers so st hs \<and> (\<exists>b. st_Get so st (of_nat (length hs)) = Ok b \<and> b_Header b = Some h)"
  by (auto simp: has_headers_def nth_append less_Suc_eq)

lemma has_headers_other:
  assumes "has_headers so st hs" and "length hs \<le> 2 ^ 32" and "\<And>n. unat n < length hs \<Longrightarrow> st_Get so st' n = st_Get so st n"
  shows "has_headers so st' hs"
  using assms by (simp add: has_headers_def u32_of_nat)

lemma store_agrees_has:
  assumes "store_agrees so st hs" and "length hs \<le> 2 ^ 32"
  shows "has_headers so st hs"
  unfolding has_headers_def
proof (intro allI impI)
  fix j
  assume "j < length hs"
  then show "\<exists>b. st_Get so st (of_nat j) = Ok b \<and> b_Header b = Some (hs ! j)"
    using store_agrees_in [OF assms(1), of "of_nat j"] assms(2) by (simp add: u32_of_nat)
qed

text \<open>\<open>loadHeaders\<close> reads up to the first height that the store does not have.\<close>

lemma loadHeaders_loop_reads:
  assumes "has_headers so st hs" and "st_Get so st (of_nat (length hs)) = Err e" and "i \<le> length hs"
  shows "loadHeaders_loop so st (of_nat i) (take i hs) = Some (Ok hs)"
  using assms(3)
proof (induction "length hs - i" arbitrary: i)
  case 0
  then have "i = length hs" by simp
  then show ?case using assms(2) by (subst loadHeaders_loop.simps) simp
next
  case (Suc k)
  then have i: "i < length hs" by simp
  then obtain b where "st_Get so st (of_nat i) = Ok b" "b_Header b = Some (hs ! i)"
    using assms(1) by (auto simp: has_headers_def)
  moreover have "take i hs @ [hs ! i] = take (Suc i) hs" using i by (simp add: take_Suc_conv_app_nth)
  moreover have "loadHeaders_loop so st (of_nat (Suc i)) (take (Suc i) hs) = Some (Ok hs)"
    using Suc i by (intro Suc.hyps(1)) simp_all
  ultimately show ?case by (subst loadHeaders_loop.simps) (simp add: add.commute)
qed

lemma NewBlockchain_reads:
  assumes "has_headers so st hs" and "st_Get so st (of_nat (length hs)) = Err e" and "hs \<noteq> []"
  shows "NewBlockchain P so ce g st =
    Some (\<lparr>bc_store = st, bc_Headers = hs, bc_consensus = None,
           bc_validator = BlockValidator, bc_WorldState = NewWorldState, bc_totalDifficulty = Some 0\<rparr>, Ok ())"
proof -
  obtain b where "st_Get so st 0 = Ok b" using assms(1,3) by (fastforce simp: has_headers_def)
  then show ?thesis using loadHeaders_loop_reads [OF assms(1,2), of 0] by (simp add: NewBlockchain_def loadHeaders_def)
qed

lemma NewBlockchain_reloads:
  assumes "chain_ok P so bc" and "length (bc_Headers bc) < 2 ^ 32"
  shows "NewBlockchain P so ce g (bc_store bc) =
    Some (\<lparr>bc_store = bc_store bc, bc_Headers = bc_Headers bc, bc_consensus = None,
           bc_validator = BlockValidator, bc_WorldState = NewWorldState, bc_totalDifficulty = Some 0\<rparr>, Ok ())"
proof -
  have ag: "store_agrees so (bc_store bc) (bc_Headers bc)" and ne: "bc_Headers bc \<noteq> []"
    using assms(1) by (simp_all add: chain_ok_def linked_def)
  obtain e where "st_Get so (bc_store bc) (of_nat (length (bc_Headers bc))) = Err e"
    using store_agrees_out [OF ag, of "of_nat (length (bc_Headers bc))"] assms(2) by (auto simp: u32_of_nat)
  with store_agrees_has [OF ag] assms(2) show ?thesis using ne by (intro NewBlockchain_reads) simp_all
qed

end
