(* ===== verification/Chain_Props.thy ===== *)
theory Chain_Props
  imports Blockchain_Lemmas
begin

text \<open>
  The life of a chain: what a failed and a successful \<open>AddBlock\<close> leave behind, the chains a node
  with the in-memory store can reach, and the two consensus engines under the chain.
\<close>

section \<open>Failed blocks\<close>

lemma executed_frame:
  assumes "ValidateBlockLocked P ce b bc = (bc1, r)"
  shows "bc_Headers bc1 = bc_Headers bc" "bc_store bc1 = bc_store bc" "bc_WorldState bc1 = bc_WorldState bc"
    "bc_totalDifficulty bc1 = bc_totalDifficulty bc"
  using ValidateBlockLocked_frame [of P ce b bc] assms by auto

text \<open>A weight is computed or the computation panics; it never returns an error.\<close>

definition weight_no_err :: "'c ConsensusEngine \<Rightarrow> bool" where
  "weight_no_err ce \<longleftrightarrow> (\<forall>f c h e. ce_CalculateBlockWeight ce = Some f \<longrightarrow> f c h \<noteq> Err e)"

lemma PoW_weight_no_err: "weight_no_err (PoW_ConsensusEngine P)"
  by (simp add: weight_no_err_def PoW_ConsensusEngine_def PoW_CalculateBlockWeight_def Lsh_one_def)

lemma PoS_weight_no_err: "weight_no_err (PoS_ConsensusEngine P)"
  by (simp add: weight_no_err_def PoS_ConsensusEngine_def)

lemma add_weight_no_err: "weight_no_err ce \<Longrightarrow> snd (add_weight ce h bc) \<noteq> Err e"
  by (auto simp: add_weight_def weight_no_err_def bind_state_def split: option.splits outcome.splits)

lemma addBlock_memory_no_err:
  assumes "weight_no_err ce"
  shows "addBlockWithoutValidationLocked P (MemoryStore_Storage P) ce b bc \<noteq> (bc', Err e)"
proof (cases "b_Header b")
  case (Some h)
  show ?thesis
  proof (cases "Block_Hash P b")
    case (Ok x)
    obtain bc1 r where w: "add_weight ce h (bc\<lparr>bc_Headers := bc_Headers bc @ [h]\<rparr>) = (bc1, r)" by fastforce
    then have "r \<noteq> Err e'" for e' using add_weight_no_err [OF assms] by (metis snd_conv)
    moreover have "snd (st_Put (MemoryStore_Storage P) (snd x) (bc_store bc1)) \<noteq> Err e"
      by (simp add: MemoryStore_Storage_def MemoryStore_Put_no_err)
    ultimately show ?thesis using Some Ok w
      by (cases x; cases r) (auto simp: addBlockWithoutValidationLocked_def case_pair_eq split: prod.splits)
  qed (use Some in \<open>auto simp: addBlockWithoutValidationLocked_def Block_Hash_no_err\<close>)
qed (simp add: addBlockWithoutValidationLocked_def)

lemma AddBlock_memory_Err:
  assumes "AddBlock P (MemoryStore_Storage P) ce b bc = Some (bc', Err e)" and "weight_no_err ce"
    and "total_supply (balance_of (bc_WorldState bc)) < 2 ^ 64"
  shows "bc_Headers bc' = bc_Headers bc" "bc_store bc' = bc_store bc"
    "bc_totalDifficulty bc' = bc_totalDifficulty bc"
    "total_supply (balance_of (bc_WorldState bc')) = total_supply (balance_of (bc_WorldState bc))"
proof -
  have "bc_Headers bc' = bc_Headers bc \<and> bc_store bc' = bc_store bc
      \<and> bc_totalDifficulty bc' = bc_totalDifficulty bc
      \<and> total_supply (balance_of (bc_WorldState bc')) = total_supply (balance_of (bc_WorldState bc))"
    using assms(1)
  proof (cases rule: AddBlockE)
    case rejected
    then show ?thesis using executed_frame by fastforce
  next
    case (failed bc1 ws)
    then show ?thesis
      using executed_frame [OF failed(1)] executeTransactions_supply [OF failed(2) assms(3)] by simp
  next
    case (stored bc1 ws h c)
    then show ?thesis using addBlock_memory_no_err [OF assms(2)] by blast
  qed
  then show "bc_Headers bc' = bc_Headers bc" "bc_store bc' = bc_store bc"
    "bc_totalDifficulty bc' = bc_totalDifficulty bc"
    "total_supply (balance_of (bc_WorldState bc')) = total_supply (balance_of (bc_WorldState bc))" by simp_all
qed

section \<open>The reward\<close>

lemma AddBlock_supply:
  assumes "AddBlock P so ce b bc = Some (bc', Ok ())"
    and "total_supply (balance_of (bc_WorldState bc)) + 5 < 2 ^ 64"
  shows "total_supply (balance_of (bc_WorldState bc')) = total_supply (balance_of (bc_WorldState bc)) + 5"
  using assms(1)
proof (cases rule: AddBlockE)
  case (stored bc1 ws h c)
  have ws: "total_supply (balance_of ws) = total_supply (balance_of (bc_WorldState bc))"
    using executeTransactions_supply [OF stored(2)] assms(2) by simp
  have "bc_WorldState bc' = AddBalance (hd_Coinbase h) 5 ws"
    using stored(5) by (rule addBlockWithoutValidationLocked_OkE) simp
  with ws assms(2) show ?thesis by (simp add: ws_mint.mint_supply)
qed simp_all

lemma total_supply_NewWorldState: "total_supply (balance_of NewWorldState) = 0"
  by (simp add: total_supply_def balance_of_def NewWorldState_def GetBalance_def)

lemma NewBlockchain_fields:
  assumes "NewBlockchain P so ce g st = Some (bc, Ok ())"
  shows "bc = \<lparr>bc_store = bc_store bc, bc_Headers = bc_Headers bc, bc_consensus = None, bc_validator = BlockValidator,
    bc_WorldState = NewWorldState, bc_totalDifficulty = Some 0\<rparr>"
proof (cases "st_Get so st 0")
  case (Ok b)
  with assms obtain q where "loadHeaders_loop so st 0 [] = Some q"
    by (auto simp: NewBlockchain_def loadHeaders_def Let_def)
  then show ?thesis using assms Ok by (cases q) (auto simp: NewBlockchain_def loadHeaders_def Let_def)
next
  case (Err e)
  then show ?thesis
    using assms by (auto simp: NewBlockchain_def addBlockWithoutValidationLocked_def add_weight_def Let_def bind_state_eq_Ok
        case_prod_beta split: option.splits)
qed (use assms in \<open>simp add: NewBlockchain_def\<close>)

lemma NewBlockchain_unfunded: "NewBlockchain P so ce g st = Some (bc, Ok ()) \<Longrightarrow> bc_WorldState bc = NewWorldState"
  by (drule NewBlockchain_fields) (metis Blockchain.select_convs(5))

section \<open>Chains on a store that may fail\<close>

text \<open>
  A failed \<open>Put\<close> leaves a header in the chain whose block may be missing in the store. What the
  store does return always belongs to the chain.
\<close>

definition store_sound :: "'s Storage \<Rightarrow> 's \<Rightarrow> Header list \<Rightarrow> bool" where
  "store_sound so st hs \<longleftrightarrow>
     (\<forall>n b. st_Get so st n = Ok b \<longrightarrow> unat n < length hs \<and> b_Header b = Some (hs ! unat n))"

definition chain_sound :: "'x block_prims_scheme \<Rightarrow> 's Storage \<Rightarrow> ('s, 'c) Blockchain \<Rightarrow> bool" where
  "chain_sound P so bc \<longleftrightarrow> linked P (bc_Headers bc) \<and> store_sound so (bc_store bc) (bc_Headers bc) \<and>
     total_supply (balance_of (bc_WorldState bc)) = 5 * (length (bc_Headers bc) - 1)"

text \<open>
  A chain whose world state began empty with \<open>k\<close> headers, as it does after a restart: the rewards
  of the blocks added since are the supply.
\<close>

definition chain_since :: "'x block_prims_scheme \<Rightarrow> 's Storage \<Rightarrow> nat \<Rightarrow> ('s, 'c) Blockchain \<Rightarrow> bool" where
  "chain_since P so k bc \<longleftrightarrow> linked P (bc_Headers bc) \<and> store_sound so (bc_store bc) (bc_Headers bc) \<and>
     0 < k \<and> k \<le> length (bc_Headers bc) \<and> total_supply (balance_of (bc_WorldState bc)) = 5 * (length (bc_Headers bc) - k)"

lemma chain_sound_since: "chain_sound P so bc \<longleftrightarrow> chain_since P so 1 bc"
  by (auto simp: chain_sound_def chain_since_def linked_def Suc_le_eq)

lemma chain_since_engine [simp]: "chain_since P so k (bc\<lparr>bc_consensus := c\<rparr>) = chain_since P so k bc"
  by (simp add: chain_since_def)

lemma chain_sound_engine [simp]: "chain_sound P so (bc\<lparr>bc_consensus := c\<rparr>) = chain_sound P so bc"
  by (simp add: chain_sound_def)

lemma chain_since_supply:
  assumes "chain_since P so k bc"
  shows "total_supply (balance_of (bc_WorldState bc)) < 5 * 2 ^ 32"
proof -
  have "0 < length (bc_Headers bc)" "length (bc_Headers bc) \<le> 2 ^ 32" "0 < k"
    using assms by (simp_all add: chain_since_def linked_def)
  then show ?thesis using assms by (simp add: chain_since_def)
qed

lemmas chain_sound_supply = chain_since_supply [where k = 1, folded chain_sound_since]

lemma addBlockWithoutValidationLocked_runE:
  assumes "addBlockWithoutValidationLocked P so ce b bc = (bc', r)" and "\<not> is_Panic r" and "weight_no_err ce"
  obtains h b1 s td where "b_Header b = Some h" "b_Header b1 = Some h" "st_Put so b1 (bc_store bc) = (s, r)"
    "bc' = bc\<lparr>bc_Headers := bc_Headers bc @ [h], bc_totalDifficulty := td, bc_store := s\<rparr>"
proof -
  obtain h where h: "b_Header b = Some h"
    using assms(1,2) by (cases "b_Header b") (auto simp: addBlockWithoutValidationLocked_def)
  obtain k b1 where b1: "Block_Hash P b = Ok (k, b1)" using Block_Hash_header [OF h, of P] by fastforce
  obtain bc1 q where w: "add_weight ce h (bc\<lparr>bc_Headers := bc_Headers bc @ [h]\<rparr>) = (bc1, q)" by fastforce
  then have "q \<noteq> Err e" for e using add_weight_no_err [OF assms(3)] by (metis snd_conv)
  moreover have "\<not> is_Panic q" using assms(1,2) h b1 w by (cases q) (auto simp: addBlockWithoutValidationLocked_def)
  ultimately have q: "q = Ok ()" by (cases q) auto
  obtain s r' where put: "st_Put so b1 (bc_store bc1) = (s, r')" by fastforce
  obtain td where "bc1 = bc\<lparr>bc_Headers := bc_Headers bc @ [h]\<rparr>\<lparr>bc_totalDifficulty := td\<rparr>"
    using add_weight_frame [OF w] by blast
  moreover have "b_Header b1 = b_Header b"
    using b1 by (auto simp: Block_Hash_def Let_def split: if_splits option.splits)
  ultimately show thesis
    using assms(1) h b1 w q put by (intro that [of h b1 s td]) (auto simp: addBlockWithoutValidationLocked_def)
qed

text \<open>A store with no block missing below one that it has: what \<open>loadHeaders\<close> needs to find them all.\<close>

definition gapless :: "'s Storage \<Rightarrow> 's \<Rightarrow> bool" where
  "gapless so st \<longleftrightarrow> (\<forall>m n. m \<le> n \<longrightarrow> is_Ok (st_Get so st n) \<longrightarrow> is_Ok (st_Get so st m))"

lemma loadHeaders_loop_finds:
  assumes "loadHeaders_loop so st i acc = Some (Ok hs)" and "i = of_nat (length acc)" and "has_headers so st acc"
  shows "(\<exists>e. st_Get so st (of_nat (length hs)) = Err e) \<and> has_headers so st hs"
proof -
  define Q where "Q so st i acc r \<longleftrightarrow> (\<forall>hs. r = Ok hs \<longrightarrow> i = of_nat (length acc) \<longrightarrow> has_headers so st acc \<longrightarrow>
      (\<exists>e. st_Get so st (of_nat (length hs)) = Err e) \<and> has_headers so st hs)"
    for so :: "'a Storage" and st and i :: u32 and acc and r :: "Header list res"
  have "Q so st i acc (Ok hs)"
  proof (rule loadHeaders_loop.raw_induct [where P = Q, OF _ assms(1)])
    fix loop :: "'a Storage \<Rightarrow> 'a \<Rightarrow> u32 \<Rightarrow> Header list \<Rightarrow> Header list res option" and so st i acc r
    assume IH: "\<And>so st i acc r. loop so st i acc = Some r \<Longrightarrow> Q so st i acc r"
      and eq: "(case st_Get so st i of
         Ok block \<Rightarrow> (case b_Header block of None \<Rightarrow> Some (Panic NilDereference) | Some h \<Rightarrow> loop so st (i + 1) (acc @ [h]))
       | Err e \<Rightarrow> Some (Ok acc) | Panic p \<Rightarrow> Some (Panic p)) = Some r"
    show "Q so st i acc r"
    proof (cases "\<exists>b h. st_Get so st i = Ok b \<and> b_Header b = Some h")
      case True
      then obtain b h where b: "st_Get so st i = Ok b" "b_Header b = Some h" by blast
      with eq have "Q so st (i + 1) (acc @ [h]) r" by (intro IH) simp
      then show ?thesis using b by (auto simp: Q_def add.commute)
    qed (use eq in \<open>auto simp: Q_def split: outcome.splits option.splits\<close>)
  qed
  then show ?thesis using assms(2,3) by (simp add: Q_def)
qed

lemma loadHeaders_loop_prefix:
  assumes "loadHeaders_loop so st 0 [] = Some (Ok hs)" and "store_sound so st hs'" and "gapless so st"
  shows "hs = take (length hs) hs' \<and> length hs \<le> length hs' \<and> length hs < 2 ^ 32 \<and> store_sound so st hs"
proof -
  have stop: "\<exists>e. st_Get so st (of_nat (length hs)) = Err e"
    and found: "\<And>j. j < length hs \<Longrightarrow> \<exists>b. st_Get so st (of_nat j) = Ok b \<and> b_Header b = Some (hs ! j)"
    using loadHeaders_loop_finds [OF assms(1)] by (auto simp: has_headers_def)
  have len: "length hs < 2 ^ 32"
  proof (rule ccontr)
    assume big: "\<not> length hs < 2 ^ 32"
    have "length hs mod 2 ^ 32 < length hs" using big by (meson less_le_trans mod_less_divisor not_less zero_less_numeral zero_less_power)
    moreover have "of_nat (length hs mod 2 ^ 32) = (of_nat (length hs) :: u32)" by (rule u32_of_nat_mod)
    ultimately show False using found [of "length hs mod 2 ^ 32"] stop by auto
  qed
  have same: "j < length hs' \<and> hs' ! j = hs ! j" if j: "j < length hs" for j
  proof -
    obtain b where b: "st_Get so st (of_nat j) = Ok b" "b_Header b = Some (hs ! j)" using found [OF j] by blast
    have "unat (of_nat j :: u32) = j" using j len by (intro u32_of_nat) simp
    moreover have "unat (of_nat j :: u32) < length hs' \<and> b_Header b = Some (hs' ! unat (of_nat j :: u32))"
      using assms(2) b(1) unfolding store_sound_def by blast
    ultimately show ?thesis using b(2) by simp
  qed
  have le: "length hs \<le> length hs'" using same by (meson less_irrefl not_less)
  moreover have "hs = take (length hs) hs'" using same le by (intro nth_equalityI) auto
  moreover have below: "unat n < length hs" if "st_Get so st n = Ok b" for n b
  proof (rule ccontr)
    assume "\<not> unat n < length hs"
    then have "of_nat (length hs) \<le> n" using len by (simp add: word_le_nat_alt u32_of_nat)
    moreover have "is_Ok (st_Get so st n)" using that by simp
    ultimately have "is_Ok (st_Get so st (of_nat (length hs)))" using assms(3) unfolding gapless_def by blast
    then show False using stop by auto
  qed
  moreover have "store_sound so st hs"
    unfolding store_sound_def using below same assms(2) [unfolded store_sound_def] by metis
  ultimately show ?thesis using len by simp
qed

context durable_store
begin

lemma store_sound_put:
  assumes "store_sound ops s hs" and "st_Put ops b s = (s', r)" and "\<not> is_Panic r" and "b_Header b = Some h"
    and "unat (hd_Height h) = length hs"
  shows "store_sound ops s' (hs @ [h])"
  unfolding store_sound_def
proof (intro allI impI)
  fix n b'
  assume "st_Get ops s' n = Ok b'"
  with get_after_put [OF assms(2-4)] consider "st_Get ops s n = Ok b'" | "n = hd_Height h" "b_Header b' = Some h" by blast
  then show "unat n < length (hs @ [h]) \<and> b_Header b' = Some ((hs @ [h]) ! unat n)"
    using assms(1,5) by cases (auto simp: store_sound_def nth_append less_SucI)
qed

lemma stored_grows:
  assumes valid: "ValidateBlockLocked P ce b bc = (bc1, Ok ())" and sound: "chain_since P ops k bc"
    and exec: "executeTransactions P (b_Transactions b) (bc_WorldState bc) = Some (ws, Ok ())" and h: "b_Header b = Some h"
    and add: "addBlockWithoutValidationLocked P ops ce b
      (bc1\<lparr>bc_consensus := c, bc_WorldState := AddBalance (hd_Coinbase h) 5 ws\<rparr>) = (bc', r)"
    and run: "\<not> is_Panic r" "weight_no_err ce"
  shows "chain_since P ops k bc' \<and> unat (hd_Height h) = length (bc_Headers bc) \<and> bc_Headers bc' = bc_Headers bc @ [h]"
proof -
  let ?n = "length (bc_Headers bc)" and ?bc = "bc1\<lparr>bc_consensus := c, bc_WorldState := AddBalance (hd_Coinbase h) 5 ws\<rparr>"
  have lk: "linked P (bc_Headers bc)" and st: "store_sound ops (bc_store bc) (bc_Headers bc)"
    and sup: "total_supply (balance_of (bc_WorldState bc)) = 5 * (?n - k)"
    using sound by (simp_all add: chain_since_def)
  note frame = executed_frame [OF valid] and less = chain_since_supply [OF sound]
  obtain h' where h': "b_Header b = Some h'" "?n < 2 ^ 32" "unat (hd_Height h') = ?n"
    "hd_PrevBlockHash h' = BlockHasher_Hash P (last (bc_Headers bc))"
    using valid lk by (rule ValidateBlockLocked_OkE)
  then have [simp]: "h' = h" using h by simp
  obtain h2 b1 s td where "b_Header b = Some h2" and b1: "b_Header b1 = Some h2" and put: "st_Put ops b1 (bc_store ?bc) = (s, r)"
    and upd: "bc' = ?bc\<lparr>bc_Headers := bc_Headers ?bc @ [h2], bc_totalDifficulty := td, bc_store := s\<rparr>"
    using add run by (rule addBlockWithoutValidationLocked_runE)
  then have [simp]: "h2 = h" using h by simp
  have "total_supply (balance_of ws) = 5 * (?n - k)" using executeTransactions_supply [OF exec] less sup by simp
  then have "total_supply (balance_of (bc_WorldState bc')) = 5 * (?n - k) + 5"
    using less sup upd by (simp add: ws_mint.mint_supply)
  moreover have k: "0 < k" "k \<le> ?n" using sound by (simp_all add: chain_since_def)
  then have "5 * (?n - k) + 5 = 5 * (Suc ?n - k)" by simp
  moreover have "linked P (bc_Headers bc @ [h])" using lk h'(2-4) by (intro linked_snoc) simp_all
  moreover have "store_sound ops s (bc_Headers bc @ [h])"
    using store_sound_put [OF st, of b1 s r h] put run(1) b1 h'(3) frame by simp
  ultimately show ?thesis using k upd frame h'(3) by (simp add: chain_since_def)
qed

text \<open>However \<open>AddBlock\<close> returns, the chain stays as it is or grows by the header of the block.\<close>

lemma AddBlock_grows_since:
  assumes "AddBlock P ops ce b bc = Some (bc', r)" and run: "\<not> is_Panic r" "weight_no_err ce" and sound: "chain_since P ops k bc"
  shows "chain_since P ops k bc' \<and>
    (bc_Headers bc' = bc_Headers bc \<and> r \<noteq> Ok () \<or>
     (\<exists>h. b_Header b = Some h \<and> unat (hd_Height h) = length (bc_Headers bc) \<and> bc_Headers bc' = bc_Headers bc @ [h]))"
  using assms(1)
proof (cases rule: AddBlockE)
  case rejected
  then show ?thesis using sound executed_frame [OF rejected(1)] by (simp add: chain_since_def)
next
  case (failed bc1 ws)
  then show ?thesis
    using sound executed_frame [OF failed(1)] executeTransactions_supply [OF failed(2)] chain_since_supply [OF sound]
    by (simp add: chain_since_def)
next
  case (stored bc1 ws h c)
  from stored_grows [OF stored(1) sound stored(2,3,5) run] stored(3) show ?thesis by simp
qed

lemmas AddBlock_grows = AddBlock_grows_since [where k = 1, folded chain_sound_since]

lemma NewBlockchain_sound:
  assumes "\<And>n. \<exists>e. st_Get ops st n = Err e" and "b_Header g = Some gh" and "hd_Height gh = 0"
    and new: "NewBlockchain P ops ce g st = Some (bc, Ok ())"
  shows "chain_sound P ops bc \<and> bc_Headers bc = [gh]"
proof -
  note ok = NewBlockchain_chain_ok [OF assms]
  have "bc_WorldState bc = NewWorldState"
    using NewBlockchain_unfunded [OF new] .
  moreover have "store_sound ops (bc_store bc) (bc_Headers bc)"
    using ok unfolding chain_ok_def store_agrees_def store_sound_def by (metis outcome.distinct(1) outcome.inject(1))
  ultimately show ?thesis using ok by (auto simp: chain_sound_def chain_ok_def total_supply_NewWorldState)
qed

text \<open>
  Opening a chain on what an earlier one has left: it has every block that is in the store, and
  begins to count its rewards.
\<close>

lemma NewBlockchain_resumes:
  fixes ce :: "'c ConsensusEngine"
  assumes st: "store_sound ops st hs" "gapless ops st" and hs: "hs \<noteq> [] \<Longrightarrow> linked P hs \<and> hd hs = gh"
    and g: "b_Header g = Some gh" "hd_Height gh = 0" and new: "NewBlockchain P ops ce g st = Some (bc, Ok ())"
  shows "chain_since P ops (length (bc_Headers bc)) bc \<and> hd (bc_Headers bc) = gh \<and> store_sound ops st (bc_Headers bc)"
proof (cases "st_Get ops st 0")
  case (Ok b)
  then obtain q where q: "loadHeaders_loop ops st 0 [] = Some q" using new by (auto simp: NewBlockchain_def loadHeaders_def Let_def)
  then obtain hs0 where load: "loadHeaders_loop ops st 0 [] = Some (Ok hs0)" and bc: "bc_Headers bc = hs0" "bc_store bc = st"
    using new Ok by (cases q) (auto simp: NewBlockchain_def loadHeaders_def Let_def)
  note p = loadHeaders_loop_prefix [OF load st]
  have pre: "hs0 = take (length hs0) hs" by (rule conjunct1 [OF p])
  have le: "length hs0 \<le> length hs" and sound: "store_sound ops st hs0" using conjunct2 [OF p] by simp_all
  have ne: "hs0 \<noteq> []" using Ok sound by (auto simp: store_sound_def)
  then have "hs \<noteq> []" using le by auto
  then have "linked P hs" "hd hs = gh" using hs by simp_all
  then have "linked P (take (length hs0) hs)" "hd (take (length hs0) hs) = gh" using ne by (simp_all add: linked_take hd_take)
  then have "linked P hs0" "hd hs0 = gh" unfolding pre [symmetric] by simp_all
  moreover have "bc_WorldState bc = NewWorldState" by (rule NewBlockchain_unfunded [OF new])
  ultimately show ?thesis using sound ne by (simp add: bc chain_since_def total_supply_NewWorldState)
next
  case (Err e)
  let ?bc = "\<lparr>bc_store = st, bc_Headers = [], bc_consensus = None, bc_validator = BlockValidator,
    bc_WorldState = NewWorldState, bc_totalDifficulty = Some 0\<rparr> :: (_, 'c) Blockchain"
  have none: "st_Get ops st n \<noteq> Ok b" for n b
  proof
    assume "st_Get ops st n = Ok b"
    then have "is_Ok (st_Get ops st 0)" using st(2) [unfolded gapless_def, rule_format, of 0 n] by simp
    then show False using Err by simp
  qed
  have "addBlockWithoutValidationLocked P ops ce g ?bc = (bc, Ok ())" using new Err by (simp add: NewBlockchain_def)
  then obtain h b1 s td where h: "b_Header g = Some h" and b1: "b_Header b1 = Some h" "block_exported b1 = block_exported g"
    and put: "st_Put ops b1 (bc_store ?bc) = (s, Ok ())"
    and bc: "bc = ?bc\<lparr>bc_Headers := bc_Headers ?bc @ [h], bc_totalDifficulty := td, bc_store := s\<rparr>"
    by (rule addBlockWithoutValidationLocked_OkE)
  have [simp]: "h = gh" using h g(1) by simp
  have "store_sound ops st []" using none by (simp add: store_sound_def)
  then have "store_sound ops s [gh]" using store_sound_put [of st "[]" b1 s "Ok ()" gh] put b1(1) g(2) by simp
  moreover have "store_sound ops st [gh]" "linked P [gh]" using none g(2) by (simp_all add: store_sound_def linked_def)
  ultimately show ?thesis using bc by (simp add: chain_since_def total_supply_NewWorldState)
qed (use new in \<open>simp add: NewBlockchain_def\<close>)

end

section \<open>Reachable chains\<close>

text \<open>
  A node over the in-memory store with consensus engine \<open>ce\<close>: it starts from a genesis block, may
  be given an engine, and processes any blocks. A panic ends the process.
\<close>

inductive mem_chain ::
  "'x block_prims_scheme \<Rightarrow> 'c ConsensusEngine \<Rightarrow> Block \<Rightarrow> (MemoryStore, 'c) Blockchain \<Rightarrow> bool"
  for P :: "'x block_prims_scheme" and ce :: "'c ConsensusEngine" and g :: Block where
  chain_start: "NewBlockchain P (MemoryStore_Storage P) ce g NewMemoryStorage = Some (bc, Ok ()) \<Longrightarrow>
    mem_chain P ce g bc"
| chain_engine: "mem_chain P ce g bc \<Longrightarrow> mem_chain P ce g (SetConsensus c bc)"
| chain_add: "mem_chain P ce g bc \<Longrightarrow> AddBlock P (MemoryStore_Storage P) ce b bc = Some (bc', r) \<Longrightarrow>
    \<not> is_Panic r \<Longrightarrow> mem_chain P ce g bc'"

lemma NewMemoryStorage_empty: "\<exists>e. st_Get (MemoryStore_Storage P) NewMemoryStorage n = Err e"
  by (simp add: MemoryStore_Storage_def MemoryStore_Get_def NewMemoryStorage_def)

lemma mem_chain_inv:
  assumes "mem_chain P ce g bc" and "weight_no_err ce" and "b_Header g = Some gh" and "hd_Height gh = 0"
  shows "chain_ok P (MemoryStore_Storage P) bc \<and> hd (bc_Headers bc) = gh \<and>
    total_supply (balance_of (bc_WorldState bc)) = 5 * (length (bc_Headers bc) - 1)"
  using assms(1)
proof (induction rule: mem_chain.induct)
  case (chain_start bc)
  from ms.NewBlockchain_chain_ok [OF NewMemoryStorage_empty assms(3,4) chain_start]
    NewBlockchain_unfunded [OF chain_start]
  show ?case by (simp add: total_supply_NewWorldState)
next
  case (chain_engine bc c)
  then show ?case by (simp add: SetConsensus_def chain_ok_def)
next
  case (chain_add bc b bc' r)
  let ?n = "length (bc_Headers bc)"
  have ne: "bc_Headers bc \<noteq> []" and len: "?n \<le> 2 ^ 32"
    using chain_add.IH by (auto simp: chain_ok_def linked_def)
  have sup: "total_supply (balance_of (bc_WorldState bc)) + 5 < 2 ^ 64"
    using chain_add.IH len by simp
  show ?case
  proof (cases r)
    case (Ok u)
    then have add: "AddBlock P (MemoryStore_Storage P) ce b bc = Some (bc', Ok ())" using chain_add.hyps by simp
    from ms.AddBlock_chain_ok [OF _ add] chain_add.IH obtain h where
      "chain_ok P (MemoryStore_Storage P) bc'" and hs: "bc_Headers bc' = bc_Headers bc @ [h]" by blast
    moreover have "5 * (?n - 1) + 5 = 5 * ?n" using ne by (cases "bc_Headers bc") auto
    ultimately show ?thesis using AddBlock_supply [OF add sup] chain_add.IH ne by simp
  next
    case (Err e)
    then have "AddBlock P (MemoryStore_Storage P) ce b bc = Some (bc', Err e)" using chain_add.hyps by simp
    from AddBlock_memory_Err [OF this assms(2)] sup chain_add.IH show ?thesis by (simp add: chain_ok_def)
  next
    case (Panic p)
    then show ?thesis using chain_add.hyps(3) by simp
  qed
qed

section \<open>Valid blocks are accepted\<close>

lemma process_evidence_PoW: "fold (process_evidence (PoW_ConsensusEngine P)) es bc = bc"
  by (induction es) (simp_all add: process_evidence_def PoW_ConsensusEngine_def split: option.splits)

lemma ValidateBlockLocked_upto_consensus:
  assumes "b_Header b = Some h" and "hd_Height h = heightLocked bc + 1"
    and "heightLocked bc < heightLocked bc + 1"
    and "getHeaderLocked bc (heightLocked bc) = Ok prev" and "hd_PrevBlockHash h = BlockHasher_Hash P prev"
  shows "ValidateBlockLocked P ce b bc = bind_state (verify_consensus ce h bc) (\<lambda>_ bc. (bc, Block_Verify P b))"
proof -
  have "\<not> heightLocked bc + 1 \<le> heightLocked bc" using assms(3) by (simp only: not_le)
  then show ?thesis using assms by (simp add: ValidateBlockLocked_def hasBlockLocked_def)
qed

lemma next_height:
  assumes "linked P (bc_Headers bc)" and "unat n = length (bc_Headers bc)"
  shows "n = heightLocked bc + 1" "heightLocked bc < heightLocked bc + 1"
    "getHeaderLocked bc (heightLocked bc) = Ok (last (bc_Headers bc))"
proof -
  have hs: "bc_Headers bc \<noteq> []" "length (bc_Headers bc) \<le> 2 ^ 32" using assms(1) by (simp_all add: linked_def)
  note hl = unat_heightLocked [OF hs]
  have n: "n = word_of_nat (length (bc_Headers bc))" by (simp flip: assms(2))
  then show eq: "n = heightLocked bc + 1" by (simp add: heightLocked_def)
  show "heightLocked bc < heightLocked bc + 1"
    using assms(2) hl hs(1) unfolding eq [symmetric] by (simp add: word_less_nat_alt)
  have "heightLocked bc < n" using assms(2) hl hs(1) by (simp add: word_less_nat_alt)
  with n hl hs(1) show "getHeaderLocked bc (heightLocked bc) = Ok (last (bc_Headers bc))"
    by (simp add: getHeaderLocked_def last_conv_nth not_le)
qed

text \<open>On any store, a block that passes the checks is added and \<open>AddBlock\<close> returns what \<open>Put\<close> does.\<close>

lemma addBlock_PoW:
  assumes "b_Header b = Some h" and "block_memo_ok P b" and "bc_consensus bc = Some pow"
    and "bc_totalDifficulty bc = Some td" and "Lsh_one P (hd_Difficulty h) = Ok w"
    and "st_Put so (b\<lparr>b_hash := BlockHasher_Hash P h\<rparr>) (bc_store bc) = (st, r)"
  shows "addBlockWithoutValidationLocked P so (PoW_ConsensusEngine P) b bc =
    (bc\<lparr>bc_Headers := bc_Headers bc @ [h], bc_totalDifficulty := Some (td + w), bc_store := st\<rparr>, r)"
  using assms by (simp add: addBlockWithoutValidationLocked_def Block_Hash_value add_weight_def PoW_ConsensusEngine_def
      PoW_CalculateBlockWeight_def)

lemma AddBlock_PoW:
  assumes "linked P (bc_Headers bc)" and "bc_consensus bc = Some pow" and "bc_totalDifficulty bc = Some td"
    and "b_Header b = Some h" and "block_memo_ok P b"
    and "unat (hd_Height h) = length (bc_Headers bc)"
    and "hd_PrevBlockHash h = BlockHasher_Hash P (last (bc_Headers bc))"
    and "snd (PoW_VerifyHeader P h pow) = Ok ()" and "Block_Verify P b = Ok ()"
    and "executeTransactions P (b_Transactions b) (bc_WorldState bc) = Some (ws, Ok ())"
    and "Lsh_one P (hd_Difficulty h) = Ok w"
    and "st_Put so (b\<lparr>b_hash := BlockHasher_Hash P h\<rparr>) (bc_store bc) = (st, r)"
  shows "AddBlock P so (PoW_ConsensusEngine P) b bc =
    Some (bc\<lparr>bc_WorldState := AddBalance (hd_Coinbase h) 5 ws, bc_Headers := bc_Headers bc @ [h],
            bc_totalDifficulty := Some (td + w), bc_store := st\<rparr>, r)"
proof -
  have "PoW_VerifyHeader P h pow = (pow, Ok ())" using assms(8) by (simp add: PoW_VerifyHeader_def)
  then have vc: "verify_consensus (PoW_ConsensusEngine P) h bc = (bc, Ok ())"
    using assms(2) by (cases bc) (simp add: verify_consensus_def PoW_ConsensusEngine_def)
  have "ValidateBlockLocked P (PoW_ConsensusEngine P) b bc = (bc, Ok ())"
    using ValidateBlockLocked_upto_consensus [OF assms(4) next_height [OF assms(1,6)] assms(7)] vc assms(9) by simp
  moreover have "addBlockWithoutValidationLocked P so (PoW_ConsensusEngine P) b
      (bc\<lparr>bc_WorldState := AddBalance (hd_Coinbase h) 5 ws\<rparr>) =
    (bc\<lparr>bc_WorldState := AddBalance (hd_Coinbase h) 5 ws\<rparr>\<lparr>bc_Headers := bc_Headers bc @ [h],
       bc_totalDifficulty := Some (td + w), bc_store := st\<rparr>, r)"
    using addBlock_PoW [OF assms(4,5), of "bc\<lparr>bc_WorldState := AddBalance (hd_Coinbase h) 5 ws\<rparr>" pow td w so st r]
      assms(2,3,11,12) by simp
  ultimately show ?thesis
    using assms(4,10) by (simp add: AddBlock_def process_evidence_PoW)
qed

lemma AddBlock_accepts:
  assumes "linked P (bc_Headers bc)" and "bc_consensus bc = Some pow" and "bc_totalDifficulty bc = Some td"
    and "b_Header b = Some h" and "block_memo_ok P b"
    and "unat (hd_Height h) = length (bc_Headers bc)"
    and "hd_PrevBlockHash h = BlockHasher_Hash P (last (bc_Headers bc))"
    and "snd (PoW_VerifyHeader P h pow) = Ok ()" and "Block_Verify P b = Ok ()"
    and "executeTransactions P (b_Transactions b) (bc_WorldState bc) = Some (ws, Ok ())"
    and "Lsh_one P (hd_Difficulty h) = Ok w"
  shows "\<exists>st. AddBlock P (MemoryStore_Storage P) (PoW_ConsensusEngine P) b bc =
    Some (bc\<lparr>bc_WorldState := AddBalance (hd_Coinbase h) 5 ws, bc_Headers := bc_Headers bc @ [h],
            bc_totalDifficulty := Some (td + w), bc_store := st\<rparr>, Ok ())"
proof -
  let ?b = "b\<lparr>b_hash := BlockHasher_Hash P h\<rparr>"
  have "block_memo_ok P ?b" using assms(4) by (simp add: block_memo_ok_def)
  then have "snd (MemoryStore_Put P ?b (bc_store bc)) = Ok ()"
    using assms(4) by (intro MemoryStore_Put_total) simp_all
  then obtain st where "st_Put (MemoryStore_Storage P) ?b (bc_store bc) = (st, Ok ())" by (auto simp: prod_eq_iff)
  from AddBlock_PoW [OF assms this] show ?thesis by blast
qed

section \<open>Proof of stake under the chain\<close>

text \<open>The engine has no \<open>CalculateBlockWeight\<close>, and the chain asserts that it does.\<close>

lemma process_evidence_Some:
  "bc_consensus bc \<noteq> None \<Longrightarrow> bc_consensus (fold (process_evidence ce) es bc) \<noteq> None"
proof (induction es arbitrary: bc)
  case (Cons e es)
  have "bc_consensus (process_evidence ce e bc) \<noteq> None"
    using Cons.prems by (auto simp: process_evidence_def split: option.splits)
  then show ?case using Cons.IH by simp
qed simp

lemma ValidateBlockLocked_consensus:
  assumes "ValidateBlockLocked P ce b bc = (bc', Ok ())" and "bc_consensus bc \<noteq> None"
  shows "bc_consensus bc' \<noteq> None"
  using assms
  by (auto simp: ValidateBlockLocked_def bind_state_eq_Ok verify_consensus_def Let_def
      split: option.splits if_splits prod.splits outcome.splits)

lemma add_weight_PoS:
  "bc_consensus bc \<noteq> None \<Longrightarrow> add_weight (PoS_ConsensusEngine P) h bc = (bc, Panic TypeAssertion)"
  by (auto simp: add_weight_def PoS_ConsensusEngine_def)

lemma addBlock_PoS_panics:
  assumes "bc_consensus bc \<noteq> None" and "b_Header b = Some h" and "Block_Hash P b = Ok x"
  shows "snd (addBlockWithoutValidationLocked P so (PoS_ConsensusEngine P) b bc) = Panic TypeAssertion"
  using assms by (cases x) (simp add: addBlockWithoutValidationLocked_def add_weight_PoS)

lemma AddBlock_PoS_stored:
  assumes "bc_consensus bc \<noteq> None" and "ValidateBlockLocked P (PoS_ConsensusEngine P) b bc = (bc1, Ok ())"
    and "b_Header b = Some h"
    and ev: "fold (process_evidence (PoS_ConsensusEngine P)) (b_Evidence b) (bc1\<lparr>bc_WorldState := ws\<rparr>)
           = bc1\<lparr>bc_WorldState := ws, bc_consensus := c\<rparr>"
    and "addBlockWithoutValidationLocked P so (PoS_ConsensusEngine P) b
           (bc1\<lparr>bc_consensus := c, bc_WorldState := AddBalance (hd_Coinbase h) 5 ws\<rparr>) = (bc', r)"
  shows "r = Panic TypeAssertion"
proof -
  have "bc_consensus (bc1\<lparr>bc_WorldState := ws\<rparr>) \<noteq> None"
    using ValidateBlockLocked_consensus [OF assms(2,1)] by simp
  from process_evidence_Some [OF this, of "PoS_ConsensusEngine P" "b_Evidence b"]
  have "bc_consensus (bc1\<lparr>bc_consensus := c, bc_WorldState := AddBalance (hd_Coinbase h) 5 ws\<rparr>) \<noteq> None"
    by (simp add: ev)
  from addBlock_PoS_panics [OF this assms(3)] assms(5) Block_Hash_header [OF assms(3)] show ?thesis
    by (metis snd_conv)
qed

lemma AddBlock_PoS:
  assumes "bc_consensus bc \<noteq> None" and "AddBlock P so (PoS_ConsensusEngine P) b bc = Some (bc', r)"
  shows "r = Panic TypeAssertion
    \<or> (ValidateBlockLocked P (PoS_ConsensusEngine P) b bc = (bc', r) \<and> r \<noteq> Ok ())
    \<or> (\<exists>ws. executeTransactions P (b_Transactions b) (bc_WorldState bc) = Some (ws, r) \<and> r \<noteq> Ok ())"
  using assms(2)
proof (cases rule: AddBlockE)
  case (stored bc1 ws h c)
  then show ?thesis using AddBlock_PoS_stored [OF assms(1) stored(1,3-5)] by simp
qed auto

text \<open>
  The engine records a header as seen before the block's signature is checked: after a block that
  only claims to come from the proposer, the proposer's own block is taken for a double signing.
\<close>

lemma PoS_forged_block_blocks_proposer:
  assumes bc: "bc_consensus bc = Some c" "heightLocked bc < heightLocked bc + 1"
      "getHeaderLocked bc (heightLocked bc) = Ok prev"
    and forged: "b_Header f = Some fh" "hd_Height fh = heightLocked bc + 1"
      "hd_PrevBlockHash fh = BlockHasher_Hash P prev"
      "snd (PoS_VerifyHeader P fh c) = Ok ()" "Block_Verify P f = Err e"
    and honest: "b_Header b = Some h" "hd_Height h = heightLocked bc + 1"
      "hd_PrevBlockHash h = BlockHasher_Hash P prev" "hd_Coinbase h = hd_Coinbase fh"
      "BlockHasher_Hash P h \<noteq> BlockHasher_Hash P fh"
  shows "\<exists>bc'. AddBlock P so (PoS_ConsensusEngine P) f bc = Some (bc', Err e) \<and>
    (\<exists>bc''. AddBlock P so (PoS_ConsensusEngine P) b bc' = Some (bc'', Err (ErrDoubleSign (hd_Coinbase h) (hd_Height h))))"
proof -
  define c' where "c' = fst (PoS_VerifyHeader P fh c)"
  define bc' where "bc' = bc\<lparr>bc_consensus := Some c'\<rparr>"
  have v1: "PoS_VerifyHeader P fh c = (c', Ok ())" by (simp add: c'_def prod_eq_iff forged(4))
  have "ValidateBlockLocked P (PoS_ConsensusEngine P) f bc = (bc', Err e)"
    using ValidateBlockLocked_upto_consensus [OF forged(1,2) bc(2,3) forged(3)] bc(1) v1 forged(5)
    by (simp add: verify_consensus_def PoS_ConsensusEngine_def bc'_def)
  then have 1: "AddBlock P so (PoS_ConsensusEngine P) f bc = Some (bc', Err e)" by (simp add: AddBlock_def)
  have seen: "seen_hash c' (hd_Height h) (hd_Coinbase h) = Some (BlockHasher_Hash P fh)"
    unfolding c'_def using PoS_VerifyHeader_records [OF forged(4)] honest(2,4) forged(2) by simp
  have "selectProposerLocked c' (hd_Height h) = Ok (hd_Coinbase h)"
    using forged(2,4) honest(2,4) by (simp add: c'_def PoS_VerifyHeader_Ok)
  with seen honest(5) have v2: "snd (PoS_VerifyHeader P h c') = Err (ErrDoubleSign (hd_Coinbase h) (hd_Height h))"
    by (auto simp: PoS_VerifyHeader_def seen_hash_def Let_def Header_Hash_def split: option.splits)
  have "heightLocked bc' = heightLocked bc" "getHeaderLocked bc' = getHeaderLocked bc"
    by (simp_all add: bc'_def heightLocked_def getHeaderLocked_def fun_eq_iff)
  then have "snd (ValidateBlockLocked P (PoS_ConsensusEngine P) b bc') = Err (ErrDoubleSign (hd_Coinbase h) (hd_Height h))"
    using ValidateBlockLocked_upto_consensus [of b h bc' prev P] bc honest v2
    by (simp add: verify_consensus_def PoS_ConsensusEngine_def bc'_def bind_state_def case_prod_unfold)
  then have "\<exists>bc''. AddBlock P so (PoS_ConsensusEngine P) b bc'
      = Some (bc'', Err (ErrDoubleSign (hd_Coinbase h) (hd_Height h)))"
    by (cases "ValidateBlockLocked P (PoS_ConsensusEngine P) b bc'") (simp add: AddBlock_def)
  with 1 show ?thesis by blast
qed

end
