(* ===== verification/LevelDB.thy ===== *)
theory LevelDB
  imports Storage
begin

text \<open>
  The persistent block store of src/core/leveldb_storage.go. The database is the parameter
  \<open>L\<close>: a put and a get on byte keys, either of which may fail. A block is written under its
  height and under its hash and every transaction under its hash, in one key space: the
  prefixes have to keep the three kinds of key apart. The prefix slices are initialised from
  constants, so \<open>append\<close> on them copies.
\<close>

section \<open>Definitions\<close>

record 'd leveldb =
  ldb_Put :: "byte list \<Rightarrow> byte list \<Rightarrow> 'd \<Rightarrow> 'd \<times> unit res"
  ldb_Get :: "'d \<Rightarrow> byte list \<Rightarrow> byte list res"

definition str_bytes :: "string \<Rightarrow> byte list" where
  "str_bytes s = map of_char s"

definition blockPrefix :: "byte list" where
  "blockPrefix = str_bytes ''block_''"

definition blockHashPrefix :: "byte list" where
  "blockHashPrefix = str_bytes ''blockhash_''"

definition txPrefix :: "byte list" where
  "txPrefix = str_bytes ''tx_''"

definition heightToBytes :: "u32 \<Rightarrow> byte list" where
  "heightToBytes h = PutUint32 h"

definition heightKey :: "u32 \<Rightarrow> byte list" where
  "heightKey h = blockPrefix @ heightToBytes h"

definition hashKey :: "hash \<Rightarrow> byte list" where
  "hashKey h = blockHashPrefix @ Hash_ToSlice h"

definition txKey :: "hash \<Rightarrow> byte list" where
  "txKey h = txPrefix @ Hash_ToSlice h"

text \<open>\<open>OpenFile\<close> is the database that \<open>leveldb.OpenFile\<close> finds under a path.\<close>

definition NewLevelDBStore :: "(string \<Rightarrow> 'd res) \<Rightarrow> string \<Rightarrow> 'd res" where
  "NewLevelDBStore OpenFile path = bind_outcome (OpenFile path) (\<lambda>db. Ok db)"

primrec LevelDBStore_Put_txs ::
  "'x block_prims_scheme \<Rightarrow> 'd leveldb \<Rightarrow> Transaction list \<Rightarrow> 'd \<Rightarrow> 'd \<times> unit res" where
  "LevelDBStore_Put_txs P L [] d = (d, Ok ())"
| "LevelDBStore_Put_txs P L (tx # txs) d =
     bind_state (d, Transaction_Encode P tx) (\<lambda>bs d.
     bind_state (ldb_Put L (txKey (fst (Transaction_Hash (TxHasher_Hash P) tx))) bs d) (\<lambda>_ d.
     LevelDBStore_Put_txs P L txs d))"

definition LevelDBStore_Put ::
  "'x block_prims_scheme \<Rightarrow> 'd leveldb \<Rightarrow> Block \<Rightarrow> 'd \<Rightarrow> 'd \<times> unit res" where
  "LevelDBStore_Put P L b d =
     bind_state (d, Block_Encode P b) (\<lambda>bs d.
       (case b_Header b of
          None \<Rightarrow> (d, Panic NilDereference)
        | Some h \<Rightarrow>
            bind_state (ldb_Put L (heightKey (hd_Height h)) bs d) (\<lambda>_ d.
            bind_state (d, Block_Hash P b) (\<lambda>(bh, b') d.
            bind_state (ldb_Put L (hashKey bh) bs d) (\<lambda>_ d.
            LevelDBStore_Put_txs P L (b_Transactions b') d)))))"

definition LevelDBStore_Get :: "'x block_prims_scheme \<Rightarrow> 'd leveldb \<Rightarrow> 'd \<Rightarrow> u32 \<Rightarrow> Block res" where
  "LevelDBStore_Get P L d height =
     (case ldb_Get L d (heightKey height) of
        Err e \<Rightarrow> Err (ErrNoBlockDB height e)
      | Panic p \<Rightarrow> Panic p
      | Ok bs \<Rightarrow> Block_Decode P bs)"

definition LevelDBStore_GetByHash :: "'x block_prims_scheme \<Rightarrow> 'd leveldb \<Rightarrow> 'd \<Rightarrow> hash \<Rightarrow> Block res" where
  "LevelDBStore_GetByHash P L d h =
     (case ldb_Get L d (hashKey h) of
        Err e \<Rightarrow> Err (ErrNoBlockHashDB h e)
      | Panic p \<Rightarrow> Panic p
      | Ok bs \<Rightarrow> Block_Decode P bs)"

definition LevelDBStore_GetTxByHash ::
  "'x block_prims_scheme \<Rightarrow> 'd leveldb \<Rightarrow> 'd \<Rightarrow> hash \<Rightarrow> Transaction res" where
  "LevelDBStore_GetTxByHash P L d h =
     (case ldb_Get L d (txKey h) of
        Err e \<Rightarrow> Err (ErrNoTxDB h e)
      | Panic p \<Rightarrow> Panic p
      | Ok bs \<Rightarrow> Transaction_Decode P bs)"

definition LevelDBStore_Storage :: "'x block_prims_scheme \<Rightarrow> 'd leveldb \<Rightarrow> 'd Storage" where
  "LevelDBStore_Storage P L =
     \<lparr>st_Put = LevelDBStore_Put P L, st_Get = LevelDBStore_Get P L,
      st_GetByHash = LevelDBStore_GetByHash P L, st_GetTxByHash = LevelDBStore_GetTxByHash P L\<rparr>"

text \<open>What the code relies on of goleveldb: a get returns the last successful put of the key.\<close>

definition leveldb_laws :: "'d leveldb \<Rightarrow> bool" where
  "leveldb_laws L \<longleftrightarrow>
     (\<forall>k v d d'. ldb_Put L k v d = (d', Ok ()) \<longrightarrow>
        ldb_Get L d' k = Ok v \<and> (\<forall>k'. k' \<noteq> k \<longrightarrow> ldb_Get L d' k' = ldb_Get L d k'))"

text \<open>
  A put is atomic: whether it succeeds or not, no other key changes, and its own key has the old
  or the new value.
\<close>

definition leveldb_atomic :: "'d leveldb \<Rightarrow> bool" where
  "leveldb_atomic L \<longleftrightarrow>
     (\<forall>k v d. let d' = fst (ldb_Put L k v d) in
        (\<forall>k'. k' \<noteq> k \<longrightarrow> ldb_Get L d' k' = ldb_Get L d k') \<and> (ldb_Get L d' k = ldb_Get L d k \<or> ldb_Get L d' k = Ok v))"

section \<open>The key space\<close>

lemma length_keys [simp]:
  "length (heightKey n) = 10" "length (hashKey h) = 42" "length (txKey h) = 35"
  by (simp_all add: heightKey_def hashKey_def txKey_def blockPrefix_def blockHashPrefix_def
      txPrefix_def heightToBytes_def str_bytes_def)

lemma keys_disjoint [simp]:
  "heightKey n \<noteq> hashKey h" "heightKey n \<noteq> txKey h'" "hashKey h \<noteq> txKey h'"
  "hashKey h \<noteq> heightKey n" "txKey h' \<noteq> heightKey n" "txKey h' \<noteq> hashKey h"
  by (metis length_keys numeral_eq_iff semiring_norm)+

lemma keys_inj [simp]:
  "heightKey n = heightKey m \<longleftrightarrow> n = m" "hashKey h = hashKey k \<longleftrightarrow> h = k" "txKey h = txKey k \<longleftrightarrow> h = k"
  by (auto simp: heightKey_def hashKey_def txKey_def heightToBytes_def hash_bytes_inject dest: PutUint32_inj)

lemma ldb_get_put:
  assumes "leveldb_laws L" and "ldb_Put L k v d = (d', Ok ())"
  shows "ldb_Get L d' k' = (if k' = k then Ok v else ldb_Get L d k')"
  using assms by (simp add: leveldb_laws_def)

section \<open>The contract\<close>

lemma Put_txs_other:
  assumes "leveldb_laws L" and "LevelDBStore_Put_txs P L txs d = (d', Ok ())"
    and "\<And>tx. tx \<in> set txs \<Longrightarrow> k \<noteq> txKey (fst (Transaction_Hash (TxHasher_Hash P) tx))"
  shows "ldb_Get L d' k = ldb_Get L d k"
  using assms(2,3)
proof (induction txs arbitrary: d)
  case (Cons tx txs)
  from Cons.prems(1) obtain bs d1 where
    put: "ldb_Put L (txKey (fst (Transaction_Hash (TxHasher_Hash P) tx))) bs d = (d1, Ok ())"
    and "LevelDBStore_Put_txs P L txs d1 = (d', Ok ())"
    by (auto simp: bind_state_eq_Ok)
  with Cons.IH Cons.prems(2) have "ldb_Get L d' k = ldb_Get L d1 k" by simp
  also have "\<dots> = ldb_Get L d k"
    using Cons.prems(2) by (simp add: ldb_get_put [OF assms(1) put])
  finally show ?case .
qed simp

lemma Put_txs_find:
  assumes "leveldb_laws L" and "LevelDBStore_Put_txs P L txs d = (d', Ok ())"
    and "tx \<in> set txs" and "fst (Transaction_Hash (TxHasher_Hash P) tx) = h"
  shows "\<exists>t\<in>set txs. fst (Transaction_Hash (TxHasher_Hash P) t) = h \<and>
           (\<exists>bs. Transaction_Encode P t = Ok bs \<and> ldb_Get L d' (txKey h) = Ok bs)"
  using assms(2-)
proof (induction txs arbitrary: d tx)
  case (Cons t txs)
  let ?h = "\<lambda>t. fst (Transaction_Hash (TxHasher_Hash P) t)"
  from Cons.prems(1) obtain bs d1 where enc: "Transaction_Encode P t = Ok bs"
    and put: "ldb_Put L (txKey (?h t)) bs d = (d1, Ok ())"
    and rest: "LevelDBStore_Put_txs P L txs d1 = (d', Ok ())"
    by (auto simp: bind_state_eq_Ok)
  show ?case
  proof (cases "\<exists>t'\<in>set txs. ?h t' = h")
    case True
    with Cons.IH [OF rest] show ?thesis by (metis list.set_intros(2))
  next
    case False
    with Cons.prems have "?h t = h" by auto
    moreover have "ldb_Get L d' (txKey h) = ldb_Get L d1 (txKey h)"
      by (rule Put_txs_other [OF assms(1) rest]) (use False in auto)
    ultimately show ?thesis using enc ldb_get_put [OF assms(1) put] by auto
  qed
qed simp

lemma LevelDBStore_PutE:
  assumes "leveldb_laws L" and "LevelDBStore_Put P L b d = (d', Ok ())"
  obtains bs h bh d2 where "b_Header b = Some h" "Block_Encode P b = Ok bs"
    "block_memo_ok P b \<Longrightarrow> bh = BlockHasher_Hash P h"
    "\<And>n. ldb_Get L d' (heightKey n) = (if n = hd_Height h then Ok bs else ldb_Get L d (heightKey n))"
    "\<And>k. ldb_Get L d' (hashKey k) = (if k = bh then Ok bs else ldb_Get L d (hashKey k))"
    "LevelDBStore_Put_txs P L (b_Transactions b) d2 = (d', Ok ())"
proof -
  from assms(2) obtain bs h bh b' d1 d2 where enc: "Block_Encode P b = Ok bs"
    and h: "b_Header b = Some h" and p1: "ldb_Put L (heightKey (hd_Height h)) bs d = (d1, Ok ())"
    and bh: "Block_Hash P b = Ok (bh, b')" and p2: "ldb_Put L (hashKey bh) bs d1 = (d2, Ok ())"
    and txs: "LevelDBStore_Put_txs P L (b_Transactions b') d2 = (d', Ok ())"
    by (auto simp: LevelDBStore_Put_def bind_state_eq_Ok split: option.splits)
  have b': "b_Transactions b' = b_Transactions b"
    using bh by (auto simp: Block_Hash_def Let_def split: if_splits option.splits)
  have keep: "ldb_Get L d' k = ldb_Get L d2 k" if "\<And>x. k \<noteq> txKey x" for k
    by (rule Put_txs_other [OF assms(1) txs]) (rule that)
  show thesis
  proof (rule that [OF h enc])
    show "bh = BlockHasher_Hash P h" if "block_memo_ok P b"
      using Block_Hash_value [OF that h] bh by simp
    show "ldb_Get L d' (heightKey n) = (if n = hd_Height h then Ok bs else ldb_Get L d (heightKey n))" for n
      by (simp add: keep ldb_get_put [OF assms(1) p2] ldb_get_put [OF assms(1) p1])
    show "ldb_Get L d' (hashKey k) = (if k = bh then Ok bs else ldb_Get L d (hashKey k))" for k
      by (simp add: keep ldb_get_put [OF assms(1) p2] ldb_get_put [OF assms(1) p1])
    show "LevelDBStore_Put_txs P L (b_Transactions b) d2 = (d', Ok ())" using txs b' by simp
  qed
qed

lemma LevelDBStore_Storage_sel [simp]:
  "st_Put (LevelDBStore_Storage P L) = LevelDBStore_Put P L" "st_Get (LevelDBStore_Storage P L) = LevelDBStore_Get P L"
  "st_GetByHash (LevelDBStore_Storage P L) = LevelDBStore_GetByHash P L"
  "st_GetTxByHash (LevelDBStore_Storage P L) = LevelDBStore_GetTxByHash P L"
  by (simp_all add: LevelDBStore_Storage_def)

lemma LevelDBStore_Put_finds_tx:
  assumes "leveldb_laws L" and "marshal_roundtrip P" and "gob_tx_roundtrip P"
    and "LevelDBStore_Put P L b d = (d', Ok ())" and "block_memos_ok P b" and "tx \<in> set (b_Transactions b)"
  shows "\<exists>tx'\<in>set (b_Transactions b). TxHasher_Hash P tx' = TxHasher_Hash P tx \<and>
    (\<exists>tx''. LevelDBStore_GetTxByHash P L d' (TxHasher_Hash P tx) = Ok tx'' \<and> tx_exported tx'' = tx_exported tx')"
proof -
  note val = block_memos_hash [OF assms(5)]
  obtain d2 where "LevelDBStore_Put_txs P L (b_Transactions b) d2 = (d', Ok ())"
    using assms(4) by (rule LevelDBStore_PutE [OF assms(1)])
  from Put_txs_find [OF assms(1) this assms(6) val [OF assms(6)]] obtain t bs where t: "t \<in> set (b_Transactions b)"
    "TxHasher_Hash P t = TxHasher_Hash P tx" "Transaction_Encode P t = Ok bs"
    "ldb_Get L d' (txKey (TxHasher_Hash P tx)) = Ok bs"
    using val by auto
  then have "LevelDBStore_GetTxByHash P L d' (TxHasher_Hash P tx) = Ok (tx_exported t)"
    using Transaction_gob_roundtrip [OF assms(2,3)] by (simp add: LevelDBStore_GetTxByHash_def)
  with t show ?thesis by (intro bexI [of _ t]) (auto simp: tx_exported_def)
qed

lemma LevelDBStore_block_store:
  assumes laws: "leveldb_laws L" and rt: "marshal_roundtrip P" "gob_block_roundtrip P" "gob_tx_roundtrip P"
  shows "block_store P (LevelDBStore_Storage P L)"
proof
  fix b d d' h n tx
  assume "st_Put (LevelDBStore_Storage P L) b d = (d', Ok ())"
  then have put: "LevelDBStore_Put P L b d = (d', Ok ())" by simp
  note E = LevelDBStore_PutE [OF laws put] and get = LevelDBStore_Get_def LevelDBStore_GetByHash_def
  have dec: "Block_Decode P bs = Ok (block_exported b)" if "Block_Encode P b = Ok bs" for bs
    using rt(1,2) that by (rule Block_gob_roundtrip)
  have idem: "block_exported (block_exported b) = block_exported b"
    by (simp add: block_exported_def tx_exported_def)
  show "\<exists>h. b_Header b = Some h" by (rule E) blast
  show "\<exists>b'. st_Get (LevelDBStore_Storage P L) d' (hd_Height h) = Ok b' \<and> block_exported b' = block_exported b"
    if "b_Header b = Some h"
    by (rule E) (use that dec idem in \<open>simp add: get\<close>)
  show "st_Get (LevelDBStore_Storage P L) d' n = st_Get (LevelDBStore_Storage P L) d n"
    if "b_Header b = Some h" and "n \<noteq> hd_Height h"
    by (rule E) (use that in \<open>simp add: get\<close>)
  show "\<exists>b'. st_GetByHash (LevelDBStore_Storage P L) d' (BlockHasher_Hash P h) = Ok b'
          \<and> block_exported b' = block_exported b"
    if "b_Header b = Some h" and "block_memos_ok P b"
    by (rule E) (use that dec idem in \<open>simp add: get block_memos_ok_def\<close>)
  show "\<exists>tx'\<in>set (b_Transactions b). TxHasher_Hash P tx' = TxHasher_Hash P tx \<and>
      (\<exists>tx''. st_GetTxByHash (LevelDBStore_Storage P L) d' (TxHasher_Hash P tx) = Ok tx'' \<and> tx_exported tx'' = tx_exported tx')"
    if "block_memos_ok P b" and "tx \<in> set (b_Transactions b)"
    using LevelDBStore_Put_finds_tx [OF laws rt(1,3) put that] by simp
qed

section \<open>Failed writes\<close>

lemma ldb_put_other: "leveldb_atomic L \<Longrightarrow> ldb_Put L k v d = (d', r) \<Longrightarrow> k' \<noteq> k \<Longrightarrow> ldb_Get L d' k' = ldb_Get L d k'"
  unfolding leveldb_atomic_def Let_def by (metis fst_conv)

lemma ldb_put_own:
  "leveldb_atomic L \<Longrightarrow> ldb_Put L k v d = (d', r) \<Longrightarrow> ldb_Get L d' k = ldb_Get L d k \<or> ldb_Get L d' k = Ok v"
  unfolding leveldb_atomic_def Let_def by (metis fst_conv)

lemma Put_txs_heights:
  assumes "leveldb_atomic L" and "LevelDBStore_Put_txs P L txs d = (d', r)"
  shows "ldb_Get L d' (heightKey n) = ldb_Get L d (heightKey n)"
  using assms(2)
proof (induction txs arbitrary: d)
  case (Cons tx txs)
  show ?case
  proof (cases "Transaction_Encode P tx")
    case (Ok bs)
    obtain d1 q where put: "ldb_Put L (txKey (fst (Transaction_Hash (TxHasher_Hash P) tx))) bs d = (d1, q)" by fastforce
    have "ldb_Get L d1 (heightKey n) = ldb_Get L d (heightKey n)" using ldb_put_other [OF assms(1) put] by simp
    then show ?thesis using Cons Ok put by (cases q) auto
  qed (use Cons.prems in simp_all)
qed simp

lemma LevelDBStore_Put_heights:
  assumes "leveldb_atomic L" and "LevelDBStore_Put P L b d = (d', r)" and "b_Header b = Some h"
  shows "ldb_Get L d' (heightKey n) = ldb_Get L d (heightKey n) \<or>
    n = hd_Height h \<and> (\<exists>bs. Block_Encode P b = Ok bs \<and> ldb_Get L d' (heightKey n) = Ok bs)"
proof (cases "Block_Encode P b")
  case (Ok bs)
  obtain d1 q where p1: "ldb_Put L (heightKey (hd_Height h)) bs d = (d1, q)" by fastforce
  have 1: "ldb_Get L d1 (heightKey n) = ldb_Get L d (heightKey n) \<or> n = hd_Height h \<and> ldb_Get L d1 (heightKey n) = Ok bs"
    using ldb_put_other [OF assms(1) p1, of "heightKey n"] ldb_put_own [OF assms(1) p1] by auto
  obtain bh b1 where bh: "Block_Hash P b = Ok (bh, b1)" using Block_Hash_header [OF assms(3), of P] by fastforce
  obtain d2 q2 where p2: "ldb_Put L (hashKey bh) bs d1 = (d2, q2)" by fastforce
  have 2: "ldb_Get L d2 (heightKey n) = ldb_Get L d1 (heightKey n)" using ldb_put_other [OF assms(1) p2] by simp
  have "ldb_Get L d' (heightKey n) = ldb_Get L d1 (heightKey n)"
    using assms(2,3) Ok p1 bh p2 2
    by (cases q; cases q2) (auto simp: LevelDBStore_Put_def dest: Put_txs_heights [OF assms(1), where n = n])
  then show ?thesis using 1 Ok by auto
qed (use assms(2) in \<open>simp_all add: LevelDBStore_Put_def\<close>)

lemma LevelDBStore_Put_other:
  assumes "leveldb_atomic L" and "LevelDBStore_Put P L b d = (d', r)" and "b_Header b = Some h" and "n \<noteq> hd_Height h"
  shows "LevelDBStore_Get P L d' n = LevelDBStore_Get P L d n"
  using LevelDBStore_Put_heights [OF assms(1-3), of n] assms(4) by (simp add: LevelDBStore_Get_def)

lemma LevelDBStore_durable_store:
  assumes "leveldb_laws L" and "leveldb_atomic L" and "marshal_roundtrip P" and "gob_block_roundtrip P" and "gob_tx_roundtrip P"
  shows "durable_store P (LevelDBStore_Storage P L)"
proof (intro durable_store.intro durable_store_axioms.intro LevelDBStore_block_store [OF assms(1,3-5)])
  fix b d d' e h n b'
  assume "st_Put (LevelDBStore_Storage P L) b d = (d', Err e)" and h: "b_Header b = Some h"
    and get: "st_Get (LevelDBStore_Storage P L) d' n = Ok b'"
  then have put: "LevelDBStore_Put P L b d = (d', Err e)" by simp
  have "Block_Decode P bs = Ok (block_exported b)" if "Block_Encode P b = Ok bs" for bs
    using assms(3,4) that by (rule Block_gob_roundtrip)
  then show "st_Get (LevelDBStore_Storage P L) d n = Ok b' \<or> n = hd_Height h \<and> b_Header b' = Some h"
    using LevelDBStore_Put_heights [OF assms(2) put h, of n] get h by (auto simp: LevelDBStore_Get_def)
qed

end
