(* ===== verification/GoList.thy ===== *)
theory GoList
  imports Prelude
begin

text \<open>
  The generic list of src/types/list.go. A \<open>List[T]\<close> is its slice \<open>Data\<close>; methods with a pointer
  receiver return the new list. The indices are Go's \<open>int\<close>. \<open>reflect.DeepEqual\<close> on the values
  stored here is equality.
\<close>

section \<open>Definitions\<close>

record 'a golist =
  Data :: "'a list"

definition NewList :: "'a golist" where
  "NewList = \<lparr>Data = []\<rparr>"

definition List_Len :: "'a golist \<Rightarrow> int" where
  "List_Len l = int (length (Data l))"

definition go_index :: "'a list \<Rightarrow> int \<Rightarrow> ('e, 'a) outcome" where
  "go_index xs i = (if 0 \<le> i \<and> i < int (length xs) then Ok (xs ! nat i) else Panic IndexOutOfRange)"

definition List_Get :: "'a golist \<Rightarrow> int \<Rightarrow> ('e, 'a) outcome" where
  "List_Get l index =
     (if index > int (length (Data l)) - 1 then Panic (BadLength (nat index) (length (Data l)))
      else go_index (Data l) index)"

definition List_Insert :: "'a golist \<Rightarrow> 'a \<Rightarrow> 'a golist" where
  "List_Insert l v = l\<lparr>Data := Data l @ [v]\<rparr>"

definition List_Clear :: "'a golist \<Rightarrow> 'a golist" where
  "List_Clear l = l\<lparr>Data := []\<rparr>"

fun GetIndex_loop :: "'a \<Rightarrow> int \<Rightarrow> 'a list \<Rightarrow> int" where
  "GetIndex_loop v i [] = -1"
| "GetIndex_loop v i (x # xs) = (if v = x then i else GetIndex_loop v (i + 1) xs)"

definition List_GetIndex :: "'a golist \<Rightarrow> 'a \<Rightarrow> int" where
  "List_GetIndex l v = GetIndex_loop v 0 (Data l)"

definition List_Pop :: "'a golist \<Rightarrow> int \<Rightarrow> ('e, 'a golist) outcome" where
  "List_Pop l index =
     (if 0 \<le> index \<and> index < int (length (Data l))
      then Ok (l\<lparr>Data := take (nat index) (Data l) @ drop (nat index + 1) (Data l)\<rparr>)
      else Panic SliceOutOfRange)"

definition List_Remove :: "'a golist \<Rightarrow> 'a \<Rightarrow> ('e, 'a golist) outcome" where
  "List_Remove l v =
     (let index = List_GetIndex l v in if index = -1 then Ok l else List_Pop l index)"

definition List_Contains :: "'a golist \<Rightarrow> 'a \<Rightarrow> bool" where
  "List_Contains l v = list_ex (\<lambda>x. x = v) (Data l)"

definition List_Last :: "'a golist \<Rightarrow> ('e, 'a) outcome" where
  "List_Last l = go_index (Data l) (List_Len l - 1)"

section \<open>Lemmas\<close>

lemma GetIndex_loop_notin: "v \<notin> set xs \<Longrightarrow> GetIndex_loop v i xs = -1"
  by (induction xs arbitrary: i) auto

lemma GetIndex_loop_split:
  "v \<notin> set ys \<Longrightarrow> GetIndex_loop v i (ys @ v # zs) = i + int (length ys)"
  by (induction ys arbitrary: i) auto

lemma List_GetIndex_cases:
  obtains (absent) "v \<notin> set (Data l)" "List_GetIndex l v = -1"
  | (present) ys zs where "Data l = ys @ v # zs" "v \<notin> set ys" "List_GetIndex l v = int (length ys)"
proof (cases "v \<in> set (Data l)")
  case True
  then obtain ys zs where "Data l = ys @ v # zs" and "v \<notin> set ys"
    by (auto dest: split_list_first)
  then show ?thesis
    by (intro present) (auto simp: List_GetIndex_def GetIndex_loop_split)
next
  case False
  then show ?thesis
    by (intro absent) (auto simp: List_GetIndex_def GetIndex_loop_notin)
qed

text \<open>\<open>Remove\<close> never panics and removes the first occurrence only.\<close>

lemma List_Remove_remove1: "List_Remove l v = Ok (l\<lparr>Data := remove1 v (Data l)\<rparr>)"
proof (cases rule: List_GetIndex_cases [of v l])
  case absent
  then show ?thesis by (simp add: List_Remove_def remove1_idem)
next
  case (present ys zs)
  have "List_Remove l v = Ok (l\<lparr>Data := ys @ zs\<rparr>)"
    using present by (simp add: List_Remove_def List_Pop_def)
  moreover have "remove1 v (Data l) = ys @ zs"
    using present by (simp add: remove1_append)
  ultimately show ?thesis by simp
qed

lemma List_Contains_iff: "List_Contains l v \<longleftrightarrow> v \<in> set (Data l)"
  by (auto simp: List_Contains_def list_ex_iff)

lemma List_Get_0: "List_Get l 0 = (case Data l of [] \<Rightarrow> Panic (BadLength 0 0) | x # _ \<Rightarrow> Ok x)"
  by (cases "Data l") (auto simp: List_Get_def go_index_def)

end
