(* ===== verification/TxPool.thy ===== *)
theory TxPool
  imports Transaction GoList
begin

text \<open>
  The transaction pool of src/network/txpool.go (the commented-out older version at the end of that
  file is not code). Both maps of a pool hold pointers to the same transactions, whose hashes are
  computed before they are inserted. The methods of \<open>TxSortedMap\<close> are atomic by its lock; those of
  \<open>TxPool\<close> are modelled as run one after the other. The only abrupt end is a panic.
\<close>

section \<open>Definitions\<close>

record TxSortedMap =
  sm_lookup :: "hash \<rightharpoonup> Transaction"
  sm_txx :: "Transaction golist"

definition NewTxSortedMap :: TxSortedMap where
  "NewTxSortedMap = \<lparr>sm_lookup = Map.empty, sm_txx = NewList\<rparr>"

definition TxSortedMap_First :: "'x prims_scheme \<Rightarrow> TxSortedMap \<Rightarrow> Transaction option res" where
  "TxSortedMap_First P t =
     bind_outcome (List_Get (sm_txx t) 0)
       (\<lambda>first. Ok (sm_lookup t (fst (Transaction_Hash (TxHasher_Hash P) first))))"

definition TxSortedMap_Get :: "TxSortedMap \<Rightarrow> hash \<Rightarrow> Transaction option" where
  "TxSortedMap_Get t h = sm_lookup t h"

definition TxSortedMap_Add :: "'x prims_scheme \<Rightarrow> Transaction \<Rightarrow> TxSortedMap \<Rightarrow> TxSortedMap" where
  "TxSortedMap_Add P tx t =
     (let (h, tx) = Transaction_Hash (TxHasher_Hash P) tx in
      case sm_lookup t h of
        None \<Rightarrow> t\<lparr>sm_lookup := (sm_lookup t)(h \<mapsto> tx), sm_txx := List_Insert (sm_txx t) tx\<rparr>
      | Some _ \<Rightarrow> t)"

definition TxSortedMap_Remove :: "hash \<Rightarrow> TxSortedMap \<Rightarrow> TxSortedMap res" where
  "TxSortedMap_Remove h t =
     bind_outcome (case sm_lookup t h of None \<Rightarrow> Ok (sm_txx t) | Some tx \<Rightarrow> List_Remove (sm_txx t) tx)
       (\<lambda>txx. Ok (t\<lparr>sm_lookup := (sm_lookup t)(h := None), sm_txx := txx\<rparr>))"

definition TxSortedMap_Count :: "TxSortedMap \<Rightarrow> int" where
  "TxSortedMap_Count t = int (card (dom (sm_lookup t)))"

definition TxSortedMap_Contains :: "TxSortedMap \<Rightarrow> hash \<Rightarrow> bool" where
  "TxSortedMap_Contains t h \<longleftrightarrow> sm_lookup t h \<noteq> None"

definition TxSortedMap_Clear :: "TxSortedMap \<Rightarrow> TxSortedMap" where
  "TxSortedMap_Clear t = t\<lparr>sm_lookup := Map.empty, sm_txx := List_Clear (sm_txx t)\<rparr>"

record TxPool =
  pool_all :: TxSortedMap
  pool_pending :: TxSortedMap
  pool_maxLength :: int

definition NewTxPool :: "int \<Rightarrow> TxPool" where
  "NewTxPool maxLength =
     \<lparr>pool_all = NewTxSortedMap, pool_pending = NewTxSortedMap, pool_maxLength = maxLength\<rparr>"

definition TxPool_prune :: "'x prims_scheme \<Rightarrow> TxPool \<Rightarrow> TxPool res" where
  "TxPool_prune P p =
     (if TxSortedMap_Count (pool_all p) = pool_maxLength p
      then bind_outcome (TxSortedMap_First P (pool_all p))
        (\<lambda>oldest. case oldest of
           None \<Rightarrow> Panic NilDereference
         | Some tx \<Rightarrow>
             bind_outcome (TxSortedMap_Remove (fst (Transaction_Hash (TxHasher_Hash P) tx)) (pool_all p))
               (\<lambda>all. Ok (p\<lparr>pool_all := all\<rparr>)))
      else Ok p)"

definition TxPool_Add :: "'x prims_scheme \<Rightarrow> Transaction \<Rightarrow> TxPool \<Rightarrow> TxPool res" where
  "TxPool_Add P tx p =
     bind_outcome (TxPool_prune P p)
       (\<lambda>p. let (h, tx) = Transaction_Hash (TxHasher_Hash P) tx in
          Ok (if \<not> TxSortedMap_Contains (pool_all p) h
              then p\<lparr>pool_all := TxSortedMap_Add P tx (pool_all p),
                     pool_pending := TxSortedMap_Add P tx (pool_pending p)\<rparr>
              else p))"

definition TxPool_Contains :: "TxPool \<Rightarrow> hash \<Rightarrow> bool" where
  "TxPool_Contains p h = TxSortedMap_Contains (pool_all p) h"

definition Pending :: "TxPool \<Rightarrow> Transaction list" where
  "Pending p = Data (sm_txx (pool_pending p))"

definition ClearPending :: "TxPool \<Rightarrow> TxPool" where
  "ClearPending p = p\<lparr>pool_pending := TxSortedMap_Clear (pool_pending p)\<rparr>"

definition PendingCount :: "TxPool \<Rightarrow> int" where
  "PendingCount p = TxSortedMap_Count (pool_pending p)"

section \<open>The invariant of a sorted map\<close>

text \<open>
  The lookup table is exactly the index of the list by transaction hash, no two listed
  transactions have the same hash, and the memoised hashes are right.
\<close>

definition index_of :: "'x prims_scheme \<Rightarrow> Transaction list \<Rightarrow> (hash \<rightharpoonup> Transaction)" where
  "index_of P txs = map_of (map (\<lambda>tx. (TxHasher_Hash P tx, tx)) txs)"

definition sm_ok :: "'x prims_scheme \<Rightarrow> TxSortedMap \<Rightarrow> bool" where
  "sm_ok P t \<longleftrightarrow> list_all (tx_memo_ok P) (Data (sm_txx t)) \<and>
     distinct (map (TxHasher_Hash P) (Data (sm_txx t))) \<and> sm_lookup t = index_of P (Data (sm_txx t))"

lemma dom_index_of: "dom (index_of P txs) = TxHasher_Hash P ` set txs"
  by (auto simp: index_of_def dom_map_of_conv_image_fst image_iff)

lemma index_of_None: "index_of P txs h = None \<longleftrightarrow> h \<notin> TxHasher_Hash P ` set txs"
  using dom_index_of [of P txs] by blast

lemma index_of_snoc:
  "TxHasher_Hash P tx \<notin> TxHasher_Hash P ` set txs \<Longrightarrow>
     index_of P (txs @ [tx]) = (index_of P txs)(TxHasher_Hash P tx \<mapsto> tx)"
  using map_add_upd_left [of "TxHasher_Hash P tx" "index_of P txs" Map.empty tx]
  by (simp add: dom_index_of) (simp add: index_of_def)

lemma TxHasher_Hash_hashed [simp]: "TxHasher_Hash P (snd (Transaction_Hash f tx)) = TxHasher_Hash P tx"
  using Transaction_Hash_frame [of f tx] by (auto simp: TxHasher_Hash_def)

lemma NewTxSortedMap_ok [wf_intro]: "sm_ok P NewTxSortedMap"
  by (simp add: sm_ok_def NewTxSortedMap_def NewList_def index_of_def)

lemma TxSortedMap_Clear_ok [wf_intro]: "sm_ok P (TxSortedMap_Clear t)"
  by (simp add: sm_ok_def TxSortedMap_Clear_def List_Clear_def index_of_def)

lemma sm_Count: "sm_ok P t \<Longrightarrow> TxSortedMap_Count t = int (length (Data (sm_txx t)))"
  by (simp add: sm_ok_def TxSortedMap_Count_def dom_index_of card_distinct distinct_card flip: set_map)

lemma sm_Contains: "sm_ok P t \<Longrightarrow> TxSortedMap_Contains t h \<longleftrightarrow> h \<in> TxHasher_Hash P ` set (Data (sm_txx t))"
  by (simp add: sm_ok_def TxSortedMap_Contains_def index_of_None del: not_None_eq)

text \<open>Adding appends a new transaction and ignores a known one.\<close>

lemma sm_Add:
  assumes "sm_ok P t" and "tx_memo_ok P tx"
  shows "sm_ok P (TxSortedMap_Add P tx t)" and
    "Data (sm_txx (TxSortedMap_Add P tx t)) = (if TxHasher_Hash P tx \<in> TxHasher_Hash P ` set (Data (sm_txx t))
       then Data (sm_txx t) else Data (sm_txx t) @ [snd (Transaction_Hash (TxHasher_Hash P) tx)])"
proof -
  obtain tx' where th: "Transaction_Hash (TxHasher_Hash P) tx = (TxHasher_Hash P tx, tx')"
    using Transaction_Hash_value [OF assms(2)] by (metis prod.collapse)
  have mo: "tx_memo_ok P tx'" and hs: "TxHasher_Hash P tx' = TxHasher_Hash P tx"
    using Transaction_Hash_memo_ok [OF assms(2)] TxHasher_Hash_hashed [of P "TxHasher_Hash P" tx]
    unfolding th by simp_all
  note add = TxSortedMap_Add_def [of P tx t, unfolded th]
  show "sm_ok P (TxSortedMap_Add P tx t)"
  proof (cases "TxHasher_Hash P tx \<in> TxHasher_Hash P ` set (Data (sm_txx t))")
    case True
    then have "sm_lookup t (TxHasher_Hash P tx) \<noteq> None"
      using assms(1) by (simp add: sm_ok_def index_of_None del: not_None_eq)
    then show ?thesis using assms(1) by (auto simp: add)
  next
    case False
    then have "sm_lookup t (TxHasher_Hash P tx) = None"
      using assms(1) by (simp add: sm_ok_def index_of_None)
    then show ?thesis using assms(1) mo False index_of_snoc [of P tx' "Data (sm_txx t)"]
      by (auto simp: add hs sm_ok_def List_Insert_def)
  qed
  show "Data (sm_txx (TxSortedMap_Add P tx t)) = (if TxHasher_Hash P tx \<in> TxHasher_Hash P ` set (Data (sm_txx t))
       then Data (sm_txx t) else Data (sm_txx t) @ [snd (Transaction_Hash (TxHasher_Hash P) tx)])"
    using assms(1) index_of_None [of P "Data (sm_txx t)" "TxHasher_Hash P tx"]
    by (auto simp: add th sm_ok_def List_Insert_def split: option.splits)
qed

text \<open>Removing the hash of the oldest transaction drops the head of the list.\<close>

lemma sm_Remove_first:
  assumes "sm_ok P t" and "Data (sm_txx t) = tx # txs"
  shows "TxSortedMap_First P t = Ok (Some tx)" and
    "\<exists>t'. TxSortedMap_Remove (fst (Transaction_Hash (TxHasher_Hash P) tx)) t = Ok t' \<and> sm_ok P t'
       \<and> Data (sm_txx t') = txs"
proof -
  have h: "fst (Transaction_Hash (TxHasher_Hash P) tx) = TxHasher_Hash P tx"
    using assms by (simp add: sm_ok_def Transaction_Hash_value)
  have l: "sm_lookup t = index_of P (tx # txs)" using assms by (simp add: sm_ok_def)
  show "TxSortedMap_First P t = Ok (Some tx)"
    using assms(2) by (simp add: TxSortedMap_First_def List_Get_0 h l index_of_def)
  have notin: "TxHasher_Hash P tx \<notin> TxHasher_Hash P ` set txs" using assms by (auto simp: sm_ok_def)
  have "(index_of P (tx # txs))(TxHasher_Hash P tx := None) = index_of P txs"
    using notin index_of_None [of P txs "TxHasher_Hash P tx"] by (auto simp: index_of_def fun_eq_iff)
  then show "\<exists>t'. TxSortedMap_Remove (fst (Transaction_Hash (TxHasher_Hash P) tx)) t = Ok t' \<and> sm_ok P t'
       \<and> Data (sm_txx t') = txs"
    using assms by (simp add: h l TxSortedMap_Remove_def index_of_def [of P "tx # txs"] List_Remove_remove1 sm_ok_def)
qed

section \<open>The pool as a bounded queue\<close>

definition pool_ok :: "'x prims_scheme \<Rightarrow> TxPool \<Rightarrow> bool" where
  "pool_ok P p \<longleftrightarrow> sm_ok P (pool_all p) \<and> sm_ok P (pool_pending p) \<and> 0 < pool_maxLength p \<and>
     int (length (Data (sm_txx (pool_all p)))) \<le> pool_maxLength p"

text \<open>The hashes the pool remembers, oldest first, and what adding a hash does to them.\<close>

definition pool_hashes :: "'x prims_scheme \<Rightarrow> TxPool \<Rightarrow> hash list" where
  "pool_hashes P p = map (TxHasher_Hash P) (Data (sm_txx (pool_all p)))"

definition pending_hashes :: "'x prims_scheme \<Rightarrow> TxPool \<Rightarrow> hash list" where
  "pending_hashes P p = map (TxHasher_Hash P) (Pending p)"

definition fifo_prune :: "int \<Rightarrow> hash list \<Rightarrow> hash list" where
  "fifo_prune n hs = (if int (length hs) = n then tl hs else hs)"

definition fifo_add :: "hash \<Rightarrow> hash list \<Rightarrow> hash list" where
  "fifo_add h hs = (if h \<in> set hs then hs else hs @ [h])"

lemma TxPool_prune_ok:
  assumes "pool_ok P p"
  shows "\<exists>p'. TxPool_prune P p = Ok p' \<and> pool_ok P p' \<and> pool_pending p' = pool_pending p
    \<and> pool_maxLength p' = pool_maxLength p
    \<and> pool_hashes P p' = fifo_prune (pool_maxLength p) (pool_hashes P p)
    \<and> int (length (pool_hashes P p')) < pool_maxLength p"
proof (cases "TxSortedMap_Count (pool_all p) = pool_maxLength p")
  case True
  have ok: "sm_ok P (pool_all p)" using assms by (simp add: pool_ok_def)
  then have len: "int (length (Data (sm_txx (pool_all p)))) = pool_maxLength p" using True sm_Count by metis
  then obtain tx txs where d: "Data (sm_txx (pool_all p)) = tx # txs"
    using assms by (cases "Data (sm_txx (pool_all p))") (auto simp: pool_ok_def)
  from sm_Remove_first [OF ok d] obtain t' where
    "TxSortedMap_Remove (fst (Transaction_Hash (TxHasher_Hash P) tx)) (pool_all p) = Ok t'" "sm_ok P t'"
    "Data (sm_txx t') = txs" "TxSortedMap_First P (pool_all p) = Ok (Some tx)" by blast
  then show ?thesis using True assms d len
    by (auto simp: TxPool_prune_def pool_ok_def pool_hashes_def fifo_prune_def)
next
  case False
  then have "int (length (Data (sm_txx (pool_all p)))) \<noteq> pool_maxLength p"
    using assms sm_Count by (metis pool_ok_def)
  then show ?thesis using False assms
    by (auto simp: TxPool_prune_def pool_ok_def pool_hashes_def fifo_prune_def)
qed

lemma TxPool_Add_refines:
  assumes "pool_ok P p" and "tx_memo_ok P tx"
  obtains p' where "TxPool_Add P tx p = Ok p'" and "pool_ok P p'"
    and "pool_maxLength p' = pool_maxLength p"
    and "pool_hashes P p' = fifo_add (TxHasher_Hash P tx) (fifo_prune (pool_maxLength p) (pool_hashes P p))"
    and "pending_hashes P p' = (if TxHasher_Hash P tx \<in> set (fifo_prune (pool_maxLength p) (pool_hashes P p))
      then pending_hashes P p else fifo_add (TxHasher_Hash P tx) (pending_hashes P p))"
proof -
  obtain tx' where th: "Transaction_Hash (TxHasher_Hash P) tx = (TxHasher_Hash P tx, tx')"
    using Transaction_Hash_value [OF assms(2)] by (metis prod.collapse)
  have mo: "tx_memo_ok P tx'" and hs: "TxHasher_Hash P tx' = TxHasher_Hash P tx"
    using Transaction_Hash_memo_ok [OF assms(2)] TxHasher_Hash_hashed [of P "TxHasher_Hash P" tx]
    unfolding th by simp_all
  obtain q where q: "TxPool_prune P p = Ok q" "pool_ok P q" "pool_pending q = pool_pending p"
    "pool_maxLength q = pool_maxLength p"
    "pool_hashes P q = fifo_prune (pool_maxLength p) (pool_hashes P p)"
    "int (length (pool_hashes P q)) < pool_maxLength p" using TxPool_prune_ok [OF assms(1)] by blast
  have oks: "sm_ok P (pool_all q)" "sm_ok P (pool_pending q)" using q(2) by (simp_all add: pool_ok_def)
  have has: "TxSortedMap_Contains (pool_all q) (TxHasher_Hash P tx) \<longleftrightarrow>
      TxHasher_Hash P tx \<in> set (fifo_prune (pool_maxLength p) (pool_hashes P p))"
    using sm_Contains [OF oks(1)] q(5) by (metis pool_hashes_def set_map)
  note A = sm_Add [OF oks(1) mo, unfolded hs] and B = sm_Add [OF oks(2) mo, unfolded hs]
  show thesis
  proof (cases "TxSortedMap_Contains (pool_all q) (TxHasher_Hash P tx)")
    case True
    then have "TxPool_Add P tx p = Ok q" by (simp add: TxPool_Add_def q(1) th)
    then show ?thesis using that [of q] q True has by (simp add: fifo_add_def pending_hashes_def Pending_def)
  next
    case False
    define p' where "p' = q\<lparr>pool_all := TxSortedMap_Add P tx' (pool_all q),
                     pool_pending := TxSortedMap_Add P tx' (pool_pending q)\<rparr>"
    have notin: "TxHasher_Hash P tx \<notin> TxHasher_Hash P ` set (Data (sm_txx (pool_all q)))"
      using False sm_Contains [OF oks(1)] by blast
    show ?thesis
    proof (rule that [of p'])
      show "TxPool_Add P tx p = Ok p'" using False by (simp add: TxPool_Add_def q(1) th p'_def)
      show "pool_ok P p'" using q(2,3,4,6) A B(1) notin by (simp add: p'_def pool_ok_def pool_hashes_def)
      show "pool_maxLength p' = pool_maxLength p" using q(4) by (simp add: p'_def)
      show "pool_hashes P p' = fifo_add (TxHasher_Hash P tx) (fifo_prune (pool_maxLength p) (pool_hashes P p))"
        using A(2) notin False has q(5) by (auto simp: hs p'_def pool_hashes_def fifo_add_def)
      show "pending_hashes P p' = (if TxHasher_Hash P tx \<in> set (fifo_prune (pool_maxLength p) (pool_hashes P p))
          then pending_hashes P p else fifo_add (TxHasher_Hash P tx) (pending_hashes P p))"
        using B(2) False has q(3) by (auto simp: hs p'_def pending_hashes_def Pending_def fifo_add_def)
    qed
  qed
qed

lemma pool_maxLength_sel [simp]:
  "pool_maxLength (NewTxPool n) = n" "pool_maxLength (ClearPending p) = pool_maxLength p"
  by (simp_all add: NewTxPool_def ClearPending_def)

lemma NewTxPool_ok [wf_intro]: "0 < n \<Longrightarrow> pool_ok P (NewTxPool n)"
  using NewTxSortedMap_ok [of P] by (simp add: pool_ok_def NewTxPool_def NewTxSortedMap_def NewList_def)

lemma ClearPending_ok [wf_intro]: "pool_ok P p \<Longrightarrow> pool_ok P (ClearPending p)"
  by (simp add: pool_ok_def ClearPending_def TxSortedMap_Clear_ok)

end
