(* ===== verification/ForkChoice.thy ===== *)
theory ForkChoice
  imports Errors "HOL-Library.Product_Lexorder"
begin

text \<open>
  Fork choice, from src/consensus/fork_choice.go. The two \<open>*big.Int\<close> fields may be nil; \<open>Cmp\<close> on a
  nil pointer panics. A rule that is to decide between forks has to be a total preorder on the
  chains it can compare: that is the contract \<open>fork_choice\<close>, and selecting the best of several
  chains is proved once for it.
\<close>

section \<open>Definitions\<close>

record ChainMetadata =
  cm_Height :: u32
  cm_CumulativeDifficulty :: "int option"
  cm_TotalStake :: "int option"

definition LongestChain_Compare :: "ChainMetadata \<Rightarrow> ChainMetadata \<Rightarrow> int res" where
  "LongestChain_Compare a b =
     (if cm_Height a > cm_Height b then Ok 1
      else if cm_Height b > cm_Height a then Ok (- 1) else Ok 0)"

definition big_Cmp :: "int option \<Rightarrow> int option \<Rightarrow> int res" where
  "big_Cmp x y =
     (case (x, y) of
        (Some i, Some j) \<Rightarrow> Ok (if i < j then - 1 else if i > j then 1 else 0)
      | _ \<Rightarrow> Panic NilDereference)"

definition HeaviestChain_Compare :: "ChainMetadata \<Rightarrow> ChainMetadata \<Rightarrow> int res" where
  "HeaviestChain_Compare a b =
     bind_outcome (big_Cmp (cm_CumulativeDifficulty a) (cm_CumulativeDifficulty b))
       (\<lambda>cmp. if cmp \<noteq> 0 then Ok cmp
          else if cm_Height a > cm_Height b then Ok 1
          else if cm_Height b > cm_Height a then Ok (- 1) else Ok 0)"

section \<open>The contract\<close>

text \<open>\<open>score\<close> is what the rule maximises, \<open>ok\<close> the chains it can compare.\<close>

locale fork_choice =
  fixes Compare :: "ChainMetadata \<Rightarrow> ChainMetadata \<Rightarrow> int res"
    and score :: "ChainMetadata \<Rightarrow> int \<times> int" and ok :: "ChainMetadata \<Rightarrow> bool"
  assumes compare: "ok a \<Longrightarrow> ok b \<Longrightarrow>
    Compare a b = Ok (if score b < score a then 1 else if score a < score b then - 1 else 0)"
begin

lemma compare_antisym: "ok a \<Longrightarrow> ok b \<Longrightarrow> Compare a b = Ok c \<Longrightarrow> Compare b a = Ok (- c)"
  by (auto simp: compare split: if_splits)

lemma compare_ge: "ok a \<Longrightarrow> ok b \<Longrightarrow> (\<exists>c \<ge> 0. Compare a b = Ok c) \<longleftrightarrow> score b \<le> score a"
  by (auto simp: compare)

lemma compare_trans:
  assumes "ok a" "ok b" "ok c" and "\<exists>x \<ge> 0. Compare a b = Ok x" and "\<exists>x \<ge> 0. Compare b c = Ok x"
  shows "\<exists>x \<ge> 0. Compare a c = Ok x"
  using assms by (simp only: compare_ge)

lemma compare_total: "ok a \<Longrightarrow> ok b \<Longrightarrow> \<exists>c \<in> {- 1, 0, 1}. Compare a b = Ok c"
  by (auto simp: compare)

text \<open>Among any chains the rule can compare, there is one that is preferred or equal to all.\<close>

lemma best_exists:
  assumes "finite S" and "S \<noteq> {}" and "\<And>a. a \<in> S \<Longrightarrow> ok a"
  shows "\<exists>a \<in> S. \<forall>b \<in> S. \<exists>x \<ge> 0. Compare a b = Ok x"
proof -
  obtain a where "a \<in> S" and a: "score a = Max (score ` S)"
    using assms(1,2) by (metis (mono_tags) Max_in finite_imageI image_iff image_is_empty)
  moreover have "score b \<le> score a" if "b \<in> S" for b
    unfolding a using that assms(1) by simp
  ultimately show ?thesis using assms(3) by (meson compare_ge)
qed

end

lemma LongestChain_score:
  "LongestChain_Compare a b =
     Ok (if (uint (cm_Height b), 0 :: int) < (uint (cm_Height a), 0) then 1
         else if (uint (cm_Height a), 0 :: int) < (uint (cm_Height b), 0) then - 1 else 0)"
  by (simp add: LongestChain_Compare_def word_less_def less_prod_def)

lemma HeaviestChain_score:
  assumes "cm_CumulativeDifficulty a = Some x" and "cm_CumulativeDifficulty b = Some y"
  shows "HeaviestChain_Compare a b =
     Ok (if (y, uint (cm_Height b)) < (x, uint (cm_Height a)) then 1
         else if (x, uint (cm_Height a)) < (y, uint (cm_Height b)) then - 1 else 0)"
  by (cases x y rule: linorder_cases)
    (simp_all add: assms HeaviestChain_Compare_def big_Cmp_def word_less_def less_prod_def)

interpretation longest: fork_choice LongestChain_Compare "\<lambda>a. (uint (cm_Height a), 0)" "\<lambda>_. True"
  by unfold_locales (rule LongestChain_score)

interpretation heaviest: fork_choice HeaviestChain_Compare
  "\<lambda>a. (the (cm_CumulativeDifficulty a), uint (cm_Height a))" "\<lambda>a. cm_CumulativeDifficulty a \<noteq> None"
  by unfold_locales (rule HeaviestChain_score, simp_all)

end
