(* ===== verification/Messages.thy ===== *)
theory Messages
  imports Block
begin

text \<open>
  Network messages: src/network/rpc.go and the types of src/network/transport.go. \<open>encoding/gob\<close>
  is a parameter, as for transactions and blocks; \<open>gob_Message\<close> gives what an encoder has
  written together with its error, because \<open>Message.Bytes\<close> ignores the error. The payload of an
  RPC is the bytes its reader delivers. A decoded message is a pointer in the source, nil when
  decoding failed.
\<close>

section \<open>Definitions\<close>

type_synonym NetAddr = string

record RPC =
  rpc_From :: NetAddr
  rpc_Payload :: "byte list"

record Message =
  msg_Header :: byte
  msg_Data :: "byte list"

record GetBlocksMessage =
  gb_From :: u32
  gb_To :: u32

record StatusMessage =
  sm_ID :: string
  sm_Version :: u32
  sm_Height :: u32

text \<open>The dynamic types that the field \<open>Data any\<close> of a decoded message takes.\<close>

datatype message_data =
    MsgTx Transaction
  | MsgBlock Block
  | MsgGetBlocks GetBlocksMessage
  | MsgBlocks "Block list"
  | MsgStatus StatusMessage
  | MsgGetStatus
  | MsgGetPeers
  | MsgSharePeers "NetAddr list"

record DecodedMessage =
  dm_From :: NetAddr
  dm_Data :: message_data

record net_prims = block_prims +
  gob_Message :: "Message \<Rightarrow> byte list \<times> unit res"
  ungob_Message :: "byte list \<Rightarrow> Message res"
  gob_GetBlocks :: "GetBlocksMessage \<Rightarrow> byte list res"
  ungob_GetBlocks :: "byte list \<Rightarrow> GetBlocksMessage res"
  gob_Blocks :: "block_wire list \<Rightarrow> byte list res"
  ungob_Blocks :: "byte list \<Rightarrow> block_wire list res"
  gob_Status :: "StatusMessage \<Rightarrow> byte list res"
  ungob_Status :: "byte list \<Rightarrow> StatusMessage res"
  gob_SharePeers :: "NetAddr list \<Rightarrow> byte list res"
  ungob_SharePeers :: "byte list \<Rightarrow> NetAddr list res"

definition MessageTypeTx :: byte where "MessageTypeTx = 0x01"
definition MessageTypeBlock :: byte where "MessageTypeBlock = 0x02"
definition MessageTypeGetBlocks :: byte where "MessageTypeGetBlocks = 0x03"
definition MessageTypeBlocks :: byte where "MessageTypeBlocks = 0x06"
definition MessageTypeStatus :: byte where "MessageTypeStatus = 0x04"
definition MessageTypeGetStatus :: byte where "MessageTypeGetStatus = 0x05"
definition MessageTypeGetPeers :: byte where "MessageTypeGetPeers = 0x07"
definition MessageTypeSharePeers :: byte where "MessageTypeSharePeers = 0x08"

lemmas MessageType_defs = MessageTypeTx_def MessageTypeBlock_def MessageTypeGetBlocks_def MessageTypeBlocks_def
  MessageTypeStatus_def MessageTypeGetStatus_def MessageTypeGetPeers_def MessageTypeSharePeers_def

definition NewMessage :: "byte \<Rightarrow> byte list \<Rightarrow> Message" where
  "NewMessage t data = \<lparr>msg_Header = t, msg_Data = data\<rparr>"

definition Message_Bytes :: "'x net_prims_scheme \<Rightarrow> Message \<Rightarrow> byte list" where
  "Message_Bytes P msg = fst (gob_Message P msg)"

definition Blocks_Encode :: "'x net_prims_scheme \<Rightarrow> Block list \<Rightarrow> byte list res" where
  "Blocks_Encode P bs = bind_outcome (mapM_outcome (Block_wire P) bs) (gob_Blocks P)"

definition Blocks_Decode :: "'x net_prims_scheme \<Rightarrow> byte list \<Rightarrow> Block list res" where
  "Blocks_Decode P d = bind_outcome (ungob_Blocks P d) (mapM_outcome (Block_unwire P))"

definition decode_data :: "'x net_prims_scheme \<Rightarrow> Message \<Rightarrow> message_data res" where
  "decode_data P msg =
     (let t = msg_Header msg; d = msg_Data msg in
      if t = MessageTypeTx then bind_outcome (Transaction_Decode P d) (\<lambda>tx. Ok (MsgTx tx))
      else if t = MessageTypeBlock then bind_outcome (Block_Decode P d) (\<lambda>block. Ok (MsgBlock block))
      else if t = MessageTypeGetBlocks then bind_outcome (ungob_GetBlocks P d) (\<lambda>getBlocks. Ok (MsgGetBlocks getBlocks))
      else if t = MessageTypeBlocks then bind_outcome (Blocks_Decode P d) (\<lambda>blocks. Ok (MsgBlocks blocks))
      else if t = MessageTypeStatus then bind_outcome (ungob_Status P d) (\<lambda>status. Ok (MsgStatus status))
      else if t = MessageTypeGetStatus then Ok MsgGetStatus
      else if t = MessageTypeGetPeers then Ok MsgGetPeers
      else if t = MessageTypeSharePeers then bind_outcome (ungob_SharePeers P d) (\<lambda>sharePeers. Ok (MsgSharePeers sharePeers))
      else Err (ErrMessageType t))"

definition DefaultRPCDecodeFunc :: "'x net_prims_scheme \<Rightarrow> RPC \<Rightarrow> DecodedMessage res" where
  "DefaultRPCDecodeFunc P rpc =
     (case ungob_Message P (rpc_Payload rpc) of
        Err e \<Rightarrow> Err (ErrDecodeMessage (rpc_From rpc) (Error_text e))
      | Panic p \<Rightarrow> Panic p
      | Ok msg \<Rightarrow>
          bind_outcome (decode_data P msg) (\<lambda>d. Ok \<lparr>dm_From = rpc_From rpc, dm_Data = d\<rparr>))"

section \<open>The laws of \<open>gob\<close> on messages\<close>

text \<open>Each decoder reads back what the encoder of the same type wrote without an error.\<close>

definition gob_messages_roundtrip :: "'x net_prims_scheme \<Rightarrow> bool" where
  "gob_messages_roundtrip P \<longleftrightarrow>
     (\<forall>m. snd (gob_Message P m) = Ok () \<longrightarrow> ungob_Message P (fst (gob_Message P m)) = Ok m) \<and>
     (\<forall>m bs. gob_GetBlocks P m = Ok bs \<longrightarrow> ungob_GetBlocks P bs = Ok m) \<and>
     (\<forall>m bs. gob_Blocks P m = Ok bs \<longrightarrow> ungob_Blocks P bs = Ok m) \<and>
     (\<forall>m bs. gob_Status P m = Ok bs \<longrightarrow> ungob_Status P bs = Ok m) \<and>
     (\<forall>m bs. gob_SharePeers P m = Ok bs \<longrightarrow> ungob_SharePeers P bs = Ok m)"

section \<open>Senders and receivers agree\<close>

text \<open>
  How the program builds the payload of each kind of message, and what the receiver should see.
\<close>

primrec encode_data :: "'x net_prims_scheme \<Rightarrow> message_data \<Rightarrow> Message res" where
  "encode_data P (MsgTx tx) = bind_outcome (Transaction_Encode P tx) (\<lambda>d. Ok (NewMessage MessageTypeTx d))"
| "encode_data P (MsgBlock b) = bind_outcome (Block_Encode P b) (\<lambda>d. Ok (NewMessage MessageTypeBlock d))"
| "encode_data P (MsgGetBlocks m) = bind_outcome (gob_GetBlocks P m) (\<lambda>d. Ok (NewMessage MessageTypeGetBlocks d))"
| "encode_data P (MsgBlocks bs) = bind_outcome (Blocks_Encode P bs) (\<lambda>d. Ok (NewMessage MessageTypeBlocks d))"
| "encode_data P (MsgStatus m) = bind_outcome (gob_Status P m) (\<lambda>d. Ok (NewMessage MessageTypeStatus d))"
| "encode_data P MsgGetStatus = Ok (NewMessage MessageTypeGetStatus [])"
| "encode_data P MsgGetPeers = Ok (NewMessage MessageTypeGetPeers [])"
| "encode_data P (MsgSharePeers as) = bind_outcome (gob_SharePeers P as) (\<lambda>d. Ok (NewMessage MessageTypeSharePeers d))"

primrec exported_data :: "message_data \<Rightarrow> message_data" where
  "exported_data (MsgTx tx) = MsgTx (tx_exported tx)"
| "exported_data (MsgBlock b) = MsgBlock (block_exported b)"
| "exported_data (MsgGetBlocks m) = MsgGetBlocks m"
| "exported_data (MsgBlocks bs) = MsgBlocks (map block_exported bs)"
| "exported_data (MsgStatus m) = MsgStatus m"
| "exported_data MsgGetStatus = MsgGetStatus"
| "exported_data MsgGetPeers = MsgGetPeers"
| "exported_data (MsgSharePeers as) = MsgSharePeers as"

lemma NewMessage_sel [simp]: "msg_Header (NewMessage t d) = t" "msg_Data (NewMessage t d) = d"
  by (simp_all add: NewMessage_def)

lemma Blocks_gob_roundtrip:
  assumes "marshal_roundtrip P" and "gob_messages_roundtrip P" and "Blocks_Encode P bs = Ok d"
  shows "Blocks_Decode P d = Ok (map block_exported bs)"
proof -
  from assms(3) obtain ws where ws: "mapM_outcome (Block_wire P) bs = Ok ws" and "gob_Blocks P ws = Ok d"
    by (auto simp: Blocks_Encode_def)
  moreover have "mapM_outcome (Block_unwire P) ws = Ok (map block_exported bs)"
    by (rule mapM_outcome_inverse [OF ws]) (rule Block_unwire_wire [OF assms(1)])
  ultimately show ?thesis using assms(2) by (simp add: Blocks_Decode_def gob_messages_roundtrip_def)
qed

lemma decode_encode_data:
  assumes "marshal_roundtrip P" and "gob_tx_roundtrip P" and "gob_block_roundtrip P"
    and gob: "gob_messages_roundtrip P" and enc: "encode_data P x = Ok msg"
  shows "decode_data P msg = Ok (exported_data x)"
proof -
  note tx = Transaction_gob_roundtrip [OF assms(1,2)] and block = Block_gob_roundtrip [OF assms(1,3)]
    and blocks = Blocks_gob_roundtrip [OF assms(1) gob]
  show ?thesis
    using enc gob
    by (cases x) (auto simp: decode_data_def MessageType_defs Let_def gob_messages_roundtrip_def
        dest: tx block blocks)
qed

lemma RPC_roundtrip:
  assumes "marshal_roundtrip P" and "gob_tx_roundtrip P" and "gob_block_roundtrip P"
    and gob: "gob_messages_roundtrip P" and "encode_data P x = Ok msg" and "snd (gob_Message P msg) = Ok ()"
  shows "DefaultRPCDecodeFunc P \<lparr>rpc_From = a, rpc_Payload = Message_Bytes P msg\<rparr> =
    Ok \<lparr>dm_From = a, dm_Data = exported_data x\<rparr>"
proof -
  have "ungob_Message P (Message_Bytes P msg) = Ok msg"
    using gob assms(6) unfolding gob_messages_roundtrip_def Message_Bytes_def by blast
  then show ?thesis using decode_encode_data [OF assms(1-5)] by (simp add: DefaultRPCDecodeFunc_def)
qed

text \<open>Whatever arrives, a decoded transaction or block carries no memoised hash of its sender.\<close>

definition data_memo_ok :: "'x block_prims_scheme \<Rightarrow> message_data \<Rightarrow> bool" where
  "data_memo_ok P d \<longleftrightarrow>
     (case d of
        MsgTx tx \<Rightarrow> tx_memo_ok P tx
      | MsgBlock b \<Rightarrow> block_memo_ok P b
      | MsgBlocks bs \<Rightarrow> \<forall>b \<in> set bs. block_memo_ok P b
      | _ \<Rightarrow> True)"

lemma mapM_outcome_set:
  "mapM_outcome f xs = Ok ys \<Longrightarrow> y \<in> set ys \<Longrightarrow> \<exists>x \<in> set xs. f x = Ok y"
  by (induction xs arbitrary: ys) auto

lemma Transaction_unwire_memo_ok [wf_intro]: "Transaction_unwire P w = Ok tx \<Longrightarrow> tx_memo_ok P tx"
  by (auto simp: Transaction_unwire_def tx_memo_ok_def)

lemma decode_data_memo_ok [wf_intro]:
  assumes "decode_data P msg = Ok d"
  shows "data_memo_ok P d"
proof -
  have "block_memo_ok P b" if "Blocks_Decode P x = Ok bs" "b \<in> set bs" for x bs b
  proof -
    from that(1) obtain ws where "mapM_outcome (Block_unwire P) ws = Ok bs" by (auto simp: Blocks_Decode_def)
    from mapM_outcome_set [OF this that(2)] show ?thesis using Block_unwire_memo_ok by blast
  qed
  then show ?thesis
    using assms
    by (auto simp: decode_data_def data_memo_ok_def Transaction_Decode_def Let_def
        split: if_splits intro: Block_Decode_memo_ok Transaction_unwire_memo_ok)
qed

end
