(* ===== verification/Transport.thy ===== *)
theory Transport
  imports Messages Account
begin

text \<open>
  Transports: the interface of src/network/transport.go as a method table, and the in-memory
  transport of src/network/local_transport.go. A transport is a pointer: the method table works
  on handles \<open>'h\<close> into a network state \<open>'n\<close> that the transports share. \<open>None\<close> is a call that
  does not return in the given state, here a send to a full channel. Receiving from the channel
  that \<open>Consume\<close> returns is the method \<open>tr_Consume\<close>.
\<close>

section \<open>Definitions\<close>

text \<open>The argument of \<open>Connect\<close> is a transport of some type: one of ours, or a fresh TCP transport.\<close>

datatype 'h remote = Remote 'h | RemoteTCP NetAddr

record ('h, 'n) Transport =
  tr_Consume :: "'h \<Rightarrow> 'n \<Rightarrow> (RPC \<times> 'n) option"
  tr_Connect :: "'h \<Rightarrow> 'h remote \<Rightarrow> 'n \<Rightarrow> ('n \<times> unit res) option"
  tr_SendMessage :: "'h \<Rightarrow> NetAddr \<Rightarrow> byte list \<Rightarrow> 'n \<Rightarrow> ('n \<times> unit res) option"
  tr_Broadcast :: "'h \<Rightarrow> byte list \<Rightarrow> 'n \<Rightarrow> ('n \<times> unit res) option"
  tr_Addr :: "'n \<Rightarrow> 'h \<Rightarrow> NetAddr"

type_synonym lt_ref = nat

record LocalTransport =
  lt_addr :: NetAddr
  lt_consumeCh :: "RPC list"
  lt_peers :: "NetAddr \<rightharpoonup> lt_ref"

text \<open>The heap of local transports.\<close>

type_synonym local_net = "lt_ref \<Rightarrow> LocalTransport"

definition consumeCh_cap :: nat where
  "consumeCh_cap = 1024"

definition NewLocalTransport :: "NetAddr \<Rightarrow> LocalTransport" where
  "NewLocalTransport addr = \<lparr>lt_addr = addr, lt_consumeCh = [], lt_peers = Map.empty\<rparr>"

definition LocalTransport_Consume :: "lt_ref \<Rightarrow> local_net \<Rightarrow> (RPC \<times> local_net) option" where
  "LocalTransport_Consume t n =
     (case lt_consumeCh (n t) of
        [] \<Rightarrow> None
      | rpc # rpcs \<Rightarrow> Some (rpc, n(t := (n t)\<lparr>lt_consumeCh := rpcs\<rparr>)))"

definition LocalTransport_Addr :: "local_net \<Rightarrow> lt_ref \<Rightarrow> NetAddr" where
  "LocalTransport_Addr n t = lt_addr (n t)"

definition LocalTransport_Connect :: "lt_ref \<Rightarrow> lt_ref remote \<Rightarrow> local_net \<Rightarrow> (local_net \<times> unit res) option" where
  "LocalTransport_Connect t tr n =
     (case tr of
        RemoteTCP _ \<Rightarrow> Some (n, Panic TypeAssertion)
      | Remote r \<Rightarrow>
          Some (n(t := (n t)\<lparr>lt_peers := (lt_peers (n t))(LocalTransport_Addr n r \<mapsto> r)\<rparr>), Ok ()))"

definition chan_send :: "lt_ref \<Rightarrow> RPC \<Rightarrow> local_net \<Rightarrow> local_net option" where
  "chan_send t rpc n =
     (if length (lt_consumeCh (n t)) < consumeCh_cap
      then Some (n(t := (n t)\<lparr>lt_consumeCh := lt_consumeCh (n t) @ [rpc]\<rparr>)) else None)"

definition LocalTransport_SendMessage ::
  "lt_ref \<Rightarrow> NetAddr \<Rightarrow> byte list \<Rightarrow> local_net \<Rightarrow> (local_net \<times> unit res) option" where
  "LocalTransport_SendMessage t to payload n =
     (case lt_peers (n t) to of
        None \<Rightarrow> Some (n, Err (ErrUnknownPeer (lt_addr (n t)) to))
      | Some peer \<Rightarrow>
          map_option (\<lambda>n'. (n', Ok ()))
            (chan_send peer \<lparr>rpc_From = lt_addr (n t), rpc_Payload = payload\<rparr> n))"

primrec Broadcast_loop ::
  "lt_ref \<Rightarrow> byte list \<Rightarrow> lt_ref list \<Rightarrow> local_net \<Rightarrow> (local_net \<times> unit res) option" where
  "Broadcast_loop t payload [] n = Some (n, Ok ())"
| "Broadcast_loop t payload (peer # peers) n =
     then_exec (LocalTransport_SendMessage t (LocalTransport_Addr n peer) payload n)
       (Broadcast_loop t payload peers)"

text \<open>\<open>ord\<close> is the order in which the map of peers is ranged over.\<close>

definition LocalTransport_Broadcast ::
  "((NetAddr \<rightharpoonup> lt_ref) \<Rightarrow> NetAddr list) \<Rightarrow> lt_ref \<Rightarrow> byte list \<Rightarrow> local_net \<Rightarrow> (local_net \<times> unit res) option" where
  "LocalTransport_Broadcast ord t payload n =
     Broadcast_loop t payload (map (\<lambda>a. the (lt_peers (n t) a)) (ord (lt_peers (n t)))) n"

definition LocalTransport_Transport ::
  "((NetAddr \<rightharpoonup> lt_ref) \<Rightarrow> NetAddr list) \<Rightarrow> (lt_ref, local_net) Transport" where
  "LocalTransport_Transport ord =
     \<lparr>tr_Consume = LocalTransport_Consume, tr_Connect = LocalTransport_Connect,
      tr_SendMessage = LocalTransport_SendMessage, tr_Broadcast = LocalTransport_Broadcast ord,
      tr_Addr = LocalTransport_Addr\<rparr>"

section \<open>The contract of a transport\<close>

text \<open>
  What the server relies on: sending does not change what was already queued, and a message that
  \<open>SendMessage\<close> reports as sent reaches a queue behind the messages already there, carrying the
  payload and the sender's address. \<open>queue\<close> is the content of the channel of a handle and
  \<open>route\<close> the handle an address leads to.
\<close>

locale transport =
  fixes tr :: "('h, 'n) Transport" and queue :: "'n \<Rightarrow> 'h \<Rightarrow> RPC list" and route :: "'n \<Rightarrow> 'h \<Rightarrow> NetAddr \<Rightarrow> 'h option"
  assumes consume: "tr_Consume tr h n = Some (rpc, n') \<Longrightarrow>
      queue n h = rpc # queue n' h \<and> (\<forall>k. k \<noteq> h \<longrightarrow> queue n' k = queue n k) \<and> route n' = route n \<and> tr_Addr tr n' = tr_Addr tr n"
    and consume_ready: "queue n h \<noteq> [] \<Longrightarrow> tr_Consume tr h n \<noteq> None"
    and send: "tr_SendMessage tr h a p n = Some (n', Ok ()) \<Longrightarrow>
      \<exists>k. route n h a = Some k \<and> queue n' = (queue n)(k := queue n k @ [\<lparr>rpc_From = tr_Addr tr n h, rpc_Payload = p\<rparr>])
        \<and> route n' = route n \<and> tr_Addr tr n' = tr_Addr tr n"
    and send_fails: "tr_SendMessage tr h a p n = Some (n', Err e) \<Longrightarrow> n' = n"
begin

text \<open>Messages sent over one transport to one address are received in the order they were sent.\<close>

lemma fifo:
  assumes "tr_SendMessage tr h a p n = Some (n1, Ok ())" and "tr_SendMessage tr h a q n1 = Some (n2, Ok ())"
    and "route n h a = Some k" and "queue n k = []"
  shows "\<exists>n3. tr_Consume tr k n2 = Some (\<lparr>rpc_From = tr_Addr tr n h, rpc_Payload = p\<rparr>, n3) \<and>
    (\<exists>n4. tr_Consume tr k n3 = Some (\<lparr>rpc_From = tr_Addr tr n h, rpc_Payload = q\<rparr>, n4) \<and> queue n4 k = [])"
proof -
  note s1 = send [OF assms(1)] and s2 = send [OF assms(2)]
  have q: "queue n2 k = [\<lparr>rpc_From = tr_Addr tr n h, rpc_Payload = p\<rparr>, \<lparr>rpc_From = tr_Addr tr n h, rpc_Payload = q\<rparr>]"
    using s1 s2 assms(3,4) by auto
  then obtain r3 n3 where c3: "tr_Consume tr k n2 = Some (r3, n3)"
    using consume_ready [of n2 k] by fastforce
  from consume [OF c3] q have "r3 = \<lparr>rpc_From = tr_Addr tr n h, rpc_Payload = p\<rparr>"
    and q3: "queue n3 k = [\<lparr>rpc_From = tr_Addr tr n h, rpc_Payload = q\<rparr>]" by auto
  moreover obtain r4 n4 where c4: "tr_Consume tr k n3 = Some (r4, n4)"
    using consume_ready [of n3 k] q3 by fastforce
  ultimately show ?thesis using c3 consume [OF c4] by auto
qed

end

section \<open>The local transport fulfils it\<close>

lemma chan_send_Some:
  "chan_send t rpc n = Some n' \<Longrightarrow>
     lt_consumeCh (n' t) = lt_consumeCh (n t) @ [rpc] \<and> (\<forall>k. k \<noteq> t \<longrightarrow> n' k = n k) \<and>
     (\<forall>k. lt_addr (n' k) = lt_addr (n k) \<and> lt_peers (n' k) = lt_peers (n k))"
  by (auto simp: chan_send_def split: if_splits)

interpretation lt: transport "LocalTransport_Transport ord" "\<lambda>n t. lt_consumeCh (n t)" "\<lambda>n t. lt_peers (n t)" for ord
proof unfold_locales
  fix h a p n n'
  assume "tr_SendMessage (LocalTransport_Transport ord) h a p n = Some (n', Ok ())"
  then obtain k where "lt_peers (n h) a = Some k"
    and "chan_send k \<lparr>rpc_From = lt_addr (n h), rpc_Payload = p\<rparr> n = Some n'"
    by (auto simp: LocalTransport_Transport_def LocalTransport_SendMessage_def split: option.splits)
  with chan_send_Some [OF this(2)] show "\<exists>k. lt_peers (n h) a = Some k \<and>
      (\<lambda>t. lt_consumeCh (n' t)) = (\<lambda>t. lt_consumeCh (n t))(k := lt_consumeCh (n k) @
        [\<lparr>rpc_From = tr_Addr (LocalTransport_Transport ord) n h, rpc_Payload = p\<rparr>]) \<and>
      (\<lambda>t. lt_peers (n' t)) = (\<lambda>t. lt_peers (n t)) \<and>
      tr_Addr (LocalTransport_Transport ord) n' = tr_Addr (LocalTransport_Transport ord) n"
    by (intro exI [of _ k]) (auto simp: LocalTransport_Transport_def LocalTransport_Addr_def fun_eq_iff)
qed (auto simp: LocalTransport_Transport_def LocalTransport_Consume_def LocalTransport_SendMessage_def
    LocalTransport_Addr_def intro!: ext split: list.splits option.splits)

section \<open>Broadcast\<close>

text \<open>Every peer is known under its own address, as \<open>Connect\<close> leaves it.\<close>

definition peers_ok :: "local_net \<Rightarrow> bool" where
  "peers_ok n \<longleftrightarrow> (\<forall>t a r. lt_peers (n t) a = Some r \<longrightarrow> lt_addr (n r) = a)"

lemma Connect_peers_ok [wf_intro]:
  assumes "LocalTransport_Connect t tr n = Some (n', q)" and "peers_ok n"
  shows "peers_ok n'"
proof (cases tr)
  case (Remote r)
  then have n': "n' = n(t := (n t)\<lparr>lt_peers := (lt_peers (n t))(lt_addr (n r) \<mapsto> r)\<rparr>)"
    using assms(1) by (simp add: LocalTransport_Connect_def LocalTransport_Addr_def)
  then have "lt_addr (n' k) = lt_addr (n k)" for k by simp
  with assms(2) n' show ?thesis by (auto simp: peers_ok_def split: if_splits)
qed (use assms in \<open>simp add: LocalTransport_Connect_def\<close>)

lemma Broadcast_loop_delivers:
  assumes "Broadcast_loop t p (map (\<lambda>a. the (lt_peers (n t) a)) as) n = Some (n', r)"
    and "peers_ok n" and "set as \<subseteq> dom (lt_peers (n t))" and "distinct as"
  shows "r = Ok () \<and> (\<forall>k. lt_consumeCh (n' k) = lt_consumeCh (n k) @
      (if \<exists>a \<in> set as. lt_peers (n t) a = Some k then [\<lparr>rpc_From = lt_addr (n t), rpc_Payload = p\<rparr>] else []))"
  using assms
proof (induction as arbitrary: n)
  case (Cons a as)
  then obtain k where k: "lt_peers (n t) a = Some k" by auto
  then have ka: "lt_addr (n k) = a" using Cons.prems(2) by (auto simp: peers_ok_def)
  from Cons.prems(1) k ka obtain n1 where c: "chan_send k \<lparr>rpc_From = lt_addr (n t), rpc_Payload = p\<rparr> n = Some n1"
    and rest: "Broadcast_loop t p (map (\<lambda>a. the (lt_peers (n t) a)) as) n1 = Some (n', r)"
    by (auto simp: LocalTransport_SendMessage_def LocalTransport_Addr_def elim!: then_execE split: option.splits)
  note n1 = chan_send_Some [OF c]
  have "peers_ok n1" using Cons.prems(2) n1 by (simp add: peers_ok_def)
  with Cons.IH [of n1] rest n1 Cons.prems have IH: "r = Ok ()"
    "\<And>j. lt_consumeCh (n' j) = lt_consumeCh (n1 j) @
      (if \<exists>a \<in> set as. lt_peers (n t) a = Some j then [\<lparr>rpc_From = lt_addr (n t), rpc_Payload = p\<rparr>] else [])"
    by auto
  have "\<not> (\<exists>b \<in> set as. lt_peers (n t) b = Some k)"
    using ka Cons.prems(2,4) by (auto simp: peers_ok_def)
  with IH n1 k show ?case by (auto split: if_splits)
qed simp

lemma Broadcast_loop_returns:
  assumes "peers_ok n" and "set as \<subseteq> dom (lt_peers (n t))" and "distinct as"
    and "\<forall>a \<in> set as. length (lt_consumeCh (n (the (lt_peers (n t) a)))) < consumeCh_cap"
  shows "Broadcast_loop t p (map (\<lambda>a. the (lt_peers (n t) a)) as) n \<noteq> None"
  using assms
proof (induction as arbitrary: n)
  case (Cons a as)
  then obtain k where k: "lt_peers (n t) a = Some k" by auto
  then have ka: "lt_addr (n k) = a" using Cons.prems(1) by (auto simp: peers_ok_def)
  obtain n1 where c: "chan_send k \<lparr>rpc_From = lt_addr (n t), rpc_Payload = p\<rparr> n = Some n1"
    using Cons.prems(4) k by (auto simp: chan_send_def)
  note n1 = chan_send_Some [OF c]
  have ok: "peers_ok n1" using Cons.prems(1) n1 by (simp add: peers_ok_def)
  have "lt_consumeCh (n1 (the (lt_peers (n1 t) b))) = lt_consumeCh (n (the (lt_peers (n t) b)))" if b: "b \<in> set as" for b
  proof -
    from b Cons.prems(2) obtain j where j: "lt_peers (n t) b = Some j" by auto
    then have "j \<noteq> k" using ka b Cons.prems(1,3) by (auto simp: peers_ok_def)
    with j n1 show ?thesis by simp
  qed
  then have "Broadcast_loop t p (map (\<lambda>a. the (lt_peers (n1 t) a)) as) n1 \<noteq> None"
    using ok n1 Cons.prems(2-4) by (intro Cons.IH) simp_all
  with k ka c n1 show ?case by (simp add: LocalTransport_SendMessage_def LocalTransport_Addr_def)
qed simp

lemma Broadcast_returns:
  assumes "peers_ok n" and "enumerates (ord (lt_peers (n t))) (lt_peers (n t))"
    and "\<forall>k \<in> ran (lt_peers (n t)). length (lt_consumeCh (n k)) < consumeCh_cap"
  shows "LocalTransport_Broadcast ord t p n \<noteq> None"
proof -
  let ?as = "ord (lt_peers (n t))"
  have as: "distinct ?as" "set ?as = dom (lt_peers (n t))" using assms(2) by (simp_all add: enumerates_def)
  have "\<forall>a \<in> set ?as. length (lt_consumeCh (n (the (lt_peers (n t) a)))) < consumeCh_cap"
    using as(2) assms(3) by (auto simp: ran_def)
  with Broadcast_loop_returns [OF assms(1) _ as(1)] as(2) show ?thesis by (simp add: LocalTransport_Broadcast_def)
qed

lemma Broadcast_delivers:
  assumes "LocalTransport_Broadcast ord t p n = Some (n', r)" and "peers_ok n"
    and "enumerates (ord (lt_peers (n t))) (lt_peers (n t))"
  shows "r = Ok () \<and> (\<forall>k. lt_consumeCh (n' k) = lt_consumeCh (n k) @
      (if k \<in> ran (lt_peers (n t)) then [\<lparr>rpc_From = lt_addr (n t), rpc_Payload = p\<rparr>] else []))"
proof -
  let ?as = "ord (lt_peers (n t))"
  have as: "distinct ?as" "set ?as = dom (lt_peers (n t))" using assms(3) by (simp_all add: enumerates_def)
  then have "(\<exists>a \<in> set ?as. lt_peers (n t) a = Some k) \<longleftrightarrow> k \<in> ran (lt_peers (n t))" for k
    by (auto simp: ran_def)
  with Broadcast_loop_delivers [OF assms(1) [unfolded LocalTransport_Broadcast_def] assms(2)] as
  show ?thesis by simp
qed

end
