(* ===== verification/Server.thy ===== *)
theory Server
  imports Transport Blockchain TxPool
begin

text \<open>
  The node's server, src/network/server.go. A \<open>Server\<close> holds the fields of the Go structure; the
  consensus engine of the server and of its chain are one object, kept in the chain. A \<open>Node\<close> adds
  what its goroutines share with the outside: the network behind the transports, the
  goroutines started by \<open>go\<close> statements and not yet run, and the block the validator loop is
  working on. Handlers return the changed node and their error; \<open>None\<close> is a call that does not
  return. The clock, the randomness of signing and the order of map iteration are arguments.
  Logging is left out, the server's decoder and processor are the default ones, and the storage
  is always given.
\<close>

section \<open>Definitions\<close>

datatype 'h go_task =
    GoValidatorLoop
  | GoRPCServer string
  | GoConsume 'h
  | GoDiscoveryLoop
  | GoBroadcastBlock Block
  | GoBroadcastTx Transaction
  | GoConnect 'h NetAddr

record ('h, 's, 'c) ServerOpts =
  so_ID :: string
  so_Transports :: "'h list"
  so_BlockTime :: i64
  so_PrivateKey :: "PrivateKey option"
  so_Consensus :: "'c option"
  so_RPCAddr :: string
  so_Storage :: 's
  so_SeedNodes :: "string list"

record ('h, 's, 'c) Server =
  sv_ID :: string
  sv_Transports :: "'h list"
  sv_BlockTime :: i64
  sv_PrivateKey :: "PrivateKey option"
  sv_RPCAddr :: string
  sv_SeedNodes :: "string list"
  sv_memPool :: TxPool
  sv_chain :: "('s, 'c) Blockchain"
  sv_isValidator :: bool
  sv_rpcCh :: "RPC list"
  sv_peers :: "NetAddr \<rightharpoonup> 'h"

record ('h, 's, 'c, 'n) Node = "('h, 's, 'c) Server" +
  nd_net :: 'n
  nd_go :: "'h go_task list"
  nd_mining :: "Block option"

text \<open>The implementations behind the interfaces the server uses.\<close>

record ('h, 'n, 's, 'c) Deps =
  d_tr :: "('h, 'n) Transport"
  d_so :: "'s Storage"
  d_ce :: "'c ConsensusEngine"

definition node_try :: "'a res \<Rightarrow> 'd \<Rightarrow> ('a \<Rightarrow> ('d \<times> unit res) option) \<Rightarrow> ('d \<times> unit res) option" where
  "node_try r nd k = (case r of Ok x \<Rightarrow> k x | Err e \<Rightarrow> Some (nd, Err e) | Panic p \<Rightarrow> Some (nd, Panic p))"

definition on_net ::
  "('n \<Rightarrow> ('n \<times> unit res) option) \<Rightarrow> ('h, 's, 'c, 'n) Node \<Rightarrow> (('h, 's, 'c, 'n) Node \<times> unit res) option" where
  "on_net f nd = map_option (\<lambda>(n, r). (nd\<lparr>nd_net := n\<rparr>, r)) (f (nd_net nd))"

definition spawn :: "'h go_task \<Rightarrow> ('h, 's, 'c, 'n) Node \<Rightarrow> ('h, 's, 'c, 'n) Node" where
  "spawn t nd = nd\<lparr>nd_go := nd_go nd @ [t]\<rparr>"

text \<open>A call whose error the caller drops.\<close>

definition drop_err :: "('d \<times> unit res) option \<Rightarrow> ('d \<times> unit res) option" where
  "drop_err m = map_option (\<lambda>(nd, r). (nd, case r of Panic p \<Rightarrow> Panic p | _ \<Rightarrow> Ok ())) m"

definition defaultTxPoolMaxLength :: int where
  "defaultTxPoolMaxLength = 10000"

definition defaultBlockTime :: i64 where
  "defaultBlockTime = 5000000000"

definition genesisBlock :: Block where
  "genesisBlock = NewBlock
     \<lparr>hd_Version = 1, hd_DataHash = zero_hash, hd_PrevBlockHash = zero_hash, hd_StateRoot = zero_hash,
      hd_Height = 0, hd_Timestamp = 0, hd_Nonce = 0, hd_Difficulty = 0, hd_Coinbase = zero_address\<rparr> []"

definition initRPCServer :: "('h, 's, 'c, 'n) Node \<Rightarrow> ('h, 's, 'c, 'n) Node" where
  "initRPCServer s = spawn (GoRPCServer (sv_RPCAddr s)) s"

definition NewServer ::
  "'x net_prims_scheme \<Rightarrow> ('h, 'n, 's, 'c) Deps \<Rightarrow> ('h, 's, 'c) ServerOpts \<Rightarrow> 'n
   \<Rightarrow> (('h, 's, 'c, 'n) Node res) option" where
  "NewServer P D opts net =
     (case NewBlockchain P (d_so D) (d_ce D) genesisBlock (so_Storage opts) of
        None \<Rightarrow> None
      | Some (chain, Err e) \<Rightarrow> Some (Err e)
      | Some (chain, Panic p) \<Rightarrow> Some (Panic p)
      | Some (chain, Ok _) \<Rightarrow>
          (let isValidator = (so_PrivateKey opts \<noteq> None);
               chain = (case so_Consensus opts of None \<Rightarrow> chain | Some c \<Rightarrow> SetConsensus c chain);
               s = \<lparr>sv_ID = so_ID opts, sv_Transports = so_Transports opts,
                    sv_BlockTime = (if so_BlockTime opts = 0 then defaultBlockTime else so_BlockTime opts), sv_PrivateKey = so_PrivateKey opts,
                    sv_RPCAddr = so_RPCAddr opts, sv_SeedNodes = so_SeedNodes opts,
                    sv_memPool = NewTxPool defaultTxPoolMaxLength, sv_chain = chain, sv_isValidator = isValidator,
                    sv_rpcCh = [], sv_peers = Map.empty, nd_net = net, nd_go = [], nd_mining = None\<rparr>;
               s = (if isValidator then spawn GoValidatorLoop s else s)
           in Some (Ok (if sv_RPCAddr s \<noteq> [] then initRPCServer s else s))))"

primrec Server_broadcast_loop ::
  "('h, 'n) Transport \<Rightarrow> byte list \<Rightarrow> 'h list \<Rightarrow> ('h, 's, 'c, 'n) Node \<Rightarrow> (('h, 's, 'c, 'n) Node \<times> unit res) option" where
  "Server_broadcast_loop tr payload [] nd = Some (nd, Ok ())"
| "Server_broadcast_loop tr payload (h # hs) nd =
     then_exec (on_net (tr_Broadcast tr h payload) nd) (Server_broadcast_loop tr payload hs)"

definition Server_broadcast ::
  "('h, 'n) Transport \<Rightarrow> byte list \<Rightarrow> ('h, 's, 'c, 'n) Node \<Rightarrow> (('h, 's, 'c, 'n) Node \<times> unit res) option" where
  "Server_broadcast tr payload nd = Server_broadcast_loop tr payload (sv_Transports nd) nd"

definition broadcastBlock ::
  "'x net_prims_scheme \<Rightarrow> ('h, 'n) Transport \<Rightarrow> Block \<Rightarrow> ('h, 's, 'c, 'n) Node
   \<Rightarrow> (('h, 's, 'c, 'n) Node \<times> unit res) option" where
  "broadcastBlock P tr b nd =
     node_try (Block_Encode P b) nd (\<lambda>buf.
       Server_broadcast tr (Message_Bytes P (NewMessage MessageTypeBlock buf)) nd)"

definition broadcastTx ::
  "'x net_prims_scheme \<Rightarrow> ('h, 'n) Transport \<Rightarrow> Transaction \<Rightarrow> ('h, 's, 'c, 'n) Node
   \<Rightarrow> (('h, 's, 'c, 'n) Node \<times> unit res) option" where
  "broadcastTx P tr tx nd =
     node_try (Transaction_Encode P tx) nd (\<lambda>buf.
       Server_broadcast tr (Message_Bytes P (NewMessage MessageTypeTx buf)) nd)"

definition localhost_alias :: "NetAddr \<Rightarrow> NetAddr" where
  "localhost_alias addr = strings_Replace1 addr ''localhost'' ''127.0.0.1''"

definition send_transport :: "('h, 's, 'c, 'n) Node \<Rightarrow> NetAddr \<Rightarrow> 'h option" where
  "send_transport nd addr =
     (case sv_peers nd addr of
        Some t \<Rightarrow> Some t
      | None \<Rightarrow>
          if strings_Contains addr ''localhost'' then sv_peers nd (localhost_alias addr) else None)"

definition Server_send ::
  "'x net_prims_scheme \<Rightarrow> ('h, 'n) Transport \<Rightarrow> NetAddr \<Rightarrow> Message \<Rightarrow> ('h, 's, 'c, 'n) Node
   \<Rightarrow> (('h, 's, 'c, 'n) Node \<times> unit res) option" where
  "Server_send P tr addr msg nd =
     (case send_transport nd addr of
        None \<Rightarrow> Some (nd, Err (ErrPeerNotFound addr))
      | Some t \<Rightarrow> on_net (tr_SendMessage tr t addr (Message_Bytes P msg)) nd)"

definition requestBlocksSync ::
  "'x net_prims_scheme \<Rightarrow> ('h, 'n) Transport \<Rightarrow> NetAddr \<Rightarrow> ('h, 's, 'c, 'n) Node
   \<Rightarrow> (('h, 's, 'c, 'n) Node \<times> unit res) option" where
  "requestBlocksSync P tr from_addr nd =
     node_try (gob_GetBlocks P \<lparr>gb_From = Height (sv_chain nd) + 1, gb_To = 0\<rparr>) nd (\<lambda>buf.
       Server_send P tr from_addr (NewMessage MessageTypeGetBlocks buf) nd)"

definition processBlock ::
  "'x net_prims_scheme \<Rightarrow> ('h, 'n, 's, 'c) Deps \<Rightarrow> NetAddr \<Rightarrow> Block \<Rightarrow> ('h, 's, 'c, 'n) Node
   \<Rightarrow> (('h, 's, 'c, 'n) Node \<times> unit res) option" where
  "processBlock P D from_addr b nd =
     (case AddBlock P (d_so D) (d_ce D) b (sv_chain nd) of
        None \<Rightarrow> None
      | Some (chain, r) \<Rightarrow>
          (let nd = nd\<lparr>sv_chain := chain\<rparr> in
           case r of
             Ok _ \<Rightarrow> Some (spawn (GoBroadcastBlock b) nd, Ok ())
           | Panic p \<Rightarrow> Some (nd, Panic p)
           | Err e \<Rightarrow>
               if strings_Contains (Error_text e) ''too high'' then requestBlocksSync P (d_tr D) from_addr nd
               else if strings_Contains (Error_text e) ''chain already contains block'' then Some (nd, Ok ())
               else Some (nd, Err e)))"

definition ProcessTransaction ::
  "'x net_prims_scheme \<Rightarrow> i64 \<Rightarrow> Transaction \<Rightarrow> ('h, 's, 'c, 'n) Node
   \<Rightarrow> (('h, 's, 'c, 'n) Node \<times> unit res) option" where
  "ProcessTransaction P now tx nd =
     (let (hash, tx) = Transaction_Hash (TxHasher_Hash P) tx in
      if TxPool_Contains (sv_memPool nd) hash then Some (nd, Ok ())
      else node_try (Transaction_Verify P tx) nd (\<lambda>_.
        let tx = SetFirstSeen now tx; nd = spawn (GoBroadcastTx tx) nd in
        node_try (TxPool_Add P tx (sv_memPool nd)) nd (\<lambda>pool. Some (nd\<lparr>sv_memPool := pool\<rparr>, Ok ()))))"

definition BroadcastTransaction ::
  "'x net_prims_scheme \<Rightarrow> i64 \<Rightarrow> Transaction \<Rightarrow> ('h, 's, 'c, 'n) Node
   \<Rightarrow> (('h, 's, 'c, 'n) Node \<times> unit res) option" where
  "BroadcastTransaction P now tx nd = ProcessTransaction P now tx nd"

text \<open>
  Block production, in the two parts between which other goroutines run: the work on the new
  block, which only reads the node, and its addition to the chain.
\<close>

definition prepare_header :: "'c ConsensusEngine \<Rightarrow> ('h, 's, 'c, 'n) Node \<Rightarrow> Header \<Rightarrow> Header res" where
  "prepare_header ce nd h = (case bc_consensus (sv_chain nd) of None \<Rightarrow> Ok h | Some c \<Rightarrow> ce_Prepare ce h c)"

definition set_coinbase :: "'x net_prims_scheme \<Rightarrow> ('h, 's, 'c, 'n) Node \<Rightarrow> Header \<Rightarrow> Header res" where
  "set_coinbase P nd h =
     (if sv_isValidator nd
      then (case sv_PrivateKey nd of
              None \<Rightarrow> Panic NilDereference
            | Some key \<Rightarrow>
                bind_outcome (PublicKey_Address P (PrivateKey_PublicKey key)) (\<lambda>addr. Ok (h\<lparr>hd_Coinbase := addr\<rparr>)))
      else Ok h)"

definition seal_block :: "'c ConsensusEngine \<Rightarrow> (u64 \<Rightarrow> bool) \<Rightarrow> ('h, 's, 'c, 'n) Node \<Rightarrow> Block \<Rightarrow> Block res" where
  "seal_block ce clk nd block =
     (case bc_consensus (sv_chain nd) of None \<Rightarrow> Ok block | Some c \<Rightarrow> ce_Seal ce clk block c)"

definition sign_block :: "'x net_prims_scheme \<Rightarrow> nat \<Rightarrow> ('h, 's, 'c, 'n) Node \<Rightarrow> Block \<Rightarrow> Block res" where
  "sign_block P rnd nd block =
     (case sv_PrivateKey nd of None \<Rightarrow> Panic NilDereference | Some key \<Rightarrow> Block_Sign P rnd key block)"

definition createNewBlock_prepare ::
  "'x net_prims_scheme \<Rightarrow> 'c ConsensusEngine \<Rightarrow> i64 \<Rightarrow> (u64 \<Rightarrow> bool) \<Rightarrow> nat \<Rightarrow> ('h, 's, 'c, 'n) Node \<Rightarrow> Block res" where
  "createNewBlock_prepare P ce now clk rnd nd =
     bind_outcome (GetHeader (sv_chain nd) (Height (sv_chain nd))) (\<lambda>currentHeader.
     bind_outcome (NewBlockFromPrevHeader P now currentHeader (Pending (sv_memPool nd))) (\<lambda>block.
     case b_Header block of
       None \<Rightarrow> Panic NilDereference
     | Some h \<Rightarrow>
         bind_outcome (prepare_header ce nd h) (\<lambda>h.
         bind_outcome (set_coinbase P nd h) (\<lambda>h.
         bind_outcome (seal_block ce clk nd (block\<lparr>b_Header := Some h\<rparr>)) (sign_block P rnd nd)))))"

definition createNewBlock_commit ::
  "'x net_prims_scheme \<Rightarrow> ('h, 'n, 's, 'c) Deps \<Rightarrow> Block \<Rightarrow> ('h, 's, 'c, 'n) Node
   \<Rightarrow> (('h, 's, 'c, 'n) Node \<times> unit res) option" where
  "createNewBlock_commit P D block nd =
     then_exec (map_option (\<lambda>(chain, r). (nd\<lparr>sv_chain := chain\<rparr>, r))
                  (AddBlock P (d_so D) (d_ce D) block (sv_chain nd))) (\<lambda>nd.
       Some (spawn (GoBroadcastBlock block) (nd\<lparr>sv_memPool := ClearPending (sv_memPool nd)\<rparr>), Ok ()))"

definition createNewBlock ::
  "'x net_prims_scheme \<Rightarrow> ('h, 'n, 's, 'c) Deps \<Rightarrow> i64 \<Rightarrow> (u64 \<Rightarrow> bool) \<Rightarrow> nat \<Rightarrow> ('h, 's, 'c, 'n) Node
   \<Rightarrow> (('h, 's, 'c, 'n) Node \<times> unit res) option" where
  "createNewBlock P D now clk rnd nd =
     node_try (createNewBlock_prepare P (d_ce D) now clk rnd nd) nd (\<lambda>block. createNewBlock_commit P D block nd)"

definition processStatusMessage ::
  "'x net_prims_scheme \<Rightarrow> ('h, 'n) Transport \<Rightarrow> NetAddr \<Rightarrow> StatusMessage \<Rightarrow> ('h, 's, 'c, 'n) Node
   \<Rightarrow> (('h, 's, 'c, 'n) Node \<times> unit res) option" where
  "processStatusMessage P tr from_addr msg nd =
     (if sm_Height msg > Height (sv_chain nd)
      then node_try (gob_GetBlocks P \<lparr>gb_From = Height (sv_chain nd) + 1, gb_To = sm_Height msg\<rparr>) nd (\<lambda>buf.
        Server_send P tr from_addr (NewMessage MessageTypeGetBlocks buf) nd)
      else Some (nd, Ok ()))"

definition processGetStatusMessage ::
  "'x net_prims_scheme \<Rightarrow> ('h, 'n) Transport \<Rightarrow> NetAddr \<Rightarrow> ('h, 's, 'c, 'n) Node
   \<Rightarrow> (('h, 's, 'c, 'n) Node \<times> unit res) option" where
  "processGetStatusMessage P tr from_addr nd =
     node_try (gob_Status P \<lparr>sm_ID = sv_ID nd, sm_Version = 1, sm_Height = Height (sv_chain nd)\<rparr>) nd (\<lambda>buf.
       Server_send P tr from_addr (NewMessage MessageTypeStatus buf) nd)"

partial_function (option) GetBlocks_loop ::
  "'s Storage \<Rightarrow> ('s, 'c) Blockchain \<Rightarrow> u32 \<Rightarrow> u32 \<Rightarrow> Block list \<Rightarrow> Block list res option" where
  "GetBlocks_loop so bc i to blocks =
     (if i \<le> to
      then (case GetBlock so bc i of
              Ok block \<Rightarrow> GetBlocks_loop so bc (i + 1) to (blocks @ [block])
            | Err e \<Rightarrow> Some (Err e)
            | Panic p \<Rightarrow> Some (Panic p))
      else Some (Ok blocks))"

declare GetBlocks_loop.simps [code]

definition processGetBlocks ::
  "'x net_prims_scheme \<Rightarrow> ('h, 'n, 's, 'c) Deps \<Rightarrow> NetAddr \<Rightarrow> GetBlocksMessage \<Rightarrow> ('h, 's, 'c, 'n) Node
   \<Rightarrow> (('h, 's, 'c, 'n) Node \<times> unit res) option" where
  "processGetBlocks P D from_addr msg nd =
     (let to = (if gb_To msg = 0 \<or> gb_To msg > Height (sv_chain nd) then Height (sv_chain nd) else gb_To msg) in
      case GetBlocks_loop (d_so D) (sv_chain nd) (gb_From msg) to [] of
        None \<Rightarrow> None
      | Some r \<Rightarrow>
          node_try r nd (\<lambda>blocks.
          node_try (Blocks_Encode P blocks) nd (\<lambda>buf.
            Server_send P (d_tr D) from_addr (NewMessage MessageTypeBlocks buf) nd)))"

primrec processBlocks ::
  "'x net_prims_scheme \<Rightarrow> ('h, 'n, 's, 'c) Deps \<Rightarrow> Block list \<Rightarrow> ('h, 's, 'c, 'n) Node
   \<Rightarrow> (('h, 's, 'c, 'n) Node \<times> unit res) option" where
  "processBlocks P D [] nd = Some (nd, Ok ())"
| "processBlocks P D (b # bs) nd =
     then_exec (map_option (\<lambda>(chain, r). (nd\<lparr>sv_chain := chain\<rparr>, r))
                  (AddBlock P (d_so D) (d_ce D) b (sv_chain nd))) (processBlocks P D bs)"

definition isPeerConnected :: "('h, 's, 'c, 'n) Node \<Rightarrow> NetAddr \<Rightarrow> bool" where
  "isPeerConnected nd addr \<longleftrightarrow> sv_peers nd addr \<noteq> None"

text \<open>\<open>s.Transports[0]\<close>.\<close>

definition first_transport :: "('h, 's, 'c, 'n) Node \<Rightarrow> 'h res" where
  "first_transport nd = (case sv_Transports nd of [] \<Rightarrow> Panic IndexOutOfRange | h # _ \<Rightarrow> Ok h)"

definition sendGetStatus ::
  "'x net_prims_scheme \<Rightarrow> ('h, 'n) Transport \<Rightarrow> NetAddr \<Rightarrow> ('h, 's, 'c, 'n) Node
   \<Rightarrow> (('h, 's, 'c, 'n) Node \<times> unit res) option" where
  "sendGetStatus P tr addr nd = Server_send P tr addr (NewMessage MessageTypeGetStatus []) nd"

definition sendGetPeers ::
  "'x net_prims_scheme \<Rightarrow> ('h, 'n) Transport \<Rightarrow> NetAddr \<Rightarrow> ('h, 's, 'c, 'n) Node
   \<Rightarrow> (('h, 's, 'c, 'n) Node \<times> unit res) option" where
  "sendGetPeers P tr to nd =
     (let (buf, r) = gob_Message P (NewMessage MessageTypeGetPeers []) in
      node_try r nd (\<lambda>_. node_try (first_transport nd) nd (\<lambda>h. on_net (tr_SendMessage tr h to buf) nd)))"

text \<open>\<open>ord\<close> is the order in which the map of peers is ranged over.\<close>

definition handleGetPeers ::
  "'x net_prims_scheme \<Rightarrow> ('h, 'n) Transport \<Rightarrow> ((NetAddr \<rightharpoonup> 'h) \<Rightarrow> NetAddr list) \<Rightarrow> NetAddr \<Rightarrow> ('h, 's, 'c, 'n) Node
   \<Rightarrow> (('h, 's, 'c, 'n) Node \<times> unit res) option" where
  "handleGetPeers P tr ord from_addr nd =
     (let peers = filter (\<lambda>addr. addr \<noteq> from_addr) (ord (sv_peers nd)) in
      node_try (gob_SharePeers P peers) nd (\<lambda>payload.
        let (buf, r) = gob_Message P (NewMessage MessageTypeSharePeers payload) in
        node_try r nd (\<lambda>_. node_try (first_transport nd) nd (\<lambda>h. on_net (tr_SendMessage tr h from_addr buf) nd))))"

primrec handleSharePeers ::
  "('h, 'n) Transport \<Rightarrow> NetAddr list \<Rightarrow> ('h, 's, 'c, 'n) Node \<Rightarrow> (('h, 's, 'c, 'n) Node \<times> unit res) option" where
  "handleSharePeers tr [] nd = Some (nd, Ok ())"
| "handleSharePeers tr (addr # addrs) nd =
     (if isPeerConnected nd addr then handleSharePeers tr addrs nd
      else node_try (first_transport nd) nd (\<lambda>h.
        if addr \<noteq> tr_Addr tr (nd_net nd) h then handleSharePeers tr addrs (spawn (GoConnect h addr) nd)
        else handleSharePeers tr addrs nd))"

definition ProcessMessage ::
  "'x net_prims_scheme \<Rightarrow> ('h, 'n, 's, 'c) Deps \<Rightarrow> ((NetAddr \<rightharpoonup> 'h) \<Rightarrow> NetAddr list) \<Rightarrow> i64
   \<Rightarrow> DecodedMessage option \<Rightarrow> ('h, 's, 'c, 'n) Node \<Rightarrow> (('h, 's, 'c, 'n) Node \<times> unit res) option" where
  "ProcessMessage P D ord now m nd =
     (case m of
        None \<Rightarrow> Some (nd, Panic NilDereference)
      | Some msg \<Rightarrow>
          (case dm_Data msg of
             MsgTx tx \<Rightarrow> ProcessTransaction P now tx nd
           | MsgBlock b \<Rightarrow> processBlock P D (dm_From msg) b nd
           | MsgGetBlocks g \<Rightarrow> processGetBlocks P D (dm_From msg) g nd
           | MsgBlocks bs \<Rightarrow> processBlocks P D bs nd
           | MsgStatus st \<Rightarrow> processStatusMessage P (d_tr D) (dm_From msg) st nd
           | MsgGetStatus \<Rightarrow> processGetStatusMessage P (d_tr D) (dm_From msg) nd
           | MsgGetPeers \<Rightarrow> handleGetPeers P (d_tr D) ord (dm_From msg) nd
           | MsgSharePeers as \<Rightarrow> handleSharePeers (d_tr D) as nd))"

text \<open>One turn of the loop of \<open>Start\<close> for a received RPC.\<close>

definition Start_rpc ::
  "'x net_prims_scheme \<Rightarrow> ('h, 'n, 's, 'c) Deps \<Rightarrow> ((NetAddr \<rightharpoonup> 'h) \<Rightarrow> NetAddr list) \<Rightarrow> i64 \<Rightarrow> RPC
   \<Rightarrow> ('h, 's, 'c, 'n) Node \<Rightarrow> (('h, 's, 'c, 'n) Node \<times> unit res) option" where
  "Start_rpc P D ord now rpc nd =
     (case DefaultRPCDecodeFunc P rpc of
        Panic p \<Rightarrow> Some (nd, Panic p)
      | Err e \<Rightarrow> drop_err (ProcessMessage P D ord now None nd)
      | Ok msg \<Rightarrow> drop_err (ProcessMessage P D ord now (Some msg) nd))"

definition initTransports :: "('h, 's, 'c, 'n) Node \<Rightarrow> ('h, 's, 'c, 'n) Node" where
  "initTransports nd = fold (\<lambda>h. spawn (GoConsume h)) (sv_Transports nd) nd"

text \<open>The beginning of \<open>Start\<close>, before its loop.\<close>

definition Start_init :: "('h, 's, 'c, 'n) Node \<Rightarrow> ('h, 's, 'c, 'n) Node" where
  "Start_init nd = spawn GoDiscoveryLoop (initTransports nd)"

definition addPeer :: "NetAddr \<Rightarrow> 'h \<Rightarrow> ('h, 's, 'c, 'n) Node \<Rightarrow> ('h, 's, 'c, 'n) Node" where
  "addPeer addr h nd =
     (case sv_peers nd addr of None \<Rightarrow> nd\<lparr>sv_peers := (sv_peers nd)(addr \<mapsto> h)\<rparr> | Some _ \<Rightarrow> nd)"

text \<open>
  One turn of the goroutine that consumes a transport: it blocks on the unbuffered \<open>rpcCh\<close>, so
  \<open>sv_rpcCh\<close> holds the RPCs that such goroutines offer.
\<close>

definition consume_rpc :: "('h, 'n) Transport \<Rightarrow> 'h \<Rightarrow> ('h, 's, 'c, 'n) Node \<Rightarrow> ('h, 's, 'c, 'n) Node option" where
  "consume_rpc tr h nd =
     map_option (\<lambda>(rpc, n).
         let nd = addPeer (rpc_From rpc) h (nd\<lparr>nd_net := n\<rparr>) in nd\<lparr>sv_rpcCh := sv_rpcCh nd @ [rpc]\<rparr>)
       (tr_Consume tr h (nd_net nd))"

primrec bootstrap_loop ::
  "'x net_prims_scheme \<Rightarrow> ('h, 'n) Transport \<Rightarrow> NetAddr list \<Rightarrow> ('h, 's, 'c, 'n) Node
   \<Rightarrow> (('h, 's, 'c, 'n) Node \<times> unit res) option" where
  "bootstrap_loop P tr [] nd = Some (nd, Ok ())"
| "bootstrap_loop P tr (addr # addrs) nd =
     (case (if isPeerConnected nd addr then Some (nd, Ok ())
            else node_try (first_transport nd) nd (\<lambda>h. on_net (tr_Connect tr h (RemoteTCP addr)) nd)) of
        None \<Rightarrow> None
      | Some (nd, Panic p) \<Rightarrow> Some (nd, Panic p)
      | Some (nd, Err e) \<Rightarrow> bootstrap_loop P tr addrs nd
      | Some (nd, Ok _) \<Rightarrow>
          (let pAddr = (if strings_Contains addr ''localhost'' then localhost_alias addr else addr) in
           then_exec (drop_err (sendGetStatus P tr pAddr nd)) (\<lambda>nd.
           then_exec (drop_err (sendGetPeers P tr pAddr nd)) (\<lambda>nd.
             bootstrap_loop P tr addrs nd))))"

definition bootstrap ::
  "'x net_prims_scheme \<Rightarrow> ('h, 'n) Transport \<Rightarrow> ('h, 's, 'c, 'n) Node \<Rightarrow> (('h, 's, 'c, 'n) Node \<times> unit res) option" where
  "bootstrap P tr nd = bootstrap_loop P tr (sv_SeedNodes nd) nd"

text \<open>
  One turn of \<open>discoveryLoop\<close>: the first when the goroutine starts, the others when its timer
  fires. Nothing ever sends on \<open>quitCh\<close>.
\<close>

definition discoveryLoop_turn ::
  "'x net_prims_scheme \<Rightarrow> ('h, 'n) Transport \<Rightarrow> ('h, 's, 'c, 'n) Node \<Rightarrow> (('h, 's, 'c, 'n) Node \<times> unit res) option" where
  "discoveryLoop_turn P tr nd = bootstrap P tr nd"

text \<open>
  The body of a goroutine that a handler started; its error is dropped. \<open>ValidatorLoop\<close> creates its
  ticker, which panics on a block time that is not positive; its turns and those of the other
  loops are steps of their own below.
\<close>

definition NewTicker :: "i64 \<Rightarrow> unit res" where
  "NewTicker d = (if sint d \<le> 0 then Panic NonPositiveInterval else Ok ())"

primrec run_task ::
  "'x net_prims_scheme \<Rightarrow> ('h, 'n) Transport \<Rightarrow> 'h go_task \<Rightarrow> ('h, 's, 'c, 'n) Node
   \<Rightarrow> (('h, 's, 'c, 'n) Node \<times> unit res) option" where
  "run_task P tr GoValidatorLoop nd = Some (nd, NewTicker (sv_BlockTime nd))"
| "run_task P tr (GoRPCServer a) nd = Some (nd, Ok ())"
| "run_task P tr (GoConsume h) nd = Some (nd, Ok ())"
| "run_task P tr GoDiscoveryLoop nd = discoveryLoop_turn P tr nd"
| "run_task P tr (GoBroadcastBlock b) nd = drop_err (broadcastBlock P tr b nd)"
| "run_task P tr (GoBroadcastTx tx) nd = drop_err (broadcastTx P tr tx nd)"
| "run_task P tr (GoConnect h a) nd = drop_err (on_net (tr_Connect tr h (RemoteTCP a)) nd)"

section \<open>Runs of a node\<close>

text \<open>
  The steps a node can make, in any order: a transport goroutine takes an RPC, the main loop
  serves one, the validator loop prepares a block and later adds it, a started goroutine runs, the
  discovery timer fires, a client submits a transaction. The process ends with a panic, so a step
  that panics has no successor.
\<close>

inductive node_act ::
  "'x net_prims_scheme \<Rightarrow> ('h, 'n, 's, 'c) Deps \<Rightarrow> ('h, 's, 'c, 'n) Node \<Rightarrow> ('h, 's, 'c, 'n) Node \<Rightarrow> bool"
  for P :: "'x net_prims_scheme" and D :: "('h, 'n, 's, 'c) Deps" where
  node_consume: "h \<in> set (sv_Transports nd) \<Longrightarrow> consume_rpc (d_tr D) h nd = Some nd' \<Longrightarrow> node_act P D nd nd'"
| node_serve: "sv_rpcCh nd = xs @ rpc # ys \<Longrightarrow>
    Start_rpc P D ord now rpc (nd\<lparr>sv_rpcCh := xs @ ys\<rparr>) = Some (nd', r) \<Longrightarrow> \<not> is_Panic r \<Longrightarrow> node_act P D nd nd'"
| node_mine: "sv_isValidator nd \<Longrightarrow> nd_mining nd = None \<Longrightarrow>
    createNewBlock_prepare P (d_ce D) now clk rnd nd = Ok b \<Longrightarrow> node_act P D nd (nd\<lparr>nd_mining := Some b\<rparr>)"
| node_commit: "nd_mining nd = Some b \<Longrightarrow>
    createNewBlock_commit P D b (nd\<lparr>nd_mining := None\<rparr>) = Some (nd', r) \<Longrightarrow> \<not> is_Panic r \<Longrightarrow> node_act P D nd nd'"
| node_task: "nd_go nd = xs @ t # ys \<Longrightarrow>
    run_task P (d_tr D) t (nd\<lparr>nd_go := xs @ ys\<rparr>) = Some (nd', r) \<Longrightarrow> \<not> is_Panic r \<Longrightarrow> node_act P D nd nd'"
| node_discover: "discoveryLoop_turn P (d_tr D) nd = Some (nd', r) \<Longrightarrow> \<not> is_Panic r \<Longrightarrow> node_act P D nd nd'"
| node_submit: "Transaction_Decode P raw = Ok tx \<Longrightarrow> BroadcastTransaction P now tx nd = Some (nd', r) \<Longrightarrow>
    \<not> is_Panic r \<Longrightarrow> node_act P D nd nd'"

text \<open>A single node in a world that changes the network behind its transports at will.\<close>

inductive node_step ::
  "'x net_prims_scheme \<Rightarrow> ('h, 'n, 's, 'c) Deps \<Rightarrow> ('h, 's, 'c, 'n) Node \<Rightarrow> ('h, 's, 'c, 'n) Node \<Rightarrow> bool"
  for P :: "'x net_prims_scheme" and D :: "('h, 'n, 's, 'c) Deps" where
  node_own: "node_act P D nd nd' \<Longrightarrow> node_step P D nd nd'"
| node_world: "node_step P D nd (nd\<lparr>nd_net := n\<rparr>)"

end
