(* ===== verification/Sample.thy ===== *)
theory Sample
  imports Chain_Props LevelDB TxPool ForkChoice Server
begin

text \<open>
  A concrete instance of the parameters (a toy hash that keeps the first 32 bytes, a toy signature
  scheme, a \<open>gob\<close> that knows a few values, a database that is a map) together with keys,
  transactions, blocks and chains. The theorems are applied to it to show that their hypotheses
  can hold together; nothing is proved about the code from it.
\<close>

definition demo_sha :: "byte list \<Rightarrow> hash" where
  "demo_sha bs = mk_hash (replicate (32 - length bs) 0 @ take 32 bs)"

definition demo_key :: PrivateKey where
  "demo_key = \<lparr>key_D = 1, key_pub = \<lparr>pub_X = 5, pub_Y = 7\<rparr>\<rparr>"

definition demo_addr :: address where
  "demo_addr = mk_address (replicate 17 0 @ [2, 5, 7])"

definition demo_dest :: address where
  "demo_dest = mk_address (replicate 19 0 @ [9])"

text \<open>A signed transfer of 3 to \<open>demo_dest\<close>, and its wire form.\<close>

definition demo_tx :: Transaction where
  "demo_tx = (NewTransaction [])\<lparr>tx_To := demo_dest, tx_Value := 3, tx_From := \<lparr>Key = Some \<lparr>pub_X = 5, pub_Y = 7\<rparr>\<rparr>,
     tx_Signature := Some \<lparr>sig_S = Some 0, sig_R = Some 5\<rparr>\<rparr>"

definition demo_wire :: tx_wire where
  "demo_wire = \<lparr>w_Data = [], w_To = demo_dest, w_Value = 3, w_Nonce = 0, w_GasLimit = 0, w_GasPrice = 0,
     w_From = [2, 5, 7], w_Signature = Some \<lparr>sig_S = Some 0, sig_R = Some 5\<rparr>\<rparr>"

definition demo_gob_Header :: "Header \<Rightarrow> byte list" where
  "demo_gob_Header h = hash_bytes (hd_DataHash h) ! 31 # hash_bytes (hd_PrevBlockHash h) ! 31
     # PutUint32 (hd_Height h) @ [ucast (hd_Difficulty h), ucast (hd_Nonce h)]"

definition demo_header :: "u32 \<Rightarrow> hash \<Rightarrow> hash \<Rightarrow> Header" where
  "demo_header n dataHash prev =
     \<lparr>hd_Version = 1, hd_DataHash = dataHash, hd_PrevBlockHash = prev, hd_StateRoot = zero_hash, hd_Height = n,
      hd_Timestamp = 0, hd_Nonce = 0, hd_Difficulty = 16, hd_Coinbase = demo_addr\<rparr>"

definition demo_prev :: "Header \<Rightarrow> hash" where
  "demo_prev h = demo_sha (demo_gob_Header h)"

definition demo_h0 :: Header where
  "demo_h0 = \<lparr>hd_Version = 1, hd_DataHash = zero_hash, hd_PrevBlockHash = zero_hash, hd_StateRoot = zero_hash,
     hd_Height = 0, hd_Timestamp = 0, hd_Nonce = 0, hd_Difficulty = 0, hd_Coinbase = zero_address\<rparr>"

definition demo_h1 :: Header where
  "demo_h1 = demo_header 1 zero_hash (demo_prev demo_h0)"

definition demo_h2 :: Header where
  "demo_h2 = demo_header 2 (demo_sha [1]) (demo_prev demo_h1)"

definition demo_hf :: Header where
  "demo_hf = demo_h1\<lparr>hd_Nonce := 1\<rparr>"

definition demo_sign :: "Header \<Rightarrow> Signature" where
  "demo_sign h = \<lparr>sig_S = Some (SetBytes (take 32 (demo_gob_Header h))), sig_R = Some 5\<rparr>"

definition demo_b0 :: Block where
  "demo_b0 = NewBlock demo_h0 []"

definition demo_block :: "Header \<Rightarrow> Transaction list \<Rightarrow> Block" where
  "demo_block h txs = (NewBlock h txs)\<lparr>b_Validator := \<lparr>Key = Some \<lparr>pub_X = 5, pub_Y = 7\<rparr>\<rparr>,
     b_Signature := Some (demo_sign h)\<rparr>"

definition demo_b1 :: Block where
  "demo_b1 = demo_block demo_h1 []"

definition demo_b2 :: Block where
  "demo_b2 = demo_block demo_h2 [demo_tx]"

text \<open>Another block of height 1.\<close>

definition demo_bf :: Block where
  "demo_bf = demo_block demo_hf []"

definition demo_wire0 :: block_wire where
  "demo_wire0 = \<lparr>bw_Header = Some demo_h0, bw_Transactions = [], bw_Evidence = [],
     bw_Validator = [], bw_Signature = None\<rparr>"

definition demo_wire1 :: block_wire where
  "demo_wire1 = \<lparr>bw_Header = Some demo_h1, bw_Transactions = [], bw_Evidence = [],
     bw_Validator = [2, 5, 7], bw_Signature = Some (demo_sign demo_h1)\<rparr>"

definition demo_wire2 :: block_wire where
  "demo_wire2 = \<lparr>bw_Header = Some demo_h2, bw_Transactions = [demo_wire], bw_Evidence = [],
     bw_Validator = [2, 5, 7], bw_Signature = Some (demo_sign demo_h2)\<rparr>"

definition demo_wiref :: block_wire where
  "demo_wiref = \<lparr>bw_Header = Some demo_hf, bw_Transactions = [], bw_Evidence = [],
     bw_Validator = [2, 5, 7], bw_Signature = Some (demo_sign demo_hf)\<rparr>"

definition demo_Marshal :: "ecdsa_pub \<Rightarrow> byte list res" where
  "demo_Marshal k =
     (if 0 \<le> pub_X k \<and> pub_X k < 256 \<and> 0 \<le> pub_Y k \<and> pub_Y k < 256
      then Ok [2, word_of_int (pub_X k), word_of_int (pub_Y k)] else Panic (ExternalPanic ''point''))"

definition demo_Unmarshal :: "byte list \<Rightarrow> (int \<times> int) option" where
  "demo_Unmarshal bs = (case bs of [t, x, y] \<Rightarrow> Some (uint x, uint y) | _ \<Rightarrow> None)"

definition demo_Sign :: "nat \<Rightarrow> PrivateKey \<Rightarrow> byte list \<Rightarrow> (int \<times> int) res" where
  "demo_Sign rnd k d = Ok (pub_X (key_pub k), SetBytes (take 32 d))"

definition demo_Verify :: "ecdsa_pub option \<Rightarrow> byte list \<Rightarrow> int option \<Rightarrow> int option \<Rightarrow> bool res" where
  "demo_Verify k d r s =
     Ok (case k of None \<Rightarrow> False | Some p \<Rightarrow> r = Some (pub_X p) \<and> s = Some (SetBytes (take 32 d)))"

definition demo_gob_tx :: "tx_wire \<Rightarrow> byte list res" where
  "demo_gob_tx w = (if w = demo_wire then Ok [1] else Err (ErrExternal ''gob''))"

definition demo_ungob_tx :: "byte list \<Rightarrow> tx_wire res" where
  "demo_ungob_tx bs = (if bs = [1] then Ok demo_wire else Err (ErrExternal ''gob''))"

definition demo_gob_block :: "block_wire \<Rightarrow> byte list res" where
  "demo_gob_block w =
     (if w = demo_wire0 then Ok [10] else if w = demo_wire1 then Ok [11] else if w = demo_wire2 then Ok [12]
      else if w = demo_wiref then Ok [13] else Err (ErrExternal ''gob''))"

definition demo_ungob_block :: "byte list \<Rightarrow> block_wire res" where
  "demo_ungob_block bs =
     (if bs = [10] then Ok demo_wire0 else if bs = [11] then Ok demo_wire1 else if bs = [12] then Ok demo_wire2
      else if bs = [13] then Ok demo_wiref else Err (ErrExternal ''gob''))"

text \<open>Messages: the type byte in front of the data, small numbers as bytes.\<close>

definition demo_ungob_Message :: "byte list \<Rightarrow> Message res" where
  "demo_ungob_Message bs = (case bs of [] \<Rightarrow> Err (ErrExternal ''EOF'') | t # d \<Rightarrow> Ok (NewMessage t d))"

definition demo_gob_GetBlocks :: "GetBlocksMessage \<Rightarrow> byte list res" where
  "demo_gob_GetBlocks m =
     (if gb_From m < 256 \<and> gb_To m < 256 then Ok [ucast (gb_From m), ucast (gb_To m)] else Err (ErrExternal ''gob''))"

definition demo_ungob_GetBlocks :: "byte list \<Rightarrow> GetBlocksMessage res" where
  "demo_ungob_GetBlocks bs =
     (case bs of [f, t] \<Rightarrow> Ok \<lparr>gb_From = ucast f, gb_To = ucast t\<rparr> | _ \<Rightarrow> Err (ErrExternal ''gob''))"

definition demo_gob_Blocks :: "block_wire list \<Rightarrow> byte list res" where
  "demo_gob_Blocks ws = bind_outcome (mapM_outcome demo_gob_block ws) (\<lambda>bss. Ok (concat bss))"

definition demo_ungob_Blocks :: "byte list \<Rightarrow> block_wire list res" where
  "demo_ungob_Blocks bs = mapM_outcome (\<lambda>b. demo_ungob_block [b]) bs"

definition demo_gob_Status :: "StatusMessage \<Rightarrow> byte list res" where
  "demo_gob_Status m =
     (if sm_Version m < 256 \<and> sm_Height m < 256
      then Ok (ucast (sm_Version m) # ucast (sm_Height m) # map (\<lambda>c. of_nat (of_char c)) (sm_ID m))
      else Err (ErrExternal ''gob''))"

definition demo_ungob_Status :: "byte list \<Rightarrow> StatusMessage res" where
  "demo_ungob_Status bs =
     (case bs of v # h # s \<Rightarrow> Ok \<lparr>sm_ID = map (\<lambda>b. char_of (unat b)) s, sm_Version = ucast v, sm_Height = ucast h\<rparr>
      | _ \<Rightarrow> Err (ErrExternal ''gob''))"

definition demo_gob_SharePeers :: "NetAddr list \<Rightarrow> byte list res" where
  "demo_gob_SharePeers as = (if as = [] then Ok [] else Err (ErrExternal ''gob''))"

definition demo_P :: net_prims where
  "demo_P = \<lparr>sha256 = demo_sha, keccak256 = demo_sha, max_alloc = 4096,
     MarshalCompressed = demo_Marshal, UnmarshalCompressed = demo_Unmarshal,
     ecdsa_Sign = demo_Sign, ecdsa_Verify = demo_Verify,
     gob_Transaction = demo_gob_tx, ungob_Transaction = demo_ungob_tx, gob_Header = demo_gob_Header,
     gob_Block = demo_gob_block, ungob_Block = demo_ungob_block,
     gob_Message = (\<lambda>m. (msg_Header m # msg_Data m, Ok ())), ungob_Message = demo_ungob_Message,
     gob_GetBlocks = demo_gob_GetBlocks, ungob_GetBlocks = demo_ungob_GetBlocks,
     gob_Blocks = demo_gob_Blocks, ungob_Blocks = demo_ungob_Blocks,
     gob_Status = demo_gob_Status, ungob_Status = demo_ungob_Status,
     gob_SharePeers = demo_gob_SharePeers, ungob_SharePeers = (\<lambda>_. Ok [])\<rparr>"

lemma demo_P_sel [simp]:
  "sha256 demo_P = demo_sha" "keccak256 demo_P = demo_sha" "max_alloc demo_P = 4096"
  "MarshalCompressed demo_P = demo_Marshal" "UnmarshalCompressed demo_P = demo_Unmarshal"
  "ecdsa_Sign demo_P = demo_Sign" "ecdsa_Verify demo_P = demo_Verify"
  "gob_Transaction demo_P = demo_gob_tx" "ungob_Transaction demo_P = demo_ungob_tx"
  "gob_Header demo_P = demo_gob_Header" "gob_Block demo_P = demo_gob_block"
  "ungob_Block demo_P = demo_ungob_block"
  "gob_Message demo_P m = (msg_Header m # msg_Data m, Ok ())" "ungob_Message demo_P = demo_ungob_Message"
  "gob_GetBlocks demo_P = demo_gob_GetBlocks" "ungob_GetBlocks demo_P = demo_ungob_GetBlocks"
  "gob_Blocks demo_P = demo_gob_Blocks" "ungob_Blocks demo_P = demo_ungob_Blocks"
  "gob_Status demo_P = demo_gob_Status" "ungob_Status demo_P = demo_ungob_Status"
  "gob_SharePeers demo_P = demo_gob_SharePeers" "ungob_SharePeers demo_P = (\<lambda>_. Ok [])"
  by (simp_all add: demo_P_def)

lemma demo_marshal: "marshal_roundtrip demo_P"
  by (auto simp: marshal_roundtrip_def demo_Marshal_def demo_Unmarshal_def uint_word_of_int split: if_splits)

lemma demo_sign_verifies: "sign_verifies demo_P"
  by (simp add: sign_verifies_def demo_Sign_def demo_Verify_def)

lemma demo_gob_tx: "gob_tx_roundtrip demo_P"
  by (auto simp: gob_tx_roundtrip_def demo_gob_tx_def demo_ungob_tx_def split: if_splits)

lemma demo_gob_block: "gob_block_roundtrip demo_P"
  by (auto simp: gob_block_roundtrip_def demo_gob_block_def demo_ungob_block_def split: if_splits)

lemma demo_gob_Blocks_roundtrip: "demo_gob_Blocks ws = Ok bs \<Longrightarrow> demo_ungob_Blocks bs = Ok ws"
proof (induction ws arbitrary: bs)
  case (Cons w ws)
  then obtain c cs where c: "demo_gob_block w = Ok c" and "demo_gob_Blocks ws = Ok cs" and "bs = c @ cs"
    by (auto simp: demo_gob_Blocks_def)
  moreover obtain x where "c = [x]" and "demo_ungob_block [x] = Ok w"
    using c by (auto simp: demo_gob_block_def demo_ungob_block_def split: if_splits)
  ultimately show ?case using Cons.IH by (simp add: demo_ungob_Blocks_def)
qed (simp add: demo_gob_Blocks_def demo_ungob_Blocks_def)

lemma demo_byte_u32: "x < 256 \<Longrightarrow> ucast (ucast x :: byte) = (x :: u32)"
  by (simp add: word_unat_eq_iff unsigned_ucast_eq unsigned_take_bit_eq word_less_nat_alt take_bit_nat_eq_self)

lemma demo_gob_messages: "gob_messages_roundtrip demo_P"
proof -
  have "demo_ungob_GetBlocks bs = Ok m" if "demo_gob_GetBlocks m = Ok bs" for m bs
    using that by (auto simp: demo_gob_GetBlocks_def demo_ungob_GetBlocks_def demo_byte_u32 split: if_splits)
  moreover have "demo_ungob_Status bs = Ok m" if "demo_gob_Status m = Ok bs" for m bs
  proof -
    have "char_of (unat (of_nat (of_char c) :: byte)) = c" for c by (simp add: unat_of_nat)
    then show ?thesis
      using that by (auto simp: demo_gob_Status_def demo_ungob_Status_def demo_byte_u32 comp_def split: if_splits)
  qed
  moreover have "demo_ungob_Message (msg_Header m # msg_Data m) = Ok m" for m
    by (simp add: demo_ungob_Message_def NewMessage_def)
  moreover have "[] = as" if "demo_gob_SharePeers as = Ok bs" for as bs
    using that by (simp add: demo_gob_SharePeers_def split: if_splits)
  ultimately show ?thesis using demo_gob_Blocks_roundtrip by (auto simp: gob_messages_roundtrip_def)
qed

lemma demo_runtime: "go_runtime demo_P"
  by (simp add: go_runtime_def)

section \<open>Valid transactions and blocks\<close>

lemma demo_sha_Nil: "demo_sha [] = zero_hash"
  by (simp add: demo_sha_def zero_hash_def)

lemma demo_BlockHasher [simp]: "BlockHasher_Hash demo_P h = demo_prev h"
  by (simp add: BlockHasher_Hash_def Header_Bytes_def demo_prev_def)

lemma demo_tx_Encode: "Transaction_Encode demo_P demo_tx = Ok [1]"
  by (simp add: Transaction_Encode_def Transaction_wire_def demo_tx_def NewTransaction_def PublicKey_GobEncode_def
      demo_Marshal_def demo_gob_tx_def demo_wire_def)

lemma demo_tx_Verify: "Transaction_Verify demo_P demo_tx = Ok ()"
  by (simp add: Transaction_Verify_def Signature_Verify_def demo_tx_def NewTransaction_def demo_Verify_def SetBytes_def)

lemma demo_tx_sender: "PublicKey_Address demo_P (tx_From demo_tx) = Ok demo_addr"
  by (simp add: demo_tx_def PublicKey_Address_cases PublicKey_ToSlice_def demo_sha_def demo_addr_def demo_Marshal_def)

lemma demo_key_addr: "PublicKey_Address demo_P (PrivateKey_PublicKey demo_key) = Ok demo_addr"
  using demo_tx_sender by (simp add: demo_tx_def PrivateKey_PublicKey_def demo_key_def)

lemmas demo_block_defs = demo_block_def NewBlock_def Signature_Verify_def demo_Verify_def demo_sign_def
  Header_Bytes_def CalculateDataHash_def demo_header_def

lemma demo_b1_Verify: "Block_Verify demo_P demo_b1 = Ok ()"
  by (simp add: Block_Verify_def demo_b1_def demo_h1_def demo_block_defs demo_sha_Nil)

lemma demo_b2_Verify: "Block_Verify demo_P demo_b2 = Ok ()"
  by (simp add: Block_Verify_def demo_b2_def demo_h2_def demo_block_defs demo_tx_Encode demo_tx_Verify)

lemma demo_bf_Verify: "Block_Verify demo_P demo_bf = Ok ()"
  by (simp add: Block_Verify_def demo_bf_def demo_hf_def demo_h1_def demo_block_defs demo_sha_Nil)

lemma demo_headers_neq:
  "demo_h0 \<noteq> demo_h1" "demo_h0 \<noteq> demo_h2" "demo_h1 \<noteq> demo_h2" "demo_hf \<noteq> demo_h0" "demo_hf \<noteq> demo_h1" "demo_hf \<noteq> demo_h2"
  by (auto simp: demo_h0_def demo_h1_def demo_h2_def demo_hf_def demo_header_def)

lemma demo_Encode:
  "Block_Encode demo_P demo_b0 = Ok [10]" "Block_Encode demo_P demo_b1 = Ok [11]" "Block_Encode demo_P demo_b2 = Ok [12]"
  "Block_Encode demo_P demo_bf = Ok [13]"
proof -
  have "Transaction_wire demo_P demo_tx = Ok demo_wire"
    by (simp add: Transaction_wire_def demo_tx_def NewTransaction_def PublicKey_GobEncode_def demo_Marshal_def demo_wire_def)
  then show "Block_Encode demo_P demo_b0 = Ok [10]" "Block_Encode demo_P demo_b1 = Ok [11]" "Block_Encode demo_P demo_b2 = Ok [12]"
    "Block_Encode demo_P demo_bf = Ok [13]"
    using demo_headers_neq
    by (simp_all add: Block_Encode_def Block_wire_def demo_b0_def demo_b1_def demo_b2_def demo_bf_def demo_block_def NewBlock_def
        PublicKey_GobEncode_def demo_Marshal_def demo_gob_block_def demo_wire0_def demo_wire1_def demo_wire2_def demo_wiref_def)
qed

lemma demo_addr_neq: "demo_addr \<noteq> demo_dest"
  by code_simp

lemma demo_b0_genesis: "demo_b0 = genesisBlock"
  by (simp add: demo_b0_def demo_h0_def genesisBlock_def)

section \<open>Chains\<close>

text \<open>The three chains: genesis, one block later (the reward is there), two blocks later.\<close>

definition demo_ms :: "MemoryStore Storage" where
  "demo_ms = MemoryStore_Storage demo_P"

definition demo_pow :: "PoWEngine ConsensusEngine" where
  "demo_pow = PoW_ConsensusEngine demo_P"

definition demo_bc0 :: "(MemoryStore, PoWEngine) Blockchain" where
  "demo_bc0 = SetConsensus (NewPoWEngine 0) (fst (the (NewBlockchain demo_P demo_ms demo_pow demo_b0 NewMemoryStorage)))"

definition demo_bc1 :: "(MemoryStore, PoWEngine) Blockchain" where
  "demo_bc1 = fst (the (AddBlock demo_P demo_ms demo_pow demo_b1 demo_bc0))"

definition demo_bc2 :: "(MemoryStore, PoWEngine) Blockchain" where
  "demo_bc2 = fst (the (AddBlock demo_P demo_ms demo_pow demo_b2 demo_bc1))"

lemma demo_new:
  "\<exists>st. NewBlockchain demo_P demo_ms demo_pow demo_b0 NewMemoryStorage =
     Some (\<lparr>bc_store = st, bc_Headers = [demo_h0], bc_consensus = None, bc_validator = BlockValidator,
            bc_WorldState = NewWorldState, bc_totalDifficulty = Some 0\<rparr>, Ok ())"
  by (simp add: NewBlockchain_def demo_ms_def MemoryStore_Storage_def MemoryStore_Get_def NewMemoryStorage_def
      addBlockWithoutValidationLocked_def demo_b0_def NewBlock_def Block_Hash_def MemoryStore_Put_def
      add_weight_def Let_def)

lemma demo_bc0_sel:
  "bc_Headers demo_bc0 = [demo_h0]" "bc_consensus demo_bc0 = Some (NewPoWEngine 0)"
  "bc_WorldState demo_bc0 = NewWorldState" "bc_totalDifficulty demo_bc0 = Some 0"
  using demo_new by (auto simp: demo_bc0_def SetConsensus_def)

lemma demo_Lsh16: "Lsh_one demo_P 16 = Ok 65536"
  by (simp add: Lsh_one_def push_bit_eq_mult)

lemma demo_pow_ok:
  assumes "hd_Difficulty h = 16"
  shows "snd (PoW_VerifyHeader demo_P h c) = Ok ()"
proof -
  have "hash_int demo_P h = SetBytes (demo_gob_Header h)"
    by (simp add: hash_int_def demo_prev_def demo_gob_Header_def demo_sha_def PutUint32_def SetBytes_def)
  also have "\<dots> < 256 ^ length (demo_gob_Header h)" using SetBytes_range by blast
  also have "length (demo_gob_Header h) = 8" by (simp add: demo_gob_Header_def)
  finally have "hash_int demo_P h \<le> 2 ^ 240" by simp
  then show ?thesis using assms by (simp add: PoW_VerifyHeader_iff pow_target_def)
qed

lemma demo_linked:
  "linked demo_P [demo_h0]" "linked demo_P [demo_h0, demo_h1]"
  by (simp_all add: linked_def demo_h0_def demo_h1_def demo_header_def less_Suc_eq)

lemma demo_add1: "\<exists>st. AddBlock demo_P demo_ms demo_pow demo_b1 demo_bc0 =
    Some (demo_bc0\<lparr>bc_WorldState := AddBalance demo_addr 5 NewWorldState, bc_Headers := [demo_h0, demo_h1],
      bc_totalDifficulty := Some 65536, bc_store := st\<rparr>, Ok ())"
proof -
  have "hd_Coinbase demo_h1 = demo_addr" "hd_Difficulty demo_h1 = 16" "hd_Height demo_h1 = 1"
    "hd_PrevBlockHash demo_h1 = demo_prev demo_h0" by (simp_all add: demo_h1_def demo_header_def)
  then show ?thesis
    using AddBlock_accepts [of demo_P demo_bc0 "NewPoWEngine 0" 0 demo_b1 demo_h1 NewWorldState 65536]
    unfolding demo_ms_def demo_pow_def
    by (simp add: demo_bc0_sel demo_linked demo_pow_ok demo_b1_Verify demo_Lsh16)
      (simp add: demo_b1_def demo_block_def NewBlock_def block_memo_ok_def)
qed

lemma demo_bc1_sel:
  "bc_Headers demo_bc1 = [demo_h0, demo_h1]" "bc_consensus demo_bc1 = Some (NewPoWEngine 0)"
  "bc_WorldState demo_bc1 = AddBalance demo_addr 5 NewWorldState" "bc_totalDifficulty demo_bc1 = Some 65536"
  "AddBlock demo_P demo_ms demo_pow demo_b1 demo_bc0 = Some (demo_bc1, Ok ())"
  using demo_add1 by (auto simp: demo_bc1_def demo_bc0_sel)

definition demo_paid :: WorldState where
  "demo_paid = fst (Transfer demo_addr demo_dest 3 (AddBalance demo_addr 5 NewWorldState))"

definition demo_ws :: WorldState where
  "demo_ws = IncrementNonce demo_addr demo_paid"

lemma demo_rich: "GetBalance (AddBalance a v NewWorldState) a = v"
proof -
  have "GetBalance NewWorldState a = 0" by (simp add: NewWorldState_def GetBalance_def)
  then show ?thesis by (simp add: AddBalance_balance)
qed

lemma demo_Transfer: "Transfer demo_addr demo_dest 3 (AddBalance demo_addr 5 NewWorldState) = (demo_paid, Ok ())"
proof -
  have "snd (Transfer demo_addr demo_dest 3 (AddBalance demo_addr 5 NewWorldState)) = Ok ()"
    using Transfer_Ok_iff [of demo_addr demo_dest 3 "AddBalance demo_addr 5 NewWorldState"]
    by (simp add: demo_rich) (simp add: AddBalance_def Let_def)
  then show ?thesis by (simp add: prod_eq_iff demo_paid_def)
qed

lemma demo_exec: "executeTransaction demo_P demo_tx (AddBalance demo_addr 5 NewWorldState) = Some (demo_ws, Ok ())"
proof -
  have tx: "tx_Data demo_tx = []" "tx_Value demo_tx = 3" "tx_To demo_tx = demo_dest" "tx_Signature demo_tx \<noteq> None"
    by (simp_all add: demo_tx_def NewTransaction_def)
  then show ?thesis
    by (simp add: executeTransaction_def execute_code_def execute_value_def execute_nonce_def with_sender_def
        demo_tx_sender demo_Transfer demo_ws_def)
qed

lemma demo_add2: "\<exists>bc. AddBlock demo_P demo_ms demo_pow demo_b2 demo_bc1 = Some (bc, Ok ())"
proof -
  have "hd_Difficulty demo_h2 = 16" "hd_Height demo_h2 = 2" "hd_PrevBlockHash demo_h2 = demo_prev demo_h1"
    by (simp_all add: demo_h2_def demo_header_def)
  moreover have "b_Transactions demo_b2 = [demo_tx]" "b_Header demo_b2 = Some demo_h2" "block_memo_ok demo_P demo_b2"
    by (simp_all add: demo_b2_def demo_block_def NewBlock_def block_memo_ok_def)
  ultimately show ?thesis
    using AddBlock_accepts [of demo_P demo_bc1 "NewPoWEngine 0" 65536 demo_b2 demo_h2 demo_ws 65536]
    unfolding demo_ms_def demo_pow_def
    by (auto simp: demo_bc1_sel demo_linked demo_pow_ok demo_b2_Verify demo_Lsh16 demo_exec)
qed

section \<open>A database\<close>

definition demo_L :: "(byte list \<rightharpoonup> byte list) leveldb" where
  "demo_L = \<lparr>ldb_Put = (\<lambda>k v d. (d(k \<mapsto> v), Ok ())),
     ldb_Get = (\<lambda>d k. case d k of None \<Rightarrow> Err (ErrExternal ''leveldb: not found'') | Some v \<Rightarrow> Ok v)\<rparr>"

lemma demo_L_laws: "leveldb_laws demo_L"
  by (simp add: leveldb_laws_def demo_L_def)

definition demo_db :: "byte list \<rightharpoonup> byte list" where
  "demo_db = [heightKey 0 \<mapsto> [10]]"

definition demo_ldb :: "(byte list \<rightharpoonup> byte list) Storage" where
  "demo_ldb = LevelDBStore_Storage demo_P demo_L"

definition demo_lbc :: "(byte list \<rightharpoonup> byte list, PoWEngine) Blockchain" where
  "demo_lbc = \<lparr>bc_store = demo_db, bc_Headers = [demo_h0], bc_consensus = Some (NewPoWEngine 0),
     bc_validator = BlockValidator, bc_WorldState = NewWorldState, bc_totalDifficulty = Some 0\<rparr>"

lemma demo_lbc_ok: "chain_ok demo_P demo_ldb demo_lbc"
proof -
  have "Block_Decode demo_P [10] = Ok (block_exported demo_b0)"
    using demo_marshal demo_gob_block demo_Encode(1) by (rule Block_gob_roundtrip)
  then show ?thesis
    by (auto simp: chain_ok_def demo_lbc_def demo_linked store_agrees_def demo_ldb_def LevelDBStore_Storage_def
        LevelDBStore_Get_def demo_L_def demo_db_def demo_b0_def NewBlock_def unat_eq_zero)
qed

text \<open>What the database writes of a block that is encoded and has its hash.\<close>

lemma demo_Put:
  assumes "Block_Encode demo_P b = Ok bs" and "b_Header b = Some h" and "block_memo_ok demo_P b"
  shows "LevelDBStore_Put demo_P L (b\<lparr>b_hash := BlockHasher_Hash demo_P h\<rparr>) d =
    bind_state (ldb_Put L (heightKey (hd_Height h)) bs d) (\<lambda>_ d.
    bind_state (ldb_Put L (hashKey (demo_prev h)) bs d) (\<lambda>_ d. LevelDBStore_Put_txs demo_P L (b_Transactions b) d))"
proof -
  have "Block_Encode demo_P (b\<lparr>b_hash := demo_prev h\<rparr>) = Ok bs" using assms(1) by (simp add: Block_Encode_def Block_wire_def)
  moreover have "Block_Hash demo_P (b\<lparr>b_hash := demo_prev h\<rparr>) = Ok (demo_prev h, b\<lparr>b_hash := demo_prev h\<rparr>)"
    using Block_Hash_value [of demo_P "b\<lparr>b_hash := demo_prev h\<rparr>" h] assms(2) by (simp add: block_memo_ok_def)
  ultimately show ?thesis using assms(2) by (simp add: LevelDBStore_Put_def)
qed

lemmas demo_block_sels = demo_b1_def demo_b2_def demo_bf_def demo_block_def NewBlock_def block_memo_ok_def

lemma demo_ladd_any:
  "\<exists>bc. AddBlock demo_P demo_ldb demo_pow demo_b1 (demo_lbc\<lparr>bc_store := d\<rparr>) = Some (bc, Ok ()) \<and>
     bc_Headers bc = [demo_h0, demo_h1] \<and> bc_consensus bc = Some (NewPoWEngine 0)"
proof -
  let ?bc = "demo_lbc\<lparr>bc_store := d\<rparr>"
  have h: "b_Header demo_b1 = Some demo_h1" "block_memo_ok demo_P demo_b1" "b_Transactions demo_b1 = []" "hd_Difficulty demo_h1 = 16"
    "unat (hd_Height demo_h1) = 1" "hd_PrevBlockHash demo_h1 = demo_prev demo_h0"
    by (simp_all add: demo_block_sels demo_h1_def demo_header_def)
  obtain st where "st_Put demo_ldb (demo_b1\<lparr>b_hash := BlockHasher_Hash demo_P demo_h1\<rparr>) (bc_store ?bc) = (st, Ok ())"
    unfolding demo_ldb_def LevelDBStore_Storage_sel demo_Put [OF demo_Encode(2) h(1,2)] by (simp add: h demo_L_def)
  from AddBlock_PoW [of demo_P ?bc "NewPoWEngine 0" 0 demo_b1 demo_h1 NewWorldState 65536, OF _ _ _ h(1,2) _ _ _ demo_b1_Verify _ _ this]
  show ?thesis unfolding demo_pow_def by (simp add: h demo_lbc_def demo_linked demo_pow_ok demo_Lsh16)
qed

lemma demo_ladd: "\<exists>bc. AddBlock demo_P demo_ldb demo_pow demo_b1 demo_lbc = Some (bc, Ok ())"
  using demo_ladd_any [of demo_db] by (auto simp: demo_lbc_def)

lemma demo_L_atomic: "leveldb_atomic demo_L"
  by (simp add: leveldb_atomic_def demo_L_def Let_def)

lemma demo_genesis_stored:
  "\<exists>d. NewBlockchain demo_P demo_ldb demo_pow demo_b0 Map.empty = Some (demo_lbc\<lparr>bc_store := d, bc_consensus := None\<rparr>, Ok ())"
proof -
  obtain bs where "Block_Encode demo_P (demo_b0\<lparr>b_hash := demo_prev demo_h0\<rparr>) = Ok bs"
    using demo_Encode(1) by (simp add: Block_Encode_def Block_wire_def)
  moreover have h: "b_Header demo_b0 = Some demo_h0" "b_Transactions demo_b0 = []" "block_memo_ok demo_P demo_b0"
    by (simp_all add: demo_b0_def NewBlock_def block_memo_ok_def)
  moreover have "Block_Hash demo_P (demo_b0\<lparr>b_hash := demo_prev demo_h0\<rparr>)
      = Ok (demo_prev demo_h0, demo_b0\<lparr>b_hash := demo_prev demo_h0\<rparr>)"
    using Block_Hash_value [of demo_P "demo_b0\<lparr>b_hash := demo_prev demo_h0\<rparr>" demo_h0] h(1)
    by (simp add: block_memo_ok_def)
  ultimately show ?thesis
    by (simp add: NewBlockchain_def demo_ldb_def LevelDBStore_Get_def demo_L_def addBlockWithoutValidationLocked_def
        Block_Hash_value add_weight_def LevelDBStore_Put_def demo_lbc_def)
qed

section \<open>Nodes\<close>

definition demo_deps :: "(lt_ref, local_net, MemoryStore, PoWEngine) Deps" where
  "demo_deps = \<lparr>d_tr = LocalTransport_Transport (\<lambda>_. []), d_so = MemoryStore_Storage demo_P,
     d_ce = PoW_ConsensusEngine demo_P\<rparr>"

lemma demo_deps_sel [simp]:
  "d_tr demo_deps = LocalTransport_Transport (\<lambda>_. [])" "d_so demo_deps = MemoryStore_Storage demo_P"
  "d_ce demo_deps = PoW_ConsensusEngine demo_P"
  by (simp_all add: demo_deps_def)

text \<open>Two connected transports, and a validator on each.\<close>

definition demo_net :: local_net where
  "demo_net = (\<lambda>t. if t = 0 then \<lparr>lt_addr = ''A'', lt_consumeCh = [], lt_peers = [''B'' \<mapsto> 1]\<rparr>
     else \<lparr>lt_addr = ''B'', lt_consumeCh = [], lt_peers = [''A'' \<mapsto> 0]\<rparr>)"

definition demo_node ::
  "lt_ref \<Rightarrow> (MemoryStore, PoWEngine) Blockchain \<Rightarrow> TxPool \<Rightarrow> (lt_ref, MemoryStore, PoWEngine, local_net) Node" where
  "demo_node t bc pool =
     \<lparr>sv_ID = ''n'', sv_Transports = [t], sv_BlockTime = defaultBlockTime, sv_PrivateKey = Some demo_key, sv_RPCAddr = [], sv_SeedNodes = [],
      sv_memPool = pool, sv_chain = bc, sv_isValidator = True, sv_rpcCh = [],
      sv_peers = (if t = 0 then [''B'' \<mapsto> 0] else [''A'' \<mapsto> 1]), nd_net = demo_net,
      nd_go = [GoValidatorLoop], nd_mining = None\<rparr>"

lemma demo_node_sel [simp]:
  "sv_chain (demo_node t bc pool) = bc" "sv_memPool (demo_node t bc pool) = pool" "sv_isValidator (demo_node t bc pool)"
  "sv_PrivateKey (demo_node t bc pool) = Some demo_key" "nd_mining (demo_node t bc pool) = None"
  "sv_peers (demo_node t bc pool) = (if t = 0 then [''B'' \<mapsto> 0] else [''A'' \<mapsto> 1])" "sv_ID (demo_node t bc pool) = ''n''"
  by (simp_all add: demo_node_def)

definition demo_opts :: "(lt_ref, MemoryStore, PoWEngine) ServerOpts" where
  "demo_opts = \<lparr>so_ID = ''n'', so_Transports = [0], so_BlockTime = 0, so_PrivateKey = Some demo_key, so_Consensus = Some (NewPoWEngine 0),
     so_RPCAddr = [], so_Storage = NewMemoryStorage, so_SeedNodes = []\<rparr>"

lemma demo_NewServer:
  "NewServer demo_P demo_deps demo_opts demo_net =
     Some (Ok ((demo_node 0 demo_bc0 (NewTxPool 10000))\<lparr>sv_peers := Map.empty\<rparr>))"
  using demo_new
  by (auto simp: NewServer_def spawn_def initRPCServer_def demo_opts_def demo_node_def demo_bc0_def demo_b0_genesis demo_ms_def demo_pow_def
      defaultTxPoolMaxLength_def Let_def)

text \<open>The pool that holds the transfer.\<close>

definition demo_pool :: TxPool where
  "demo_pool = (case TxPool_Add demo_P demo_tx (NewTxPool 10000) of Ok p \<Rightarrow> p | _ \<Rightarrow> NewTxPool 10000)"

lemma demo_tx_hash: "TxHasher_Hash demo_P demo_tx = zero_hash"
  by (simp add: TxHasher_Hash_def demo_tx_def NewTransaction_def demo_sha_Nil)

lemma demo_tx_memo: "tx_memo_ok demo_P demo_tx"
  by (simp add: tx_memo_ok_def demo_tx_def NewTransaction_def)

lemma demo_tx_Hash: "Transaction_Hash (TxHasher_Hash demo_P) demo_tx = (zero_hash, demo_tx)"
  using demo_tx_hash by (simp add: Transaction_Hash_def demo_tx_def NewTransaction_def)

lemma demo_pool_sel:
  "TxPool_Add demo_P demo_tx (NewTxPool 10000) = Ok demo_pool" "Pending demo_pool = [demo_tx]"
  by (simp_all add: demo_pool_def Pending_def TxPool_Add_def TxPool_prune_def NewTxPool_def NewTxSortedMap_def NewList_def
      TxSortedMap_Count_def List_Len_def TxSortedMap_Contains_def TxSortedMap_Add_def List_Insert_def demo_tx_Hash)

lemma demo_pool_ok: "pool_ok demo_P demo_pool"
proof -
  have "pool_ok demo_P (NewTxPool 10000)" by (rule wf_intro) simp
  then show ?thesis
    using demo_tx_memo by (rule TxPool_Add_refines) (simp add: demo_pool_sel)
qed

end
