(* ===== verification/StateTheorems.thy ===== *)
theory StateTheorems
  imports Sample
begin

text \<open>
  The theorems about keys, transactions, blocks, accounts and the world state, each with an
  application to concrete values.
\<close>

section \<open>The ledger\<close>

lemma demo_supply: "total_supply (balance_of (AddBalance demo_addr 5 NewWorldState)) = 5"
  using ws_mint.mint_supply [of NewWorldState 5 demo_addr] by (simp add: total_supply_NewWorldState)

text \<open>C14. A transfer either fails with an error and leaves the whole state as it was (zero value,
  unknown sender or too small a balance), or it succeeds and is exactly the transfer of a ledger
  of natural numbers, wrap-around never occurring, with nonces and storage untouched.\<close>

theorem Transfer_implements_ledger:
  assumes "total_supply (balance_of ws) < 2 ^ 64" and "Transfer src dst val ws = (ws', r)"
  shows "if val = 0 \<or> accounts ws src = None \<or> GetBalance ws src < val
    then (\<exists>e. r = Err e) \<and> ws' = ws
    else r = Ok () \<and> unat val \<le> balance_of ws src \<and>
      balance_of ws' = ledger_transfer src dst (unat val) (balance_of ws) \<and> GetNonce ws' = GetNonce ws \<and>
      (\<forall>a. acc_Storage (account_or_new ws' a) = acc_Storage (account_or_new ws a))"
proof (cases rule: Transfer_cases [of val src dst ws])
  case (moved w)
  then have "Transfer src dst val ws = (ws', Ok ())" and "r = Ok ()" using assms(2) by auto
  with moved Transfer_refines [OF _ assms(1)] Transfer_nonce [OF assms(2)] Transfer_storage [OF assms(2)]
  show ?thesis by (simp add: not_less fun_eq_iff)
qed (use assms(2) in auto)

theorem Transfer_implements_ledger_witness:
  "if (3 :: u64) = 0 \<or> accounts (AddBalance demo_addr 5 NewWorldState) demo_addr = None
      \<or> GetBalance (AddBalance demo_addr 5 NewWorldState) demo_addr < 3
    then (\<exists>e. (Ok () :: unit res) = Err e) \<and> demo_paid = AddBalance demo_addr 5 NewWorldState
    else (Ok () :: unit res) = Ok () \<and> unat (3 :: u64) \<le> balance_of (AddBalance demo_addr 5 NewWorldState) demo_addr \<and>
      balance_of demo_paid = ledger_transfer demo_addr demo_dest (unat (3 :: u64))
        (balance_of (AddBalance demo_addr 5 NewWorldState)) \<and>
      GetNonce demo_paid = GetNonce (AddBalance demo_addr 5 NewWorldState) \<and>
      (\<forall>a. acc_Storage (account_or_new demo_paid a)
         = acc_Storage (account_or_new (AddBalance demo_addr 5 NewWorldState) a))"
  by (rule Transfer_implements_ledger [OF _ demo_Transfer]) (simp add: demo_supply)

text \<open>Any sequence of transfers, successful or not, keeps the total supply, and leaves the balance
  of every account that is in none of them as it was.\<close>

theorem transfers_conserve_supply:
  assumes "total_supply (balance_of ws) < 2 ^ 64"
  shows "total_supply (balance_of (run_transfers Transfer xs ws)) = total_supply (balance_of ws) \<and>
    (\<forall>a. (\<forall>x\<in>set xs. a \<noteq> fst x \<and> a \<noteq> fst (snd x)) \<longrightarrow> balance_of (run_transfers Transfer xs ws) a = balance_of ws a)"
  using ws_ledger.run_supply [OF assms] ws_ledger.run_outsider [OF assms] by blast

theorem transfers_conserve_supply_witness:
  "total_supply (balance_of (run_transfers Transfer [(demo_addr, demo_dest, 3), (demo_dest, demo_addr, 9)]
      (AddBalance demo_addr 5 NewWorldState))) = 5"
  using transfers_conserve_supply [of "AddBalance demo_addr 5 NewWorldState"
      "[(demo_addr, demo_dest, 3), (demo_dest, demo_addr, 9)]"] demo_supply
  by (simp del: run_transfers.simps)


definition demo_acc_wire :: account_wire where
  "demo_acc_wire = \<lparr>aw_Nonce = 0, aw_Balance = 7, aw_CodeHash = zero_hash, aw_StorageRoot = zero_hash, aw_Storage = []\<rparr>"

definition demo_acc_P :: acc_prims where
  "demo_acc_P = \<lparr>sha256 = demo_sha, keccak256 = demo_sha, max_alloc = 4096, MarshalCompressed = demo_Marshal,
     UnmarshalCompressed = demo_Unmarshal, ecdsa_Sign = demo_Sign, ecdsa_Verify = demo_Verify,
     gob_Account = (\<lambda>w. if w = demo_acc_wire then Some [1] else None),
     ungob_Account = (\<lambda>bs. if bs = [1] then Some demo_acc_wire else None)\<rparr>"


text \<open>A copy of the world state has the same accounts (balances, nonces, code hashes, storage) and
  the same contract code as the original, whatever order the three maps are ranged over in.\<close>

theorem WorldState_Copy_faithful:
  assumes "enumerates order (accounts ws)" and "enumerates corder (contractCode ws)"
    and "\<And>a acc. accounts ws a = Some acc \<Longrightarrow> enumerates (sorder a) (acc_Storage acc)"
  shows "WorldState_Copy order sorder corder ws = ws"
  using assms by (rule WorldState_Copy_eq)

theorem WorldState_Copy_faithful_witness:
  "WorldState_Copy [demo_addr] (\<lambda>_. []) [] (AddBalance demo_addr 5 NewWorldState) = AddBalance demo_addr 5 NewWorldState"
  by (rule WorldState_Copy_faithful)
    (auto simp: enumerates_def AddBalance_def account_or_new_def NewWorldState_def put_account_def
      NewAccount_def Let_def split: if_splits)

text \<open>An account that gob encodes is decoded to the same account, for any order in which its
  storage is written.\<close>

theorem Account_Encode_Decode:
  assumes "gob_account_roundtrip P" and "enumerates ks (acc_Storage a)" and "Account_Encode P ks a = Some bs"
  shows "DecodeAccount P bs = Some a"
  using assms by (rule Account_gob_roundtrip)

theorem Account_Encode_Decode_witness: "DecodeAccount demo_acc_P [1] = Some (NewAccount 7)"
  by (rule Account_Encode_Decode [of demo_acc_P "[]"])
    (auto simp: gob_account_roundtrip_def demo_acc_P_def demo_acc_wire_def enumerates_def NewAccount_def Account_Encode_def split: if_splits)

section \<open>Transactions and blocks\<close>

text \<open>A transaction that Sign accepts verifies, and it verifies whatever its recipient, value,
  nonce, gas limit and gas price are changed to afterwards: the signature covers the data only.\<close>

theorem Transaction_signature:
  assumes "sign_verifies P" and "Transaction_Sign P rnd key tx = Ok tx'"
  shows "Transaction_Verify P (tx'\<lparr>tx_To := a, tx_Value := v, tx_Nonce := n, tx_GasLimit := gl, tx_GasPrice := gp\<rparr>) = Ok ()"
proof -
  have "Transaction_Verify P tx' = Ok ()" using assms by (rule Transaction_Sign_then_Verify)
  moreover have "Transaction_Verify P (tx'\<lparr>tx_To := a, tx_Value := v, tx_Nonce := n, tx_GasLimit := gl,
      tx_GasPrice := gp\<rparr>) = Transaction_Verify P tx'"
    by (cases "tx_Signature tx'") (simp_all add: Transaction_Verify_def)
  ultimately show ?thesis by simp
qed

theorem Transaction_signature_witness:
  "\<exists>tx'. Transaction_Sign demo_P 0 demo_key (NewTransaction [1]) = Ok tx' \<and>
    Transaction_Verify demo_P (tx'\<lparr>tx_To := demo_dest, tx_Value := 1000, tx_Nonce := 0, tx_GasLimit := 0, tx_GasPrice := 0\<rparr>) = Ok ()"
proof -
  obtain tx' where "Transaction_Sign demo_P 0 demo_key (NewTransaction [1]) = Ok tx'"
    by (simp add: Transaction_Sign_def PrivateKey_Sign_def demo_Sign_def)
  then show ?thesis using Transaction_signature [OF demo_sign_verifies] by blast
qed

text \<open>A transaction that gob encodes is decoded to the same transaction, up to the unexported
  memo fields.\<close>

theorem Transaction_Encode_Decode:
  assumes "marshal_roundtrip P" and "gob_tx_roundtrip P" and "Transaction_Encode P tx = Ok bs"
  shows "Transaction_Decode P bs = Ok (tx_exported tx)"
  using assms by (rule Transaction_gob_roundtrip)

theorem Transaction_Encode_Decode_witness: "Transaction_Decode demo_P [1] = Ok (tx_exported demo_tx)"
  using demo_marshal demo_gob_tx demo_tx_Encode by (rule Transaction_Encode_Decode)

text \<open>A block made from a parent header, signed and sent through gob: the receiver gets back the
  block, and it verifies there whenever its transactions do.\<close>

theorem Block_made_signed_sent:
  assumes "marshal_roundtrip P" and "gob_block_roundtrip P" and "sign_verifies P"
    and "NewBlockFromPrevHeader P now prev txx = Ok b" and "Block_Sign P rnd key b = Ok b'"
    and "Block_Encode P b' = Ok bs" and "mapM_outcome (Transaction_Verify P) txx = Ok us"
  shows "\<exists>r h. Block_Decode P bs = Ok r \<and> block_exported r = block_exported b' \<and> Block_Verify P b' = Ok () \<and>
    b_Header r = Some h \<and> hd_Height h = hd_Height prev + 1 \<and> hd_PrevBlockHash h = BlockHasher_Hash P prev"
proof -
  from assms(4) obtain d h where "CalculateDataHash P txx [] = Ok d" and b: "b = NewBlock h txx"
    and h: "hd_DataHash h = d" "hd_PrevBlockHash h = BlockHasher_Hash P prev" "hd_Height h = hd_Height prev + 1"
    by (fastforce simp: NewBlockFromPrevHeader_def)
  then have dh: "CalculateDataHash P txx [] = Ok (hd_DataHash h)" by simp
  have "Block_Verify P b' = Ok ()"
    by (rule Block_Sign_then_Verify [OF assms(3,5), of h us]) (use b dh assms(7) in \<open>simp_all add: NewBlock_def\<close>)
  moreover have "b_Header b' = b_Header b" using assms(5) by (auto simp: Block_Sign_def split: option.splits)
  moreover have "block_exported (block_exported b') = block_exported b'"
    by (simp add: block_exported_def tx_exported_def)
  ultimately show ?thesis
    using Block_gob_roundtrip [OF assms(1,2,6)] b h by (simp add: NewBlock_def)
qed

text \<open>A \<open>gob\<close> that can encode the block made here.\<close>

definition demo_made :: Block where
  "demo_made = the_Ok (Block_Sign demo_P 0 demo_key (the_Ok (NewBlockFromPrevHeader demo_P 0 demo_h0 [])))"

definition demo_made_wire :: block_wire where
  "demo_made_wire = \<lparr>bw_Header = b_Header demo_made, bw_Transactions = [], bw_Evidence = [],
     bw_Validator = [2, 5, 7], bw_Signature = b_Signature demo_made\<rparr>"

definition demo_P2 :: net_prims where
  "demo_P2 = demo_P\<lparr>gob_Block := (\<lambda>w. if w = demo_made_wire then Ok [3] else Err (ErrExternal ''gob'')),
     ungob_Block := (\<lambda>bs. if bs = [3] then Ok demo_made_wire else Err (ErrExternal ''gob''))\<rparr>"

theorem Block_made_signed_sent_witness:
  "\<exists>r h. Block_Decode demo_P2 [3] = Ok r \<and> block_exported r = block_exported demo_made
    \<and> Block_Verify demo_P2 demo_made = Ok () \<and> b_Header r = Some h \<and> hd_Height h = hd_Height demo_h0 + 1
    \<and> hd_PrevBlockHash h = BlockHasher_Hash demo_P2 demo_h0"
proof (rule Block_made_signed_sent)
  show "marshal_roundtrip demo_P2" using demo_marshal by (simp add: marshal_roundtrip_def demo_P2_def)
  show "sign_verifies demo_P2" using demo_sign_verifies by (simp add: sign_verifies_def demo_P2_def)
  show "gob_block_roundtrip demo_P2" by (auto simp: gob_block_roundtrip_def demo_P2_def split: if_splits)
  let ?b = "the_Ok (NewBlockFromPrevHeader demo_P 0 demo_h0 [])"
  show "NewBlockFromPrevHeader demo_P2 0 demo_h0 [] = Ok ?b"
    by (simp add: NewBlockFromPrevHeader_def CalculateDataHash_def BlockHasher_Hash_def Header_Bytes_def demo_P2_def
        flip: demo_prev_def)
  show "Block_Sign demo_P2 0 demo_key ?b = Ok demo_made"
    by (simp add: demo_made_def NewBlockFromPrevHeader_def CalculateDataHash_def Block_Sign_def NewBlock_def
        PrivateKey_Sign_def Header_Bytes_def demo_P2_def demo_Sign_def)
  show "Block_Encode demo_P2 demo_made = Ok [3]"
    by (simp add: demo_P2_def Block_Encode_def Block_wire_def PublicKey_GobEncode_def demo_Marshal_def demo_made_wire_def)
      (simp add: demo_made_def NewBlockFromPrevHeader_def CalculateDataHash_def Block_Sign_def NewBlock_def
        PrivateKey_Sign_def PrivateKey_PublicKey_def Header_Bytes_def demo_Sign_def demo_key_def demo_Marshal_def)
  show "mapM_outcome (Transaction_Verify demo_P2) [] = Ok []" by simp
qed

end
