(* ===== verification/VmTheorems.thy ===== *)
theory VmTheorems
  imports Sample
begin

text \<open>
  The theorems about the virtual machine of src/core/vm.go, each with an application to a concrete
  machine. They rest on the lemmas of \<open>VmStack\<close>, \<open>VmMemory\<close>, \<open>EVM_Lemmas\<close> and \<open>EVM_Props\<close>.
\<close>

unbundle bit_operations_syntax

section \<open>Gas and termination\<close>

text \<open>C9. A run of a new machine returns for every code, call data and state unless the gas limit is
  the largest uint64, and it never uses more gas than the limit.\<close>

theorem EVM_Run_terminates:
  assumes "gasLimit \<noteq> - 1"
  shows "\<exists>r. EVM_Run P db (NewEVM code callData st contract caller val gasLimit) = Some r \<and>
    (\<forall>evm'. exec_evm r = Some evm' \<longrightarrow> GasUsed evm' \<le> gasLimit)"
proof -
  let ?evm = "NewEVM code callData st contract caller val gasLimit"
  have init: "evm_gasLimit ?evm = gasLimit" "evm_gasUsed ?evm \<le> evm_gasLimit ?evm" by (simp_all add: NewEVM_def)
  with assms obtain r where r: "EVM_Run P db ?evm = Some r" using EVM_Run_terminates_aux [of ?evm P db] by auto
  have "GasUsed e \<le> gasLimit" if "exec_evm r = Some e" for e
    using EVM_Run_gas_bound [OF r that init(2)] EVM_Run_frame [OF r that] init(1)
    by (simp add: same_program_def GasUsed_def)
  with r show ?thesis by blast
qed

theorem EVM_Run_terminates_witness:
  "(100 :: u64) \<noteq> - 1 \<and>
   (\<exists>r. EVM_Run demo_P WorldState_StateDB
      (NewEVM spin_code [] NewWorldState demo_dest demo_addr None 100) = Some r \<and>
    (\<forall>evm'. exec_evm r = Some evm' \<longrightarrow> GasUsed evm' \<le> 100))"
  using EVM_Run_terminates [of 100] by simp

text \<open>With the largest gas limit the counter wraps instead of running out: the program
  JUMPDEST; PUSH1 0; JUMP never returns, on any state.\<close>

theorem EVM_Run_spins:
  "EVM_Run P db (NewEVM spin_code callData st contract caller val (- 1)) = None"
  by (rule spinning_Run) (simp add: spinning_def NewEVM_def NewStack_def)

section \<open>Type safety\<close>

text \<open>C22. Whatever the code does, after a run the stack holds 256-bit words only, the memory is a
  whole number of 32-byte words within the allocation limit, and the program, the contract, the
  caller, the call data, the value and the gas limit are unchanged.\<close>

theorem EVM_Run_type_safe:
  assumes "go_runtime P" and "EVM_Run P db (NewEVM code callData st contract caller val gasLimit) = Some r"
    and "exec_evm r = Some evm'"
  shows "list_all (\<lambda>v. 0 \<le> v \<and> v < 2 ^ 256) (evm_stack evm') \<and> 32 dvd length (evm_memory evm')
    \<and> length (evm_memory evm') \<le> max_alloc P
    \<and> same_program (NewEVM code callData st contract caller val gasLimit) evm'"
proof -
  have "EVM_ok P (NewEVM code callData st contract caller val gasLimit)"
    by (simp add: EVM_ok_def NewEVM_def NewStack_def NewMemory_def memory_ok_def)
  from EVM_Run_ok [OF assms(2,3) this assms(1)] EVM_Run_frame [OF assms(2,3)] show ?thesis
    by (simp add: EVM_ok_def stack_ok_def memory_ok_def list_all_iff is_u256_def)
qed

text \<open>PUSH1 7; STOP\<close>

definition demo_code :: "byte list" where
  "demo_code = [0x60, 0x07, 0x00]"

definition demo_evm :: "WorldState EVM" where
  "demo_evm = NewEVM demo_code [] NewWorldState demo_dest demo_addr None 10"

definition demo_evm_end :: "WorldState EVM" where
  "demo_evm_end = demo_evm\<lparr>evm_stack := [7], evm_pc := 3, evm_gasUsed := 2\<rparr>"

lemma demo_run: "EVM_Run demo_P WorldState_StateDB demo_evm = Some (Return demo_evm_end [])"
proof -
  let ?e1 = "demo_evm\<lparr>evm_stack := [7], evm_pc := 2, evm_gasUsed := 1\<rparr>"
  have s1: "EVM_running demo_evm" "EVM_step demo_P WorldState_StateDB demo_evm = Continue ?e1"
    by (simp_all add: EVM_running_def EVM_step_def exec_bind_def consumeGas_def demo_evm_def NewEVM_def demo_code_def
        decode_op_def op_push_def go_slice_def evm_push_def Stack_Push_eq SetBytes_def SetBytes_nat_def NewStack_def)
  have "final_result demo_P WorldState_StateDB ?e1 (Return demo_evm_end [])"
    by (simp add: final_result_def EVM_running_def EVM_step_def exec_bind_def consumeGas_def demo_evm_def
        demo_evm_end_def NewEVM_def demo_code_def decode_op_def)
  then show ?thesis using EVM_Run_unfold_Continue [OF s1] EVM_Run_final by metis
qed

theorem EVM_Run_type_safe_witness:
  "list_all (\<lambda>v. 0 \<le> v \<and> v < 2 ^ 256) (evm_stack demo_evm_end) \<and> 32 dvd length (evm_memory demo_evm_end)
    \<and> length (evm_memory demo_evm_end) \<le> max_alloc demo_P
    \<and> same_program (NewEVM demo_code [] NewWorldState demo_dest demo_addr None 10) demo_evm_end"
  by (rule EVM_Run_type_safe [OF demo_runtime demo_run [unfolded demo_evm_def]]) simp

section \<open>Arithmetic\<close>



section \<open>Memory\<close>

text \<open>Writing and reading memory implement a zero-initialised byte array: within the
  allocation limit a write succeeds, a read of any range then returns the written bytes in the
  written range and the old contents elsewhere, and reading changes no content.\<close>

theorem Memory_Set_Get:
  assumes "memory_ok P m" and "go_runtime P" and "0 < unat sz" and "0 < unat sz'"
    and "unat off + unat sz + 31 \<le> max_alloc P" and "unat off' + unat sz' + 31 \<le> max_alloc P"
    and "length val = unat sz"
  shows "\<exists>m1 m2 bs. Memory_Set P m off sz val = Ok m1 \<and> Memory_Get P m1 off' sz' = Ok (m2, bs) \<and>
    mem_at m2 = mem_at m1 \<and>
    bs = map (\<lambda>i. if unat off \<le> i \<and> i < unat off + unat sz then val ! (i - unat off) else mem_at m i)
           [unat off' ..< unat off' + unat sz']"
proof -
  have lim: "unat off + unat sz + 31 < 2 ^ 64" "unat off' + unat sz' + 31 < 2 ^ 64"
    using assms(2,5,6) by (simp_all add: go_runtime_def)
  have len: "length m < 2 ^ 64" using assms(1,2) by (rule memory_ok_length)
  obtain m1 where m1: "Memory_Set P m off sz val = Ok m1"
    using Memory_Set_in_limit [OF len assms(3) lim(1) assms(5)] by blast
  have "memory_ok P m1" using m1 len assms(1) by (rule Memory_Set_ok)
  then have len1: "length m1 < 2 ^ 64" using assms(2) by (rule memory_ok_length)
  obtain m2 bs where m2: "Memory_Get P m1 off' sz' = Ok (m2, bs)"
    using Memory_Get_in_limit [OF len1 assms(4) lim(2) assms(6)] by blast
  from Memory_Get_mem_at [OF m2 len1] m1 m2 show ?thesis
    using Memory_Set_mem_at [OF m1 len] assms(7) by simp
qed

theorem Memory_Set_Get_witness:
  "\<exists>m1 m2 bs. Memory_Set demo_P [] 40 2 [1, 2] = Ok m1 \<and> Memory_Get demo_P m1 39 4 = Ok (m2, bs) \<and>
    mem_at m2 = mem_at m1 \<and>
    bs = map (\<lambda>i. if unat (40 :: u64) \<le> i \<and> i < unat (40 :: u64) + unat (2 :: u64)
           then [1, 2] ! (i - unat (40 :: u64)) else mem_at [] i)
           [unat (39 :: u64) ..< unat (39 :: u64) + unat (4 :: u64)]"
  by (rule Memory_Set_Get [OF _ demo_runtime]) (simp_all add: memory_ok_def)

text \<open>Memory accesses that crash the node instead of failing the transaction: a read of no bytes
  beyond the end of the store, and a write whose end wraps around 64 bits.\<close>

theorem Memory_access_panics:
  "(length m < unat off \<longrightarrow> Memory_Get P m off 0 = Panic SliceOutOfRange) \<and>
   (unat (off + sz) < unat off \<longrightarrow> (\<exists>p. Memory_Set P m off sz val = Panic p))"
  using Memory_Get_empty_panics [of m off P] Memory_Set_wrap_panics [of off sz P m val] by blast

theorem Memory_access_panics_witness:
  "Memory_Get demo_P [] 1 0 = Panic SliceOutOfRange \<and>
   (\<exists>p. Memory_Set demo_P [] 0xFFFFFFFFFFFFFFFF 32 (replicate 32 0) = Panic p)"
  using Memory_access_panics [of "[]" 1 demo_P]
    Memory_access_panics [of "[]" "0xFFFFFFFFFFFFFFFF" demo_P 32 "replicate 32 0"] by simp

section \<open>Storage\<close>

text \<open>SSTORE then SLOAD on the world state: the value read back is the value written, every slot
  of every other contract and every slot whose key hashes differently keeps its value, and no
  balance and no nonce changes.\<close>

theorem SSTORE_SLOAD:
  assumes "evm_stack evm = s @ [val, key]" and "is_u256 key" and "is_u256 val"
  shows "\<exists>evm'. exec_op P WorldState_StateDB evm SSTORE = Continue evm' \<and> evm_stack evm' = s \<and>
    exec_op P WorldState_StateDB (evm'\<lparr>evm_stack := [key]\<rparr>) SLOAD = Continue (evm'\<lparr>evm_stack := [val]\<rparr>) \<and>
    (\<forall>c key'. (c, storage_key P key') \<noteq> (evm_contract evm, storage_key P key) \<longrightarrow>
       slot_value P WorldState_StateDB (evm_state evm') c key'
         = slot_value P WorldState_StateDB (evm_state evm) c key') \<and>
    GetBalance (evm_state evm') = GetBalance (evm_state evm) \<and> GetNonce (evm_state evm') = GetNonce (evm_state evm)"
proof -
  obtain st where st: "op_sstore P WorldState_StateDB evm = Continue (evm\<lparr>evm_stack := s, evm_state := st\<rparr>)"
    "slot_value P WorldState_StateDB st (evm_contract evm) key = val"
    and other: "\<forall>c key'. (c, storage_key P key') \<noteq> (evm_contract evm, storage_key P key) \<longrightarrow>
         slot_value P WorldState_StateDB st c key' = slot_value P WorldState_StateDB (evm_state evm) c key'"
    using ws_db.op_sstore_writes [OF assms] by blast
  have "exec_evm (op_sstore P WorldState_StateDB evm) = Some (evm\<lparr>evm_stack := s, evm_state := st\<rparr>)"
    by (simp add: st(1))
  then have "st = evm_state evm \<or> (\<exists>k v. st = fst (SetAccountState (evm_contract evm) k v (evm_state evm)))"
    using exec_op_state [of P WorldState_StateDB evm SSTORE "evm\<lparr>evm_stack := s, evm_state := st\<rparr>"]
    by (auto simp: WorldState_StateDB_def)
  then have "GetBalance st = GetBalance (evm_state evm)" "GetNonce st = GetNonce (evm_state evm)"
    by (auto simp: fun_eq_iff)
  moreover have "exec_op P WorldState_StateDB (evm\<lparr>evm_state := st, evm_stack := [key]\<rparr>) SLOAD
      = Continue (evm\<lparr>evm_state := st, evm_stack := [val]\<rparr>)"
    using ws_db.op_sload_pushes [of "evm\<lparr>evm_state := st, evm_stack := [key]\<rparr>" "[]" key P] assms(2) st(2) by simp
  ultimately show ?thesis using st(1) other
    by (intro exI [of _ "evm\<lparr>evm_stack := s, evm_state := st\<rparr>"]) simp
qed

theorem SSTORE_SLOAD_witness:
  "\<exists>evm'. exec_op demo_P WorldState_StateDB (demo_evm\<lparr>evm_stack := [9, 4]\<rparr>) SSTORE = Continue evm' \<and>
    evm_stack evm' = [] \<and>
    exec_op demo_P WorldState_StateDB (evm'\<lparr>evm_stack := [4]\<rparr>) SLOAD = Continue (evm'\<lparr>evm_stack := [9]\<rparr>)"
  using SSTORE_SLOAD [of "demo_evm\<lparr>evm_stack := [9, 4]\<rparr>" "[]" 9 4 demo_P] by (auto simp: is_u256_def)



text \<open>PUSH1 1; PUSH1 0; SSTORE; PUSH1 0; PUSH1 0; REVERT\<close>

definition revert_code :: "byte list" where
  "revert_code = [0x60, 0x01, 0x60, 0x00, 0x55, 0x60, 0x00, 0x60, 0x00, 0xfd]"

lemmas step_defs = EVM_running_def EVM_step_def exec_bind_def consumeGas_def decode_op_def op_push_def
  go_slice_def evm_push_def Stack_Push_eq SetBytes_def SetBytes_nat_def

lemma revert_steps:
  assumes code: "evm_code e = revert_code" and gas: "evm_gasUsed e = 0" "6 \<le> evm_gasLimit e"
    and start: "evm_pc e = 0" "evm_stack e = []" "evm_memory e = []"
  obtains e' where "EVM_Run P WorldState_StateDB e = Some (Fail e' (ErrRevert []))"
    and "slot_value P WorldState_StateDB (evm_state e') (evm_contract e) 0 = 1"
proof -
  have g: "\<not> evm_gasLimit e < 1" "\<not> evm_gasLimit e < 2" "\<not> evm_gasLimit e < 3" "\<not> evm_gasLimit e < 4"
    "\<not> evm_gasLimit e < 5" "\<not> evm_gasLimit e < 6" "evm_gasLimit e \<noteq> 0"
    using gas(2) by (auto simp: not_less intro: order.trans [OF _ gas(2)])
  let ?e1 = "e\<lparr>evm_gasUsed := 1, evm_pc := 2, evm_stack := [1]\<rparr>"
  let ?e2 = "e\<lparr>evm_gasUsed := 2, evm_pc := 4, evm_stack := [1, 0]\<rparr>"
  let ?e2' = "e\<lparr>evm_stack := [1, 0], evm_gasUsed := 3, evm_pc := 5\<rparr>"
  have u: "is_u256 0" "is_u256 1" by (simp_all add: is_u256_def)
  obtain st where sst: "op_sstore P WorldState_StateDB ?e2' = Continue (?e2'\<lparr>evm_stack := [], evm_state := st\<rparr>)"
    and slot: "slot_value P WorldState_StateDB st (evm_contract e) 0 = 1"
    using ws_db.op_sstore_writes [of ?e2' "[]" 1 0 P] u by auto
  let ?e3 = "e\<lparr>evm_stack := [], evm_gasUsed := 3, evm_pc := 5, evm_state := st\<rparr>"
  let ?e4 = "e\<lparr>evm_gasUsed := 4, evm_pc := 7, evm_stack := [0], evm_state := st\<rparr>"
  let ?e5 = "e\<lparr>evm_gasUsed := 5, evm_pc := 9, evm_stack := [0, 0], evm_state := st\<rparr>"
  let ?e6 = "e\<lparr>evm_gasUsed := 6, evm_pc := 10, evm_stack := [], evm_state := st, evm_retData := []\<rparr>"
  note defs = step_defs code [unfolded revert_code_def] gas(1) start g
  have "EVM_Run P WorldState_StateDB e = EVM_Run P WorldState_StateDB ?e1"
    by (rule EVM_Run_unfold_Continue) (simp_all add: defs)
  also have "\<dots> = EVM_Run P WorldState_StateDB ?e2"
    by (rule EVM_Run_unfold_Continue) (simp_all add: defs)
  also have "\<dots> = EVM_Run P WorldState_StateDB ?e3"
    by (rule EVM_Run_unfold_Continue) (use sst in \<open>simp_all add: defs\<close>)
  also have "\<dots> = EVM_Run P WorldState_StateDB ?e4"
    by (rule EVM_Run_unfold_Continue) (simp_all add: defs)
  also have "\<dots> = EVM_Run P WorldState_StateDB ?e5"
    by (rule EVM_Run_unfold_Continue) (simp_all add: defs)
  also have "\<dots> = Some (Fail ?e6 (ErrRevert []))"
    by (rule EVM_Run_final) (simp add: final_result_def defs op_revert_def evm_pop_def Stack_Pop_def
        Memory_Get_def Memory_expand_def make_bytes_def go_copy_def Int_Uint64_def)
  finally show thesis using that [of ?e6] slot by simp
qed

text \<open>A contract that writes storage slot 0 and then reverts: the run fails with the REVERT
  error, and the write is still in the world state, for every state and contract.\<close>

theorem REVERT_keeps_writes:
  assumes "6 \<le> gasLimit"
  shows "\<exists>evm'. EVM_Run P WorldState_StateDB (NewEVM revert_code callData ws contract caller val gasLimit)
      = Some (Fail evm' (ErrRevert [])) \<and>
    slot_value P WorldState_StateDB (evm_state evm') contract 0 = 1"
  by (rule revert_steps [of "NewEVM revert_code callData ws contract caller val gasLimit" P])
    (use assms in \<open>auto simp: NewEVM_def NewStack_def NewMemory_def\<close>)

theorem REVERT_keeps_writes_witness:
  "\<exists>evm'. EVM_Run demo_P WorldState_StateDB (NewEVM revert_code [] NewWorldState demo_dest demo_addr None 6)
      = Some (Fail evm' (ErrRevert [])) \<and>
    slot_value demo_P WorldState_StateDB (evm_state evm') demo_dest 0 = 1"
  by (rule REVERT_keeps_writes) simp

end
