(* ===== verification/ChainTheorems.thy ===== *)
theory ChainTheorems
  imports StateTheorems VmTheorems
begin

text \<open>
  The theorems about the execution of transactions by src/core/blockchain.go, each with an
  application to a concrete state.
\<close>

section \<open>Execution\<close>

text \<open>C11. A signed transaction that executes has exactly the effect of a ledger transfer of its value
  from the sender, who can afford it, to the recipient, and the sender's nonce, and no other,
  goes up by one; contract code in the transaction changes no balance.\<close>

theorem executeTransaction_effect:
  assumes "executeTransaction P tx ws = Some (ws', Ok ())" and "tx_Signature tx \<noteq> None"
    and "total_supply (balance_of ws) < 2 ^ 64"
  shows "\<exists>a. PublicKey_Address P (tx_From tx) = Ok a \<and> unat (tx_Value tx) \<le> balance_of ws a \<and>
    balance_of ws' = ledger_transfer a (tx_To tx) (unat (tx_Value tx)) (balance_of ws) \<and>
    GetNonce ws' = (GetNonce ws)(a := GetNonce ws a + 1)"
  using assms by (rule executeTransaction_Ok) blast

theorem executeTransaction_effect_witness:
  "\<exists>a. PublicKey_Address demo_P (tx_From demo_tx) = Ok a \<and>
    unat (tx_Value demo_tx) \<le> balance_of (AddBalance demo_addr 5 NewWorldState) a \<and>
    balance_of demo_ws = ledger_transfer a (tx_To demo_tx) (unat (tx_Value demo_tx))
      (balance_of (AddBalance demo_addr 5 NewWorldState)) \<and>
    GetNonce demo_ws = (GetNonce (AddBalance demo_addr 5 NewWorldState))
      (a := GetNonce (AddBalance demo_addr 5 NewWorldState) a + 1)"
  by (rule executeTransaction_effect [OF demo_exec]) (simp_all add: demo_supply demo_tx_def)





text \<open>There is no replay protection: a signed transfer without code, executed once, executes again
  as long as the balance lasts, whatever nonce it carries.\<close>

theorem executeTransaction_replays:
  assumes "tx_Data tx = []" and "tx_Signature tx \<noteq> None" and "PublicKey_Address P (tx_From tx) = Ok a"
    and "tx_To tx \<noteq> a" and "tx_Value tx \<noteq> 0" and "accounts ws a \<noteq> None"
    and "2 * unat (tx_Value tx) \<le> balance_of ws a"
  shows "\<exists>ws1 ws2. executeTransaction P tx ws = Some (ws1, Ok ()) \<and>
    executeTransaction P (tx\<lparr>tx_Nonce := n\<rparr>) ws1 = Some (ws2, Ok ())"
proof -
  have exec: "\<exists>w. executeTransaction P (tx\<lparr>tx_Nonce := m\<rparr>) s = Some (IncrementNonce a w, Ok ())
      \<and> Transfer a (tx_To tx) (tx_Value tx) s = (w, Ok ())"
    if "accounts s a \<noteq> None" and "tx_Value tx \<le> GetBalance s a" for s m
  proof -
    have "snd (Transfer a (tx_To tx) (tx_Value tx) s) = Ok ()" using that assms(5) by (simp add: Transfer_Ok_iff)
    then obtain w where "Transfer a (tx_To tx) (tx_Value tx) s = (w, Ok ())" by (metis prod.collapse)
    then show ?thesis using assms
      by (simp add: executeTransaction_def execute_code_def execute_value_def execute_nonce_def with_sender_def word_gt_0)
  qed
  have le: "tx_Value tx \<le> GetBalance ws a" using assms(7) by (simp add: balance_of_def word_le_nat_alt)
  obtain w where w: "executeTransaction P (tx\<lparr>tx_Nonce := tx_Nonce tx\<rparr>) ws = Some (IncrementNonce a w, Ok ())"
    "Transfer a (tx_To tx) (tx_Value tx) ws = (w, Ok ())" using exec [OF assms(6) le] by blast
  have "GetBalance w a = GetBalance ws a - tx_Value tx" using Transfer_balance [OF w(2), of a] assms(4) by simp
  then have "tx_Value tx \<le> GetBalance (IncrementNonce a w) a"
    using assms(7) le by (simp add: balance_of_def word_le_nat_alt unat_sub_le)
  moreover have "accounts (IncrementNonce a w) a \<noteq> None" by (simp add: IncrementNonce_def Let_def)
  ultimately show ?thesis using exec [of "IncrementNonce a w" n] w(1) by auto
qed

theorem executeTransaction_replays_witness:
  "\<exists>ws1 ws2. executeTransaction demo_P demo_tx (AddBalance demo_addr 9 NewWorldState) = Some (ws1, Ok ()) \<and>
    executeTransaction demo_P (demo_tx\<lparr>tx_Nonce := 0\<rparr>) ws1 = Some (ws2, Ok ())"
proof (rule executeTransaction_replays [OF _ _ demo_tx_sender])
  have "balance_of (AddBalance demo_addr 9 NewWorldState) demo_addr = 9" by (simp add: balance_of_def demo_rich)
  then show "2 * unat (tx_Value demo_tx) \<le> balance_of (AddBalance demo_addr 9 NewWorldState) demo_addr"
    by (simp add: demo_tx_def)
qed (use demo_addr_neq in \<open>auto simp: demo_tx_def NewTransaction_def AddBalance_def Let_def\<close>)

text \<open>A failing transaction stops the block but undoes nothing: the state it leaves has the effects
  of all the transactions before it, plus whatever the failing one wrote itself.\<close>

theorem executeTransactions_no_rollback:
  assumes "executeTransactions P txs ws = Some (ws1, Ok ())" and "executeTransaction P tx ws1 = Some (ws2, r)"
    and "r \<noteq> Ok ()"
  shows "executeTransactions P (txs @ tx # rest) ws = Some (ws2, r)"
  using assms(1)
proof (induction txs arbitrary: ws)
  case Nil
  then show ?case using assms(2,3) by (cases r) simp_all
next
  case (Cons t txs)
  then obtain w where "executeTransaction P t ws = Some (w, Ok ())" "executeTransactions P txs w = Some (ws1, Ok ())"
    by (auto simp: then_exec_eq_Ok)
  with Cons.IH show ?case by simp
qed

lemma demo_exec_fails:
  "executeTransaction demo_P demo_tx demo_ws
     = Some (demo_ws, Err (ErrTransferFailed (ErrInsufficientSend demo_addr 2 3)))"
proof -
  have tx: "tx_Data demo_tx = []" "tx_Value demo_tx = 3" "tx_To demo_tx = demo_dest"
    by (simp_all add: demo_tx_def NewTransaction_def)
  have bal: "GetBalance demo_ws demo_addr = 2"
    using Transfer_balance [OF demo_Transfer, of demo_addr] demo_addr_neq by (simp add: demo_ws_def demo_rich)
  moreover have "accounts demo_ws demo_addr \<noteq> None" by (simp add: demo_ws_def IncrementNonce_def Let_def)
  ultimately have "Transfer demo_addr demo_dest 3 demo_ws = (demo_ws, Err (ErrInsufficientSend demo_addr 2 3))"
    by (cases rule: Transfer_cases [of 3 demo_addr demo_dest demo_ws]) auto
  then show ?thesis using tx
    by (simp add: executeTransaction_def execute_code_def execute_value_def with_sender_def demo_tx_sender)
qed

theorem executeTransactions_no_rollback_witness:
  "executeTransactions demo_P ([demo_tx] @ demo_tx # []) (AddBalance demo_addr 5 NewWorldState)
     = Some (demo_ws, Err (ErrTransferFailed (ErrInsufficientSend demo_addr 2 3)))"
  by (rule executeTransactions_no_rollback [OF _ demo_exec_fails]) (simp_all add: demo_exec)

end
