(* ===== verification/NodeTheorems.thy ===== *)
theory NodeTheorems
  imports ChainTheorems
begin

text \<open>
  The theorems about the block stores of src/core/storage.go and src/core/leveldb_storage.go and
  about the chain of src/core/blockchain.go on top of them, with its validator.
\<close>

section \<open>Stores\<close>

text \<open>The in-memory store fulfils the contract of a block store.\<close>

theorem MemoryStore_is_block_store: "block_store P (MemoryStore_Storage P)"
  by (rule ms.block_store_axioms)

text \<open>C20. The LevelDB store fulfils the same contract: heights, block hashes and transaction hashes
  share one key space without colliding, and what is read back is what was written.\<close>

theorem LevelDBStore_is_block_store:
  assumes "leveldb_laws L" and "marshal_roundtrip P" and "gob_block_roundtrip P" and "gob_tx_roundtrip P"
  shows "block_store P (LevelDBStore_Storage P L)"
  using assms by (rule LevelDBStore_block_store)

theorem LevelDBStore_is_block_store_witness: "block_store demo_P (LevelDBStore_Storage demo_P demo_L)"
  using demo_L_laws demo_marshal demo_gob_block demo_gob_tx by (rule LevelDBStore_is_block_store)

section \<open>The chain\<close>

text \<open>C4. A block is added only if it is the next one by height, names the hash of the current head as
  its parent, passes the consensus engine, carries a valid signature over its header, and all its
  transactions are validly signed, match the data hash and execute; the new state is the executed
  one plus the reward, and the header is appended.\<close>

theorem AddBlock_sound:
  assumes "linked P (bc_Headers bc)" and "AddBlock P so ce b bc = Some (bc', Ok ())"
  shows "\<exists>h sig ws. b_Header b = Some h \<and> unat (hd_Height h) = length (bc_Headers bc) \<and>
    hd_PrevBlockHash h = BlockHasher_Hash P (last (bc_Headers bc)) \<and>
    snd (verify_consensus ce h bc) = Ok () \<and>
    b_Signature b = Some sig \<and> Signature_Verify P sig (b_Validator b) (Header_Bytes P h) = Ok True \<and>
    mapM_outcome (Transaction_Verify P) (b_Transactions b) = Ok (replicate (length (b_Transactions b)) ()) \<and>
    CalculateDataHash P (b_Transactions b) (b_Evidence b) = Ok (hd_DataHash h) \<and>
    executeTransactions P (b_Transactions b) (bc_WorldState bc) = Some (ws, Ok ()) \<and>
    bc_WorldState bc' = AddBalance (hd_Coinbase h) 5 ws \<and> bc_Headers bc' = bc_Headers bc @ [h]"
  using assms(2)
proof (cases rule: AddBlockE)
  case (stored bc1 ws h c)
  from stored(1) assms(1) obtain h' where v: "b_Header b = Some h'" "unat (hd_Height h') = length (bc_Headers bc)"
    "hd_PrevBlockHash h' = BlockHasher_Hash P (last (bc_Headers bc))"
    "verify_consensus ce h' bc = (bc1, Ok ())" "Block_Verify P b = Ok ()"
    by (rule ValidateBlockLocked_OkE)
  from v(5) obtain hh sig where "b_Header b = Some hh" "b_Signature b = Some sig"
    "Signature_Verify P sig (b_Validator b) (Header_Bytes P hh) = Ok True"
    "CalculateDataHash P (b_Transactions b) (b_Evidence b) = Ok (hd_DataHash hh)"
    "mapM_outcome (Transaction_Verify P) (b_Transactions b) = Ok (replicate (length (b_Transactions b)) ())"
    by (rule Block_Verify_OkD)
  moreover have "bc_WorldState bc' = AddBalance (hd_Coinbase h) 5 ws \<and> bc_Headers bc' = bc_Headers bc @ [h]"
    using stored(5) by (rule addBlockWithoutValidationLocked_OkE)
      (use stored(3) executed_frame(1) [OF stored(1)] in simp)
  ultimately show ?thesis using v stored(2,3) by auto
qed simp_all

theorem AddBlock_sound_witness:
  "\<exists>h. b_Header demo_b1 = Some h \<and> bc_Headers demo_bc1 = bc_Headers demo_bc0 @ [h]"
  using AddBlock_sound [OF _ demo_bc1_sel(5)] by (auto simp: demo_bc0_sel demo_linked)



text \<open>In every state a node on the in-memory store can reach, by any blocks in any order, accepted
  or rejected: the headers start with the genesis header and form a hash-linked list with heights
  0, 1, 2, ...; the store returns exactly the block of each header; and the total supply is
  exactly 5 per block after genesis.\<close>

theorem reachable_chain_invariant:
  assumes "mem_chain P (PoW_ConsensusEngine P) g bc" and "b_Header g = Some gh" and "hd_Height gh = 0"
  shows "chain_ok P (MemoryStore_Storage P) bc \<and> hd (bc_Headers bc) = gh \<and>
    total_supply (balance_of (bc_WorldState bc)) = 5 * (length (bc_Headers bc) - 1)"
  using assms(1) PoW_weight_no_err assms(2,3) by (rule mem_chain_inv)

lemma demo_mem_chain:
  "mem_chain demo_P demo_pow demo_b0 demo_bc0" "mem_chain demo_P demo_pow demo_b0 demo_bc1"
proof -
  obtain bc where bc: "NewBlockchain demo_P demo_ms demo_pow demo_b0 NewMemoryStorage = Some (bc, Ok ())"
    using demo_new by blast
  then have "mem_chain demo_P demo_pow demo_b0 bc" unfolding demo_ms_def by (rule chain_start)
  then show c0: "mem_chain demo_P demo_pow demo_b0 demo_bc0"
    using bc by (simp add: demo_bc0_def chain_engine)
  show "mem_chain demo_P demo_pow demo_b0 demo_bc1"
    using c0 demo_bc1_sel(5) [unfolded demo_ms_def] by (rule chain_add) simp
qed

theorem reachable_chain_invariant_witness:
  "chain_ok demo_P (MemoryStore_Storage demo_P) demo_bc1 \<and> hd (bc_Headers demo_bc1) = demo_h0 \<and>
    total_supply (balance_of (bc_WorldState demo_bc1)) = 5 * (length (bc_Headers demo_bc1) - 1)"
  by (rule reachable_chain_invariant [OF demo_mem_chain(2) [unfolded demo_pow_def]])
    (simp_all add: demo_b0_def NewBlock_def demo_h0_def demo_header_def)

text \<open>C24. A block that is rejected with an error, for whatever reason, leaves the headers, the store, the
  total difficulty and the total supply as they were (in-memory store).\<close>

theorem AddBlock_rejected:
  assumes "AddBlock P (MemoryStore_Storage P) (PoW_ConsensusEngine P) b bc = Some (bc', Err e)"
    and "total_supply (balance_of (bc_WorldState bc)) < 2 ^ 64"
  shows "bc_Headers bc' = bc_Headers bc \<and> bc_store bc' = bc_store bc \<and>
    bc_totalDifficulty bc' = bc_totalDifficulty bc \<and>
    total_supply (balance_of (bc_WorldState bc')) = total_supply (balance_of (bc_WorldState bc))"
  using AddBlock_memory_Err [OF assms(1) PoW_weight_no_err assms(2)] by simp

text \<open>A valid block with the same transfer twice, which the sender can pay only once.\<close>

definition demo_h3 :: Header where
  "demo_h3 = demo_header 2 (demo_sha [1, 1]) (demo_prev demo_h1)"

definition demo_b3 :: Block where
  "demo_b3 = demo_block demo_h3 [demo_tx, demo_tx]"

lemma demo_rejected:
  "\<exists>bc' e. AddBlock demo_P (MemoryStore_Storage demo_P) (PoW_ConsensusEngine demo_P) demo_b3 demo_bc1
     = Some (bc', Err e) \<and> bc_WorldState bc' = demo_ws"
proof -
  have b: "b_Header demo_b3 = Some demo_h3" "b_Transactions demo_b3 = [demo_tx, demo_tx]"
    "unat (hd_Height demo_h3) = length (bc_Headers demo_bc1)" "linked demo_P (bc_Headers demo_bc1)"
    "hd_PrevBlockHash demo_h3 = BlockHasher_Hash demo_P (last (bc_Headers demo_bc1))"
    by (simp_all add: demo_b3_def demo_block_def NewBlock_def demo_h3_def demo_header_def demo_bc1_sel demo_linked)
  have "Block_Verify demo_P demo_b3 = Ok ()"
    by (simp add: Block_Verify_def demo_b3_def demo_h3_def demo_block_defs demo_tx_Encode demo_tx_Verify)
  moreover have "PoW_VerifyHeader demo_P demo_h3 (NewPoWEngine 0) = (NewPoWEngine 0, Ok ())"
    using demo_pow_ok [of demo_h3 "NewPoWEngine 0"] by (simp add: PoW_VerifyHeader_def demo_h3_def demo_header_def)
  ultimately have "ValidateBlockLocked demo_P (PoW_ConsensusEngine demo_P) demo_b3 demo_bc1
      = (demo_bc1\<lparr>bc_consensus := Some (NewPoWEngine 0)\<rparr>, Ok ())"
    using ValidateBlockLocked_upto_consensus [OF b(1) next_height [OF b(4,3)] b(5)]
    by (simp add: verify_consensus_def demo_bc1_sel PoW_ConsensusEngine_def)
  then show ?thesis
    by (auto simp: AddBlock_def b demo_bc1_sel demo_exec demo_exec_fails)
qed

theorem AddBlock_rejected_witness:
  "\<exists>bc' e. AddBlock demo_P (MemoryStore_Storage demo_P) (PoW_ConsensusEngine demo_P) demo_b3 demo_bc1 = Some (bc', Err e) \<and>
    bc_Headers bc' = bc_Headers demo_bc1 \<and> bc_store bc' = bc_store demo_bc1 \<and>
    bc_totalDifficulty bc' = bc_totalDifficulty demo_bc1 \<and>
    total_supply (balance_of (bc_WorldState bc')) = total_supply (balance_of (bc_WorldState demo_bc1))"
proof -
  obtain bc' e where e: "AddBlock demo_P (MemoryStore_Storage demo_P) (PoW_ConsensusEngine demo_P) demo_b3 demo_bc1
      = Some (bc', Err e)" using demo_rejected by blast
  with AddBlock_rejected [OF e] show ?thesis by (auto simp: demo_bc1_sel demo_supply)
qed

text \<open>Adding a block is not atomic: there is a reachable chain and a properly signed block that it
  rejects with an error, after which the recipient of the block's first transaction has been
  paid although the block is not in the chain.\<close>

theorem AddBlock_not_atomic:
  "\<exists>bc b bc' e. mem_chain demo_P (PoW_ConsensusEngine demo_P) demo_b0 bc \<and>
    AddBlock demo_P (MemoryStore_Storage demo_P) (PoW_ConsensusEngine demo_P) b bc = Some (bc', Err e) \<and>
    bc_Headers bc' = bc_Headers bc \<and> Block_Verify demo_P b = Ok () \<and>
    GetBalance (bc_WorldState bc) demo_dest = 0 \<and> GetBalance (bc_WorldState bc') demo_dest = 3"
proof -
  obtain bc' e where e: "AddBlock demo_P (MemoryStore_Storage demo_P) (PoW_ConsensusEngine demo_P) demo_b3 demo_bc1
      = Some (bc', Err e)" and ws: "bc_WorldState bc' = demo_ws" using demo_rejected by blast
  have "GetBalance (AddBalance demo_addr 5 NewWorldState) demo_dest = 0"
    using demo_addr_neq by (simp add: AddBalance_balance) (simp add: NewWorldState_def GetBalance_def)
  moreover from this have "GetBalance demo_ws demo_dest = 3"
    using Transfer_balance [OF demo_Transfer, of demo_dest] demo_addr_neq by (simp add: demo_ws_def)
  moreover have "bc_Headers bc' = bc_Headers demo_bc1"
    using AddBlock_memory_Err(1) [OF e PoW_weight_no_err] by (simp add: demo_bc1_sel demo_supply)
  moreover have "Block_Verify demo_P demo_b3 = Ok ()"
    by (simp add: Block_Verify_def demo_b3_def demo_h3_def demo_block_defs demo_tx_Encode demo_tx_Verify)
  ultimately show ?thesis
    using e ws demo_mem_chain(2) [unfolded demo_pow_def]
    by (intro exI [of _ demo_bc1] exI [of _ demo_b3] exI [of _ bc'] exI [of _ e]) (simp add: demo_bc1_sel)
qed

text \<open>Adding a block returns if none of its transactions has the largest gas limit.\<close>

theorem AddBlock_returns:
  assumes "\<forall>tx\<in>set (b_Transactions b). tx_GasLimit tx \<noteq> - 1"
  shows "\<exists>bc' r. AddBlock P so ce b bc = Some (bc', r)"
proof -
  have "map_option f (executeTransactions P (b_Transactions b) ws) \<noteq> None" for f ws
    using executeTransactions_returns [of "b_Transactions b" P ws] assms by auto
  then have "AddBlock P so ce b bc \<noteq> None"
    unfolding AddBlock_def by (intro then_exec_returns) (simp_all add: Let_def split: option.splits)
  then show ?thesis by auto
qed

theorem AddBlock_returns_witness: "\<exists>bc' r. AddBlock demo_P demo_ms demo_pow demo_b2 demo_bc0 = Some (bc', r)"
  by (rule AddBlock_returns) (simp add: demo_b2_def demo_block_def NewBlock_def demo_tx_def NewTransaction_def)

text \<open>A restart of a node on the LevelDB store after a block was added: the chain opened from the
  database has exactly the same headers, and an empty world state.\<close>

theorem LevelDB_restart:
  assumes "leveldb_laws L" and "marshal_roundtrip P" and "gob_block_roundtrip P" and "gob_tx_roundtrip P"
    and "chain_ok P (LevelDBStore_Storage P L) bc"
    and "AddBlock P (LevelDBStore_Storage P L) ce b bc = Some (bc', Ok ())" and "length (bc_Headers bc') < 2 ^ 32"
  shows "\<exists>bc''. NewBlockchain P (LevelDBStore_Storage P L) ce g (bc_store bc') = Some (bc'', Ok ()) \<and>
    bc_Headers bc'' = bc_Headers bc' \<and> bc_store bc'' = bc_store bc' \<and> bc_WorldState bc'' = NewWorldState"
proof -
  have "block_store P (LevelDBStore_Storage P L)" using assms(1-4) by (rule LevelDBStore_block_store)
  then have "chain_ok P (LevelDBStore_Storage P L) bc'"
    using block_store.AddBlock_chain_ok assms(5,6) by blast
  from NewBlockchain_reloads [OF this assms(7), of ce g] show ?thesis by simp
qed

theorem LevelDB_restart_witness:
  "\<exists>bc' bc''. AddBlock demo_P demo_ldb demo_pow demo_b1 demo_lbc = Some (bc', Ok ()) \<and>
    NewBlockchain demo_P demo_ldb demo_pow demo_b0 (bc_store bc') = Some (bc'', Ok ()) \<and>
    bc_Headers bc'' = bc_Headers bc'"
proof -
  obtain bc' where add: "AddBlock demo_P demo_ldb demo_pow demo_b1 demo_lbc = Some (bc', Ok ())"
    using demo_ladd by blast
  have "block_store demo_P demo_ldb"
    unfolding demo_ldb_def using demo_L_laws demo_marshal demo_gob_block demo_gob_tx by (rule LevelDBStore_block_store)
  then obtain h where "bc_Headers bc' = bc_Headers demo_lbc @ [h]"
    using block_store.AddBlock_chain_ok demo_lbc_ok add by blast
  then have "length (bc_Headers bc') < 2 ^ 32" by (simp add: demo_lbc_def)
  from LevelDB_restart [OF demo_L_laws demo_marshal demo_gob_block demo_gob_tx demo_lbc_ok [unfolded demo_ldb_def]
      add [unfolded demo_ldb_def] this, of demo_b0] add
  show ?thesis unfolding demo_ldb_def by blast
qed

section \<open>Lost writes\<close>

lemma AddBlock_writes:
  assumes "AddBlock P (LevelDBStore_Storage P L) ce b bc = Some (bc', r)" and run: "\<not> is_Panic r" "weight_no_err ce"
    and "leveldb_atomic L" and lk: "linked P (bc_Headers bc)" and new: "r = Ok () \<or> bc_Headers bc' \<noteq> bc_Headers bc"
  shows "\<exists>h b1. b_Header b = Some h \<and> b_Header b1 = Some h \<and> unat (hd_Height h) = length (bc_Headers bc) \<and>
    bc_Headers bc' = bc_Headers bc @ [h] \<and> linked P (bc_Headers bc') \<and> LevelDBStore_Put P L b1 (bc_store bc) = (bc_store bc', r) \<and>
    (\<forall>n. n \<noteq> hd_Height h \<longrightarrow> LevelDBStore_Get P L (bc_store bc') n = LevelDBStore_Get P L (bc_store bc) n)"
  using assms(1)
proof (cases rule: AddBlockE)
  case (stored bc1 ws h c)
  let ?bc = "bc1\<lparr>bc_consensus := c, bc_WorldState := AddBalance (hd_Coinbase h) 5 ws\<rparr>"
  note frame = executed_frame [OF stored(1)]
  obtain h' where h': "b_Header b = Some h'" "length (bc_Headers bc) < 2 ^ 32" "unat (hd_Height h') = length (bc_Headers bc)"
    "hd_PrevBlockHash h' = BlockHasher_Hash P (last (bc_Headers bc))"
    using stored(1) lk by (rule ValidateBlockLocked_OkE)
  obtain h2 b1 s td where h2: "b_Header b = Some h2" and b1: "b_Header b1 = Some h2"
    and put: "st_Put (LevelDBStore_Storage P L) b1 (bc_store ?bc) = (s, r)"
    and upd: "bc' = ?bc\<lparr>bc_Headers := bc_Headers ?bc @ [h2], bc_totalDifficulty := td, bc_store := s\<rparr>"
    using stored(5) run by (rule addBlockWithoutValidationLocked_runE)
  have [simp]: "h2 = h'" using h2 h'(1) by simp
  have "LevelDBStore_Put P L b1 (bc_store bc) = (s, r)" using put frame by simp
  moreover note LevelDBStore_Put_other [OF assms(4) this b1]
  moreover have "linked P (bc_Headers bc @ [h'])" using lk h'(2-4) by (intro linked_snoc) simp_all
  ultimately show ?thesis using h' b1 upd frame by (intro exI [of _ h'] exI [of _ b1]) simp
qed (use new in \<open>auto dest: executed_frame\<close>)

text \<open>What a successful write adds for \<open>loadHeaders\<close> to find.\<close>

lemma written_header:
  assumes "block_store P (LevelDBStore_Storage P L)" and "LevelDBStore_Put P L b d = (d', Ok ())" and "b_Header b = Some h"
  shows "\<exists>b'. LevelDBStore_Get P L d' (hd_Height h) = Ok b' \<and> b_Header b' = Some h"
  using block_store.get_put_same [OF assms(1), of b d d' h] assms(2,3) by (metis LevelDBStore_Storage_sel(1,2) block_exported_sel(1))

text \<open>A block written below one that an earlier chain has left.\<close>

lemma NewBlockchain_reads_stale:
  assumes store: "block_store P (LevelDBStore_Storage P L)" and "has_headers (LevelDBStore_Storage P L) d hs" and "hs \<noteq> []"
    and "LevelDBStore_Get P L d (of_nat (Suc (length hs))) = Ok stale" and "b_Header stale = Some h2"
    and "LevelDBStore_Get P L d (of_nat (Suc (Suc (length hs)))) = Err e" and len: "length hs + 2 < 2 ^ 32"
    and put: "LevelDBStore_Put P L b d = (d', Ok ())" "b_Header b = Some h" "unat (hd_Height h) = length hs"
  shows "NewBlockchain P (LevelDBStore_Storage P L) ce g d' =
    Some (\<lparr>bc_store = d', bc_Headers = hs @ [h, h2], bc_consensus = None, bc_validator = BlockValidator,
      bc_WorldState = NewWorldState, bc_totalDifficulty = Some 0\<rparr>, Ok ())"
proof -
  let ?so = "LevelDBStore_Storage P L" and ?get = "LevelDBStore_Get P L"
  have same: "?get d' n = ?get d n" if "unat n \<noteq> length hs" for n
    using block_store.get_put_other [OF store _ put(2), of d d' n] put(1,3) that by auto
  have "has_headers ?so d' hs" using len same by (intro has_headers_other [OF assms(2)]) simp_all
  moreover have "hd_Height h = of_nat (length hs)" using arg_cong [OF put(3), of "of_nat :: nat \<Rightarrow> u32"] by simp
  then have "\<exists>b'. ?get d' (of_nat (length hs)) = Ok b' \<and> b_Header b' = Some h" using written_header [OF store put(1,2)] by simp
  moreover have "?get d' (of_nat (Suc (length hs))) = Ok stale"
    using same [of "of_nat (Suc (length hs))"] assms(4) len by (simp add: u32_of_nat del: of_nat_Suc)
  ultimately have "has_headers ?so d' ((hs @ [h]) @ [h2])"
    using assms(5) unfolding has_headers_snoc by simp
  moreover have "?get d' (of_nat (Suc (Suc (length hs)))) = Err e"
    using same [of "of_nat (Suc (Suc (length hs)))"] assms(6) len by (simp add: u32_of_nat del: of_nat_Suc)
  ultimately show ?thesis using NewBlockchain_reads [of ?so d' "hs @ [h, h2]" e P ce g] by simp
qed

text \<open>C25. A block whose write fails stays in the chain, and the next block is written above the gap. A
  restart finds the chain without both of them; when the node has then added another block at the
  height of the lost one, the restart after that puts the stale block on top of it, and the chain
  that the node begins with is not linked.\<close>

theorem lost_write_breaks_chain:
  assumes "leveldb_laws L" and "leveldb_atomic L" and "marshal_roundtrip P" and "gob_block_roundtrip P" and "gob_tx_roundtrip P"
    and "chain_ok P (LevelDBStore_Storage P L) bc" and "length (bc_Headers bc) + 2 < 2 ^ 32"
    and "AddBlock P (LevelDBStore_Storage P L) (PoW_ConsensusEngine P) b bc = Some (bc1, Err e)"
    and "bc_Headers bc1 = bc_Headers bc @ [h]" and "LevelDBStore_Get P L (bc_store bc1) (hd_Height h) = Err e'"
    and "AddBlock P (LevelDBStore_Storage P L) (PoW_ConsensusEngine P) b2 bc1 = Some (bc2, Ok ())"
  shows "\<exists>h2 bc3. bc_Headers bc2 = bc_Headers bc @ [h, h2] \<and>
    NewBlockchain P (LevelDBStore_Storage P L) (PoW_ConsensusEngine P) genesisBlock (bc_store bc2) = Some (bc3, Ok ()) \<and>
    bc_Headers bc3 = bc_Headers bc \<and>
    (\<forall>c b3 h3 bc4. AddBlock P (LevelDBStore_Storage P L) (PoW_ConsensusEngine P) b3 (SetConsensus c bc3) = Some (bc4, Ok ()) \<longrightarrow>
       b_Header b3 = Some h3 \<longrightarrow> BlockHasher_Hash P h3 \<noteq> BlockHasher_Hash P h \<longrightarrow>
       bc_Headers bc4 = bc_Headers bc @ [h3] \<and>
       (\<exists>bc5. NewBlockchain P (LevelDBStore_Storage P L) (PoW_ConsensusEngine P) genesisBlock (bc_store bc4) = Some (bc5, Ok ()) \<and>
          bc_Headers bc5 = bc_Headers bc @ [h3, h2] \<and> \<not> linked P (bc_Headers bc5)))"
proof -
  let ?so = "LevelDBStore_Storage P L" and ?hs = "bc_Headers bc" and ?ce = "PoW_ConsensusEngine P"
  let ?n = "length ?hs" and ?get = "LevelDBStore_Get P L"
  have store: "block_store P ?so" using assms(1,3-5) by (rule LevelDBStore_block_store)
  have lk: "linked P ?hs" and ag: "store_agrees ?so (bc_store bc) ?hs" using assms(6) by (simp_all add: chain_ok_def)
  have has: "has_headers ?so (bc_store bc) ?hs" using ag assms(7) by (intro store_agrees_has) simp_all
  have h: "unat (hd_Height h) = ?n" "linked P (bc_Headers bc1)"
    "\<forall>n. n \<noteq> hd_Height h \<longrightarrow> ?get (bc_store bc1) n = ?get (bc_store bc) n"
    using AddBlock_writes [OF assms(8) _ PoW_weight_no_err assms(2) lk] assms(9) by auto
  obtain h2 b2' where h2: "b_Header b2' = Some h2" "unat (hd_Height h2) = Suc ?n" "bc_Headers bc2 = ?hs @ [h, h2]" "linked P (bc_Headers bc2)"
    "LevelDBStore_Put P L b2' (bc_store bc1) = (bc_store bc2, Ok ())"
    "\<forall>n. n \<noteq> hd_Height h2 \<longrightarrow> ?get (bc_store bc2) n = ?get (bc_store bc1) n"
    using AddBlock_writes [OF assms(11) _ PoW_weight_no_err assms(2) h(2)] assms(9) by auto
  have ht: "hd_Height h = of_nat ?n" "hd_Height h2 = of_nat (Suc ?n)" 
    using arg_cong [OF h(1), of "of_nat :: nat \<Rightarrow> u32"] arg_cong [OF h2(2), of "of_nat :: nat \<Rightarrow> u32"] by simp_all
  have below: "?get (bc_store bc2) n = ?get (bc_store bc) n" if "unat n \<noteq> ?n" "unat n \<noteq> Suc ?n" for n
    using h(1,3) h2(2,6) that by metis
  have has2: "has_headers ?so (bc_store bc2) ?hs"
    using assms(7) below by (intro has_headers_other [OF has]) simp_all
  have gap: "?get (bc_store bc2) (of_nat ?n) = Err e'" using h2(2,6) h(1) assms(10) ht(1) by (metis n_not_Suc_n)
  obtain s2 where s2: "?get (bc_store bc2) (of_nat (Suc ?n)) = Ok s2" "b_Header s2 = Some h2"
    using written_header [OF store h2(5,1)] ht(2) by auto
  obtain e2 where e2: "?get (bc_store bc) (of_nat (Suc (Suc ?n))) = Err e2"
    using store_agrees_out [OF ag, of "of_nat (Suc (Suc ?n))"] assms(7) by (auto simp: u32_of_nat simp del: of_nat_Suc)
  let ?bc3 = "\<lparr>bc_store = bc_store bc2, bc_Headers = ?hs, bc_consensus = None, bc_validator = BlockValidator,
    bc_WorldState = NewWorldState, bc_totalDifficulty = Some 0\<rparr> :: (_, PoWEngine) Blockchain"
  have open3: "NewBlockchain P ?so ?ce genesisBlock (bc_store bc2) = Some (?bc3, Ok ())"
    using has2 gap lk by (intro NewBlockchain_reads) (simp_all add: linked_def)
  have "bc_Headers bc4 = ?hs @ [h3] \<and> (\<exists>bc5. NewBlockchain P ?so ?ce genesisBlock (bc_store bc4) = Some (bc5, Ok ()) \<and>
      bc_Headers bc5 = ?hs @ [h3, h2] \<and> \<not> linked P (bc_Headers bc5))"
    if add: "AddBlock P ?so ?ce b3 (SetConsensus c ?bc3) = Some (bc4, Ok ())" and b3: "b_Header b3 = Some h3"
      and other: "BlockHasher_Hash P h3 \<noteq> BlockHasher_Hash P h" for c b3 h3 bc4
  proof -
    obtain b3' where h3: "b_Header b3' = Some h3" "unat (hd_Height h3) = ?n" "bc_Headers bc4 = ?hs @ [h3]"
      "LevelDBStore_Put P L b3' (bc_store bc2) = (bc_store bc4, Ok ())"
      using AddBlock_writes [OF add _ PoW_weight_no_err assms(2)] lk b3 by (auto simp: SetConsensus_def)
    have "?get (bc_store bc2) (of_nat (Suc (Suc ?n))) = Err e2"
      using below [of "of_nat (Suc (Suc ?n))"] e2 assms(7) by (simp add: u32_of_nat del: of_nat_Suc)
    note reopened = NewBlockchain_reads_stale [OF store has2 _ s2 this assms(7) h3(4,1,2), of ?ce genesisBlock]
    have "hd_PrevBlockHash h2 = BlockHasher_Hash P h"
      using h2(3,4) by (auto simp: linked_def nth_append dest!: spec [of _ ?n])
    then have "\<not> linked P (?hs @ [h3, h2])" using other by (auto simp: linked_def nth_append dest!: spec [of _ ?n])
    moreover have "?hs \<noteq> []" using lk by (simp add: linked_def)
    ultimately show ?thesis using reopened h3(3) by simp
  qed
  then show ?thesis using h2(3) open3 by (intro exI [of _ h2] exI [of _ ?bc3]) auto
qed

text \<open>A database that cannot write one value.\<close>

definition demo_faulty :: "(byte list \<rightharpoonup> byte list) leveldb" where
  "demo_faulty = \<lparr>ldb_Put = (\<lambda>k v d. if v = [11] then (d, Err (ErrExternal ''no space left'')) else (d(k \<mapsto> v), Ok ())), ldb_Get = ldb_Get demo_L\<rparr>"

lemma demo_faulty_laws: "leveldb_laws demo_faulty" "leveldb_atomic demo_faulty"
  by (auto simp: leveldb_laws_def leveldb_atomic_def demo_faulty_def demo_L_def Let_def split: if_splits)

lemma demo_faulty_Get: "LevelDBStore_Get demo_P demo_faulty = LevelDBStore_Get demo_P demo_L"
  by (intro ext) (simp add: LevelDBStore_Get_def demo_faulty_def)

lemma demo_faulty_lbc: "chain_ok demo_P (LevelDBStore_Storage demo_P demo_faulty) demo_lbc"
  using demo_lbc_ok unfolding chain_ok_def store_agrees_def demo_ldb_def LevelDBStore_Storage_sel demo_faulty_Get .

definition demo_grown :: "(byte list \<rightharpoonup> byte list, PoWEngine) Blockchain" where
  "demo_grown = demo_lbc\<lparr>bc_WorldState := AddBalance demo_addr 5 NewWorldState, bc_Headers := [demo_h0, demo_h1], bc_totalDifficulty := Some 65536\<rparr>"

lemma demo_lost:
  "AddBlock demo_P (LevelDBStore_Storage demo_P demo_faulty) (PoW_ConsensusEngine demo_P) demo_b1 demo_lbc =
     Some (demo_grown, Err (ErrExternal ''no space left''))"
proof -
  have h: "b_Header demo_b1 = Some demo_h1" "block_memo_ok demo_P demo_b1" "b_Transactions demo_b1 = []" "hd_Difficulty demo_h1 = 16"
    "unat (hd_Height demo_h1) = 1" "hd_PrevBlockHash demo_h1 = demo_prev demo_h0" "hd_Coinbase demo_h1 = demo_addr"
    by (simp_all add: demo_block_sels demo_h1_def demo_header_def)
  have "st_Put (LevelDBStore_Storage demo_P demo_faulty) (demo_b1\<lparr>b_hash := BlockHasher_Hash demo_P demo_h1\<rparr>) (bc_store demo_lbc) =
      (demo_db, Err (ErrExternal ''no space left''))"
    unfolding LevelDBStore_Storage_sel demo_Put [OF demo_Encode(2) h(1,2)] by (simp add: demo_faulty_def demo_lbc_def)
  from AddBlock_PoW [of demo_P demo_lbc "NewPoWEngine 0" 0 demo_b1 demo_h1 NewWorldState 65536, OF _ _ _ h(1,2) _ _ _ demo_b1_Verify _ _ this]
  show ?thesis by (simp add: h demo_lbc_def demo_grown_def demo_linked demo_pow_ok demo_Lsh16)
qed

lemma demo_above:
  "\<exists>bc. AddBlock demo_P (LevelDBStore_Storage demo_P demo_faulty) (PoW_ConsensusEngine demo_P) demo_b2 demo_grown = Some (bc, Ok ()) \<and>
     bc_Headers bc = [demo_h0, demo_h1, demo_h2]"
proof -
  have h: "b_Header demo_b2 = Some demo_h2" "block_memo_ok demo_P demo_b2" "b_Transactions demo_b2 = [demo_tx]" "hd_Difficulty demo_h2 = 16"
    "unat (hd_Height demo_h2) = 2" "hd_PrevBlockHash demo_h2 = demo_prev demo_h1"
    by (simp_all add: demo_block_sels demo_h2_def demo_header_def)
  obtain st where "st_Put (LevelDBStore_Storage demo_P demo_faulty) (demo_b2\<lparr>b_hash := BlockHasher_Hash demo_P demo_h2\<rparr>) (bc_store demo_grown) =
      (st, Ok ())"
    unfolding LevelDBStore_Storage_sel demo_Put [OF demo_Encode(3) h(1,2)] by (simp add: demo_faulty_def h demo_tx_Encode)
  from AddBlock_PoW [of demo_P demo_grown "NewPoWEngine 0" 65536 demo_b2 demo_h2 demo_ws 65536, OF _ _ _ h(1,2) _ _ _ demo_b2_Verify _ _ this]
  show ?thesis by (simp add: h demo_grown_def demo_lbc_def demo_linked demo_pow_ok demo_Lsh16 demo_exec)
qed

lemma demo_refilled:
  "\<exists>bc. AddBlock demo_P (LevelDBStore_Storage demo_P demo_faulty) (PoW_ConsensusEngine demo_P) demo_bf (demo_lbc\<lparr>bc_store := d\<rparr>) = Some (bc, Ok ())"
proof -
  have h: "b_Header demo_bf = Some demo_hf" "block_memo_ok demo_P demo_bf" "b_Transactions demo_bf = []" "hd_Difficulty demo_hf = 16"
    "unat (hd_Height demo_hf) = 1" "hd_PrevBlockHash demo_hf = demo_prev demo_h0"
    by (simp_all add: demo_block_sels demo_hf_def demo_h1_def demo_header_def)
  obtain st where "st_Put (LevelDBStore_Storage demo_P demo_faulty) (demo_bf\<lparr>b_hash := BlockHasher_Hash demo_P demo_hf\<rparr>)
      (bc_store (demo_lbc\<lparr>bc_store := d\<rparr>)) = (st, Ok ())"
    unfolding LevelDBStore_Storage_sel demo_Put [OF demo_Encode(4) h(1,2)] by (simp add: demo_faulty_def h)
  from AddBlock_PoW [of demo_P "demo_lbc\<lparr>bc_store := d\<rparr>" "NewPoWEngine 0" 0 demo_bf demo_hf NewWorldState 65536,
      OF _ _ _ h(1,2) _ _ _ demo_bf_Verify _ _ this]
  show ?thesis by (simp add: h demo_lbc_def demo_linked demo_pow_ok demo_Lsh16)
qed

lemma demo_prev_neq: "demo_prev demo_hf \<noteq> demo_prev demo_h1"
  by code_simp

theorem lost_write_breaks_chain_witness:
  "\<exists>bc1 bc2 bc3 bc4 bc5. AddBlock demo_P (LevelDBStore_Storage demo_P demo_faulty) (PoW_ConsensusEngine demo_P) demo_b1 demo_lbc =
      Some (bc1, Err (ErrExternal ''no space left'')) \<and>
    AddBlock demo_P (LevelDBStore_Storage demo_P demo_faulty) (PoW_ConsensusEngine demo_P) demo_b2 bc1 = Some (bc2, Ok ()) \<and>
    NewBlockchain demo_P (LevelDBStore_Storage demo_P demo_faulty) (PoW_ConsensusEngine demo_P) genesisBlock (bc_store bc2) = Some (bc3, Ok ()) \<and>
    AddBlock demo_P (LevelDBStore_Storage demo_P demo_faulty) (PoW_ConsensusEngine demo_P) demo_bf (SetConsensus (NewPoWEngine 0) bc3) = Some (bc4, Ok ()) \<and>
    NewBlockchain demo_P (LevelDBStore_Storage demo_P demo_faulty) (PoW_ConsensusEngine demo_P) genesisBlock (bc_store bc4) = Some (bc5, Ok ()) \<and>
    \<not> linked demo_P (bc_Headers bc5)"
proof -
  let ?so = "LevelDBStore_Storage demo_P demo_faulty" and ?ce = "PoW_ConsensusEngine demo_P"
  obtain bc2 where bc2: "AddBlock demo_P ?so ?ce demo_b2 demo_grown = Some (bc2, Ok ())" using demo_above by blast
  have lost: "bc_Headers demo_grown = bc_Headers demo_lbc @ [demo_h1]"
    "LevelDBStore_Get demo_P demo_faulty (bc_store demo_grown) (hd_Height demo_h1) = Err (ErrNoBlockDB 1 (ErrExternal ''leveldb: not found''))"
    by (simp_all add: demo_grown_def demo_lbc_def demo_faulty_Get LevelDBStore_Get_def demo_L_def demo_db_def demo_h1_def demo_header_def)
  have len: "length (bc_Headers demo_lbc) + 2 < 2 ^ 32" by (simp add: demo_lbc_def)
  obtain bc3 h2 where bc3: "NewBlockchain demo_P ?so ?ce genesisBlock (bc_store bc2) = Some (bc3, Ok ())" "bc_Headers bc3 = bc_Headers demo_lbc"
    and broken: "\<forall>c b3 h3 bc4. AddBlock demo_P ?so ?ce b3 (SetConsensus c bc3) = Some (bc4, Ok ()) \<longrightarrow> b_Header b3 = Some h3 \<longrightarrow>
       BlockHasher_Hash demo_P h3 \<noteq> BlockHasher_Hash demo_P demo_h1 \<longrightarrow> bc_Headers bc4 = bc_Headers demo_lbc @ [h3] \<and>
       (\<exists>bc5. NewBlockchain demo_P ?so ?ce genesisBlock (bc_store bc4) = Some (bc5, Ok ()) \<and>
          bc_Headers bc5 = bc_Headers demo_lbc @ [h3, h2] \<and> \<not> linked demo_P (bc_Headers bc5))"
    using lost_write_breaks_chain [OF demo_faulty_laws demo_marshal demo_gob_block demo_gob_tx demo_faulty_lbc len demo_lost lost bc2]
    by (elim exE conjE)
  have "SetConsensus (NewPoWEngine 0) bc3 = demo_lbc\<lparr>bc_store := bc_store bc3\<rparr>"
    using NewBlockchain_fields [OF bc3(1)] bc3(2) by (cases bc3) (simp add: SetConsensus_def demo_lbc_def)
  then obtain bc4 where bc4: "AddBlock demo_P ?so ?ce demo_bf (SetConsensus (NewPoWEngine 0) bc3) = Some (bc4, Ok ())"
    using demo_refilled [of "bc_store bc3"] by auto
  have "b_Header demo_bf = Some demo_hf" by (simp add: demo_block_sels)
  then have "\<exists>bc5. NewBlockchain demo_P ?so ?ce genesisBlock (bc_store bc4) = Some (bc5, Ok ()) \<and> \<not> linked demo_P (bc_Headers bc5)"
    using broken [rule_format, OF bc4] demo_prev_neq by auto
  then obtain bc5 where "NewBlockchain demo_P ?so ?ce genesisBlock (bc_store bc4) = Some (bc5, Ok ())" "\<not> linked demo_P (bc_Headers bc5)"
    by blast
  with demo_lost bc2 bc3(1) bc4 show ?thesis by (intro exI conjI) assumption+
qed

end
