(* ===== verification/ConsensusTheorems.thy ===== *)
theory ConsensusTheorems
  imports NodeTheorems
begin

text \<open>
  The theorems about the consensus engines of src/consensus, alone and under the chain, about fork
  choice, and about the transaction pool of src/network/txpool.go.
\<close>

section \<open>Proof of work\<close>

text \<open>C15. Mining is complete and minimal: on a prepared header, if any nonce below the last one meets
  the target and the clock never runs out, Seal returns the block with the least such nonce and
  nothing else changed, and the result passes VerifyHeader of any engine.\<close>

theorem PoW_Seal_correct:
  assumes "PoW_Prepare h pow = Ok h1" and "b_Header b = Some h1" and "targetDifficulty pow \<le> 256"
    and "32 < max_alloc P" and "meets P (pow_target (targetDifficulty pow)) h1 n" and "n < - 1"
  shows "\<exists>m. least_nonce P (pow_target (targetDifficulty pow)) h1 0 m \<and>
    PoW_Seal P (\<lambda>_. False) b pow = Ok (b\<lparr>b_Header := Some (h1\<lparr>hd_Nonce := m\<rparr>)\<rparr>) \<and>
    snd (PoW_VerifyHeader P (h1\<lparr>hd_Nonce := m\<rparr>) pow') = Ok ()"
proof -
  let ?t = "pow_target (targetDifficulty pow)"
  obtain m where m: "least_nonce P ?t h1 0 m" using least_nonce_exists [OF assms(5,6), of 0] by auto
  have d: "hd_Difficulty h1 = targetDifficulty pow" using assms(1) by (auto simp: PoW_Prepare_def)
  have "PoW_Seal P (\<lambda>_. False) b pow = Ok (b\<lparr>b_Header := Some (h1\<lparr>hd_Nonce := m\<rparr>)\<rparr>)"
    using Seal_loop_finds [OF m] assms(2) by (simp add: PoW_Seal_def Lsh_one_target [OF assms(3,4)])
  moreover have "hash_int P (h1\<lparr>hd_Nonce := m\<rparr>) \<le> ?t" using m by (simp add: least_nonce_def meets_def)
  ultimately show ?thesis using m d assms(3,4) by (auto simp: PoW_VerifyHeader_iff)
qed

theorem PoW_Seal_correct_witness:
  "\<exists>m. least_nonce demo_P (pow_target 16) demo_h1 0 m \<and>
    PoW_Seal demo_P (\<lambda>_. False) demo_b1 (NewPoWEngine 0) = Ok (demo_b1\<lparr>b_Header := Some (demo_h1\<lparr>hd_Nonce := m\<rparr>)\<rparr>) \<and>
    snd (PoW_VerifyHeader demo_P (demo_h1\<lparr>hd_Nonce := m\<rparr>) (NewPoWEngine 3)) = Ok ()"
proof -
  have t: "targetDifficulty (NewPoWEngine 0) = 16" by (simp add: NewPoWEngine_def defaultDifficulty_def)
  have h: "hd_Difficulty demo_h1 = 16" "demo_h1\<lparr>hd_Difficulty := 16\<rparr> = demo_h1" "demo_h1\<lparr>hd_Nonce := 0\<rparr> = demo_h1"
    by (simp_all add: demo_h1_def demo_header_def)
  have "snd (PoW_VerifyHeader demo_P demo_h1 (NewPoWEngine 0)) = Ok ()" using h(1) by (rule demo_pow_ok)
  then have "meets demo_P (pow_target 16) demo_h1 0"
    using PoW_VerifyHeader_iff [of demo_h1 demo_P "NewPoWEngine 0"] by (simp add: meets_def h)
  then show ?thesis
    using PoW_Seal_correct [of demo_h1 "NewPoWEngine 0" demo_h1 demo_b1 demo_P 0 "NewPoWEngine 3"]
    by (simp add: t PoW_Prepare_def h word_gt_0) (simp add: demo_b1_def demo_block_def NewBlock_def)
qed

text \<open>A sealed block is sealed: whenever Seal returns a block, with any clock, its header differs
  from the given one in the nonce only and meets the engine's target; Seal never loops forever and
  panics only for a nil header or a target that cannot be allocated.\<close>

theorem PoW_Seal_sound:
  assumes "targetDifficulty pow \<le> 256" and "32 < max_alloc P" and "b_Header b = Some h"
  shows "PoW_Seal P clk b pow \<in> {Err ErrMiningTimeout, Err ErrNoNonce} \<or>
    (\<exists>m. PoW_Seal P clk b pow = Ok (b\<lparr>b_Header := Some (h\<lparr>hd_Nonce := m\<rparr>)\<rparr>) \<and>
       hash_int P (h\<lparr>hd_Nonce := m\<rparr>) \<le> 2 ^ (256 - unat (targetDifficulty pow)))"
proof -
  let ?l = "Seal_loop P clk (pow_target (targetDifficulty pow)) h 0"
  have seal: "PoW_Seal P clk b pow = bind_outcome ?l (\<lambda>h'. Ok (b\<lparr>b_Header := Some h'\<rparr>))"
    using assms(3) by (simp add: PoW_Seal_def Lsh_one_target [OF assms(1,2)])
  show ?thesis
  proof (cases ?l)
    case (Ok h')
    from Seal_loop_least [OF this] Ok show ?thesis
      by (auto simp: seal least_nonce_def meets_def pow_target_def)
  next
    case (Err e)
    from Seal_loop_errors [OF this] Err show ?thesis by (auto simp: seal)
  next
    case (Panic p)
    then show ?thesis by (simp add: Seal_loop_no_panic)
  qed
qed

theorem PoW_Seal_sound_witness:
  "PoW_Seal demo_P (\<lambda>_. True) demo_b1 (NewPoWEngine 8) \<in> {Err ErrMiningTimeout, Err ErrNoNonce} \<or>
    (\<exists>m. PoW_Seal demo_P (\<lambda>_. True) demo_b1 (NewPoWEngine 8) = Ok (demo_b1\<lparr>b_Header := Some (demo_h1\<lparr>hd_Nonce := m\<rparr>)\<rparr>) \<and>
       hash_int demo_P (demo_h1\<lparr>hd_Nonce := m\<rparr>) \<le> 2 ^ (256 - unat (targetDifficulty (NewPoWEngine 8))))"
  by (rule PoW_Seal_sound) (simp_all add: NewPoWEngine_def demo_b1_def demo_block_def NewBlock_def)

text \<open>VerifyHeader checks the difficulty the header itself claims, never the engine's: a header that
  claims difficulty 0 passes with any hash and any engine, and one that claims more than 256 is
  never rejected: it passes or crashes the node.\<close>

theorem PoW_VerifyHeader_trusts_header:
  assumes "32 < max_alloc P"
  shows "(hd_Difficulty h = 0 \<longrightarrow> snd (PoW_VerifyHeader P h pow) = Ok ()) \<and>
    (256 < hd_Difficulty h \<longrightarrow> snd (PoW_VerifyHeader P h pow) \<in> {Ok (), Panic ShiftTooLarge})"
proof
  have "pow_target 0 = 2 ^ 256" by (simp add: pow_target_def)
  then show "hd_Difficulty h = 0 \<longrightarrow> snd (PoW_VerifyHeader P h pow) = Ok ()"
    using PoW_VerifyHeader_iff [of h P pow] hash_int_range(2) [of P h] assms by simp
  show "256 < hd_Difficulty h \<longrightarrow> snd (PoW_VerifyHeader P h pow) \<in> {Ok (), Panic ShiftTooLarge}"
  proof
    assume d: "256 < hd_Difficulty h"
    let ?n = "256 - hd_Difficulty h"
    have "256 \<le> unat ?n"
      using d unat_u64_less [of "hd_Difficulty h"]
      by (simp add: word_less_nat_alt unat_sub_if_size word_size)
    then have "(2 :: int) ^ 256 \<le> 2 ^ unat ?n" by (intro power_increasing) simp_all
    then have "hash_int P h \<le> push_bit (unat ?n) 1"
      using hash_int_range(2) [of P h] by (simp add: push_bit_eq_mult)
    then show "snd (PoW_VerifyHeader P h pow) \<in> {Ok (), Panic ShiftTooLarge}"
      by (auto simp: PoW_VerifyHeader_def Lsh_one_def)
  qed
qed

theorem PoW_VerifyHeader_trusts_header_witness:
  "snd (PoW_VerifyHeader demo_P (demo_h1\<lparr>hd_Difficulty := 0\<rparr>) (NewPoWEngine 200)) = Ok () \<and>
   snd (PoW_VerifyHeader demo_P (demo_h1\<lparr>hd_Difficulty := 300\<rparr>) (NewPoWEngine 200)) \<in> {Ok (), Panic ShiftTooLarge}"
  using PoW_VerifyHeader_trusts_header [of demo_P "demo_h1\<lparr>hd_Difficulty := 0\<rparr>" "NewPoWEngine 200"]
    PoW_VerifyHeader_trusts_header [of demo_P "demo_h1\<lparr>hd_Difficulty := 300\<rparr>" "NewPoWEngine 200"] by simp

section \<open>Proof of stake\<close>

definition demo_pos :: PoSEngine where
  "demo_pos = AddValidator demo_dest 7 (AddValidator demo_addr 10 NewPoSEngine)"

definition demo_pos_header :: "u64 \<Rightarrow> Header" where
  "demo_pos_header n = demo_h1\<lparr>hd_Coinbase := demo_dest, hd_Nonce := n\<rparr>"

lemma demo_pos_header_sel [simp]:
  "hd_Height (demo_pos_header n) = 1" "hd_Coinbase (demo_pos_header n) = demo_dest"
  "hd_PrevBlockHash (demo_pos_header n) = demo_prev demo_h0"
  by (simp_all add: demo_pos_header_def demo_h1_def demo_header_def)

lemma demo_pos_active: "activeSet demo_pos = [demo_addr, demo_dest]"
  by (simp add: demo_pos_def AddValidator_def NewPoSEngine_def)

lemma demo_pos_verify: "snd (PoS_VerifyHeader demo_P (demo_pos_header n) demo_pos) = Ok ()"
  by (simp add: PoS_VerifyHeader_Ok selectProposerLocked_def demo_pos_active seen_hash_def)
    (simp add: demo_pos_def AddValidator_def NewPoSEngine_def)

text \<open>C16. No equivocation: once an engine has accepted a header, then whatever calls follow in whatever
  order, it accepts from the same proposer at the same height only headers with the same hash.\<close>

theorem PoS_no_equivocation:
  assumes "snd (PoS_VerifyHeader P h c) = Ok ()"
    and "snd (PoS_VerifyHeader P h' (pos_run P (CallVerify h # xs) c)) = Ok ()"
    and "hd_Height h' = hd_Height h" and "hd_Coinbase h' = hd_Coinbase h"
  shows "BlockHasher_Hash P h' = BlockHasher_Hash P h"
  using no_equivocation [OF assms(1) pos_run_steps [of P "fst (PoS_VerifyHeader P h c)" xs] _ assms(3,4)] assms(2)
  by simp

theorem PoS_no_equivocation_witness:
  "snd (PoS_VerifyHeader demo_P (demo_pos_header 0) demo_pos) = Ok () \<and>
   snd (PoS_VerifyHeader demo_P (demo_pos_header 0) (pos_run demo_P [CallVerify (demo_pos_header 0), CallAdd demo_addr 1, CallAdd demo_dest 1] demo_pos)) = Ok () \<and>
   BlockHasher_Hash demo_P (demo_pos_header 0) = BlockHasher_Hash demo_P (demo_pos_header 0)"
proof -
  let ?c = "pos_run demo_P [CallVerify (demo_pos_header 0), CallAdd demo_addr 1, CallAdd demo_dest 1] demo_pos"
  note v = demo_pos_verify [of 0]
  have "seen_hash ?c 1 demo_dest = Some (BlockHasher_Hash demo_P (demo_pos_header 0))"
    using PoS_VerifyHeader_records [OF v] by (simp add: AddValidator_def seen_hash_def)
  then have "snd (PoS_VerifyHeader demo_P (demo_pos_header 0) ?c) = Ok ()"
    by (simp add: PoS_VerifyHeader_Ok selectProposerLocked_def AddValidator_def demo_pos_active)
  from v this PoS_no_equivocation [OF v this] show ?thesis by simp
qed



text \<open>C17. Slashing excludes: in a run that starts with a new engine, after a validator is slashed and
  until it is registered again, no header of it is accepted and it is never selected, whatever else
  is called; the slashing itself halves the stake and keeps every other validator.\<close>

theorem PoS_slashed_never_proposes:
  assumes "\<forall>s. CallAdd a s \<notin> set ys" and "c = pos_run P (xs @ CallSlash a # ys) NewPoSEngine"
  shows "SelectProposer c n \<noteq> Ok a \<and> (hd_Coinbase h = a \<longrightarrow> snd (PoS_VerifyHeader P h c) \<noteq> Ok ()) \<and>
    validators (pos_run P (xs @ [CallSlash a]) NewPoSEngine) =
      (\<lambda>b. if b = a then map_option (\<lambda>s. s div 2) (validators (pos_run P xs NewPoSEngine) a)
           else validators (pos_run P xs NewPoSEngine) b)"
proof -
  have "pos_good (pos_run P xs NewPoSEngine)" by (intro wf_intro)
  then have "a \<notin> set (activeSet (Slash a (pos_run P xs NewPoSEngine)))" by (simp add: Slash_activeSet)
  from pos_run_inactive [OF this assms(1), of P] have "a \<notin> set (activeSet c)" by (simp add: assms(2))
  then show ?thesis
    by (auto simp: SelectProposer_def PoS_VerifyHeader_Ok Slash_def fun_eq_iff dest: selectProposerLocked_active split: option.splits)
qed

theorem PoS_slashed_never_proposes_witness:
  "SelectProposer (pos_run demo_P ([CallAdd demo_addr 10, CallAdd demo_dest 7] @ CallSlash demo_dest # [CallVerify demo_h1]) NewPoSEngine) 1 \<noteq> Ok demo_dest \<and>
   validators (pos_run demo_P ([CallAdd demo_addr 10, CallAdd demo_dest 7] @ [CallSlash demo_dest]) NewPoSEngine) demo_dest = Some 3"
  using PoS_slashed_never_proposes [of demo_dest "[CallVerify demo_h1]" _ demo_P "[CallAdd demo_addr 10, CallAdd demo_dest 7]" 1]
  by (simp add: AddValidator_def)

text \<open>C40. A chain with the proof-of-stake engine never accepts a block: the weight of a block is taken
  through a type assertion that this engine does not satisfy, so AddBlock returns an error or panics.\<close>

theorem AddBlock_PoS_never_accepts:
  assumes "bc_consensus bc \<noteq> None"
  shows "AddBlock P so (PoS_ConsensusEngine P) b bc \<noteq> Some (bc', Ok ())"
  using AddBlock_PoS [OF assms, of P so b bc' "Ok ()"] by blast

definition demo_pos_bc :: "(MemoryStore, PoSEngine) Blockchain" where
  "demo_pos_bc = \<lparr>bc_store = bc_store demo_bc0, bc_Headers = bc_Headers demo_bc0, bc_consensus = Some demo_pos,
     bc_validator = BlockValidator, bc_WorldState = NewWorldState, bc_totalDifficulty = Some 0\<rparr>"

theorem AddBlock_PoS_never_accepts_witness:
  "AddBlock demo_P (MemoryStore_Storage demo_P) (PoS_ConsensusEngine demo_P) demo_b1 demo_pos_bc \<noteq> Some (demo_pos_bc, Ok ())"
  by (rule AddBlock_PoS_never_accepts) (simp add: demo_pos_bc_def)

text \<open>The proof-of-stake engine records a header before the block's signature is checked. So a block
  that names the proposer but carries no valid signature is rejected, and after it the proposer's
  own block at that height is rejected as a double signing.\<close>

theorem PoS_forged_block_blocks_honest:
  assumes "bc_consensus bc = Some c" and "linked P (bc_Headers bc)"
    and "b_Header f = Some fh" and "unat (hd_Height fh) = length (bc_Headers bc)"
    and "hd_PrevBlockHash fh = BlockHasher_Hash P (last (bc_Headers bc))"
    and "snd (PoS_VerifyHeader P fh c) = Ok ()" and "Block_Verify P f = Err e"
    and "b_Header b = Some h" and "hd_Height h = hd_Height fh" and "hd_PrevBlockHash h = hd_PrevBlockHash fh"
    and "hd_Coinbase h = hd_Coinbase fh" and "BlockHasher_Hash P h \<noteq> BlockHasher_Hash P fh"
  shows "\<exists>bc'. AddBlock P so (PoS_ConsensusEngine P) f bc = Some (bc', Err e) \<and>
    (\<exists>bc''. AddBlock P so (PoS_ConsensusEngine P) b bc' =
       Some (bc'', Err (ErrDoubleSign (hd_Coinbase h) (hd_Height h))))"
  using next_height [OF assms(2,4)] PoS_forged_block_blocks_proposer [of bc c "last (bc_Headers bc)" f fh P e b h so] assms
  by simp

lemma demo_prev_last: "hash_bytes (demo_prev h) ! 31 = ucast (hd_Nonce h)"
  by (simp add: demo_prev_def demo_gob_Header_def demo_sha_def PutUint32_def nth_append)

theorem PoS_forged_block_blocks_honest_witness:
  "\<exists>bc'. AddBlock demo_P (MemoryStore_Storage demo_P) (PoS_ConsensusEngine demo_P) (NewBlock (demo_pos_header 1) []) demo_pos_bc
      = Some (bc', Err ErrBlockNoSignature) \<and>
    (\<exists>bc''. AddBlock demo_P (MemoryStore_Storage demo_P) (PoS_ConsensusEngine demo_P) (demo_block (demo_pos_header 0) []) bc' =
       Some (bc'', Err (ErrDoubleSign demo_dest 1)))"
proof -
  have "demo_prev (demo_pos_header 0) \<noteq> demo_prev (demo_pos_header 1)"
    using demo_prev_last [of "demo_pos_header 0"] demo_prev_last [of "demo_pos_header 1"]
    by (auto simp: demo_pos_header_def)
  then show ?thesis
    using PoS_forged_block_blocks_honest [of demo_pos_bc demo_pos demo_P "NewBlock (demo_pos_header 1) []" "demo_pos_header 1"
        ErrBlockNoSignature "demo_block (demo_pos_header 0) []" "demo_pos_header 0" "MemoryStore_Storage demo_P"]
    by (simp add: demo_pos_bc_def demo_bc0_sel demo_linked demo_pos_verify NewBlock_def Block_Verify_def demo_block_def)
qed

section \<open>Fork choice\<close>

text \<open>C31. The heaviest-chain rule orders the chains whose difficulty is known totally: it compares the
  cumulative difficulty and then the height, its answers in the two directions are opposite, and
  among finitely many such chains there is one that is preferred or equal to all the others.\<close>

theorem HeaviestChain_best:
  assumes "finite S" and "S \<noteq> {}" and "\<forall>a \<in> S. cm_CumulativeDifficulty a \<noteq> None"
  shows "(\<forall>a \<in> S. \<forall>b \<in> S. \<exists>c \<in> {- 1, 0, 1}. HeaviestChain_Compare a b = Ok c \<and> HeaviestChain_Compare b a = Ok (- c) \<and>
      (0 \<le> c \<longleftrightarrow> (the (cm_CumulativeDifficulty b), uint (cm_Height b)) \<le> (the (cm_CumulativeDifficulty a), uint (cm_Height a)))) \<and>
    (\<exists>a \<in> S. \<forall>b \<in> S. \<exists>c \<ge> 0. HeaviestChain_Compare a b = Ok c)"
proof (intro conjI ballI)
  show "\<exists>a \<in> S. \<forall>b \<in> S. \<exists>c \<ge> 0. HeaviestChain_Compare a b = Ok c"
    using assms by (intro heaviest.best_exists) auto
  fix a b assume "a \<in> S" "b \<in> S"
  with assms(3) have ab: "cm_CumulativeDifficulty a \<noteq> None" "cm_CumulativeDifficulty b \<noteq> None" by auto
  from heaviest.compare_total [OF ab] obtain c where c: "c \<in> {- 1, 0, 1}" "HeaviestChain_Compare a b = Ok c" by blast
  from heaviest.compare_antisym [OF ab c(2)] heaviest.compare_ge [OF ab] c
  show "\<exists>c \<in> {- 1, 0, 1}. HeaviestChain_Compare a b = Ok c \<and> HeaviestChain_Compare b a = Ok (- c) \<and>
      (0 \<le> c \<longleftrightarrow> (the (cm_CumulativeDifficulty b), uint (cm_Height b)) \<le> (the (cm_CumulativeDifficulty a), uint (cm_Height a)))"
    by (intro bexI [of _ c]) auto
qed

definition demo_tip :: "int \<Rightarrow> u32 \<Rightarrow> ChainMetadata" where
  "demo_tip d n = \<lparr>cm_Height = n, cm_CumulativeDifficulty = Some d, cm_TotalStake = None\<rparr>"

theorem HeaviestChain_best_witness:
  "\<exists>a \<in> {demo_tip 100 7, demo_tip 200 5}. \<forall>b \<in> {demo_tip 100 7, demo_tip 200 5}. \<exists>c \<ge> 0. HeaviestChain_Compare a b = Ok c"
proof -
  have "\<forall>a \<in> {demo_tip 100 7, demo_tip 200 5}. cm_CumulativeDifficulty a \<noteq> None" by (simp add: demo_tip_def)
  from HeaviestChain_best [OF _ _ this, THEN conjunct2] show ?thesis by simp
qed

section \<open>The transaction pool\<close>

text \<open>C29. The transaction pool is a bounded queue of transaction hashes: adding to a pool returns and keeps
  the pool's invariant; it first drops the oldest entry when the pool is full, then appends the new
  hash unless the remaining entries have it, and the pending queue gets it in the same case.\<close>

theorem TxPool_Add_fifo:
  assumes "pool_ok P p" and "tx_memo_ok P tx"
  shows "\<exists>p'. TxPool_Add P tx p = Ok p' \<and> pool_ok P p' \<and> pool_maxLength p' = pool_maxLength p \<and>
    pool_hashes P p' = fifo_add (TxHasher_Hash P tx) (fifo_prune (pool_maxLength p) (pool_hashes P p)) \<and>
    pending_hashes P p' = (if TxHasher_Hash P tx \<in> set (fifo_prune (pool_maxLength p) (pool_hashes P p))
      then pending_hashes P p else fifo_add (TxHasher_Hash P tx) (pending_hashes P p))"
  using TxPool_Add_refines [OF assms] by metis

theorem TxPool_Add_fifo_witness:
  "\<exists>p'. TxPool_Add demo_P demo_tx (NewTxPool 1) = Ok p' \<and> pool_ok demo_P p' \<and>
     pool_hashes demo_P p' = [zero_hash] \<and> pending_hashes demo_P p' = [zero_hash]"
proof -
  have p: "pool_ok demo_P (NewTxPool 1)" by (intro wf_intro) simp
  have m: "tx_memo_ok demo_P demo_tx" by (simp add: demo_tx_def NewTransaction_def tx_memo_ok_def)
  have "pool_hashes demo_P (NewTxPool 1) = []" "pending_hashes demo_P (NewTxPool 1) = []" "TxHasher_Hash demo_P demo_tx = zero_hash"
    by (simp_all add: pool_hashes_def pending_hashes_def Pending_def NewTxPool_def NewTxSortedMap_def NewList_def
        TxHasher_Hash_def demo_tx_def NewTransaction_def demo_sha_Nil)
  with TxPool_Add_fifo [OF p m] show ?thesis by (auto simp: fifo_add_def fifo_prune_def)
qed

end
