(* ===== verification/Server_Lemmas.thy ===== *)
theory Server_Lemmas
  imports Server Chain_Props "HOL-Library.Sublist"
begin

text \<open>
  What the handlers of the server change and keep: everything that only sends leaves the node but
  for its network, the pool holds verified transactions only, and the chain changes by \<open>AddBlock\<close>
  alone. From this follows, in the locale \<open>chain_invariant\<close>, that every run of a node keeps what
  \<open>AddBlock\<close> keeps; it is used for chains on the in-memory store and on any durable store.
\<close>

section \<open>Sequencing\<close>

lemma node_try_simps [simp]:
  "node_try (Ok x) nd k = k x" "node_try (Err e) nd k = Some (nd, Err e)" "node_try (Panic p) nd k = Some (nd, Panic p)"
  by (simp_all add: node_try_def)

lemma node_tryE:
  assumes "node_try r nd k = Some (nd', q)"
  obtains (fail) "nd' = nd" "q \<noteq> Ok ()" | (go) x where "r = Ok x" "k x = Some (nd', q)"
  using assms by (cases r) auto

lemma drop_err_Some:
  "drop_err m = Some (nd, r) \<longleftrightarrow> (\<exists>q. m = Some (nd, q) \<and> r = (case q of Panic p \<Rightarrow> Panic p | _ \<Rightarrow> Ok ()))"
  by (auto simp: drop_err_def)

lemma drop_errE:
  assumes "drop_err m = Some (nd, r)"
  obtains q where "m = Some (nd, q)" and "is_Panic q \<longleftrightarrow> is_Panic r"
proof -
  from assms obtain q where "m = Some (nd, q)" and "r = (case q of Panic p \<Rightarrow> Panic p | _ \<Rightarrow> Ok ())"
    by (auto simp: drop_err_def)
  then show thesis by (cases q) (simp_all add: that)
qed

section \<open>Handlers that only send\<close>

definition net_only :: "('h, 's, 'c, 'n) Node \<Rightarrow> ('h, 's, 'c, 'n) Node \<Rightarrow> bool" where
  "net_only nd nd' \<longleftrightarrow> (\<exists>n. nd' = nd\<lparr>nd_net := n\<rparr>)"

lemma net_only_refl [simp]: "net_only nd nd"
  unfolding net_only_def by (rule exI [of _ "nd_net nd"]) simp

lemma net_only_trans: "net_only a b \<Longrightarrow> net_only b c \<Longrightarrow> net_only a c"
  by (auto simp: net_only_def)

lemma net_only_sel:
  assumes "net_only nd nd'"
  shows "sv_chain nd' = sv_chain nd" "sv_memPool nd' = sv_memPool nd" "sv_peers nd' = sv_peers nd"
    "nd_mining nd' = nd_mining nd" "sv_Transports nd' = sv_Transports nd" "nd_go nd' = nd_go nd"
    "sv_rpcCh nd' = sv_rpcCh nd"
  using assms by (auto simp: net_only_def)

lemma on_net_only: "on_net f nd = Some (nd', r) \<Longrightarrow> net_only nd nd'"
  by (auto simp: on_net_def net_only_def)

lemma node_try_only: "node_try r nd k = Some (nd', q) \<Longrightarrow> (\<And>x. k x = Some (nd', q) \<Longrightarrow> net_only nd nd') \<Longrightarrow> net_only nd nd'"
  by (elim node_tryE) simp_all

lemma drop_err_only:
  "drop_err m = Some (nd', r) \<Longrightarrow> (\<And>q. m = Some (nd', q) \<Longrightarrow> net_only nd nd') \<Longrightarrow> net_only nd nd'"
  by (auto simp: drop_err_Some)

lemma then_exec_only:
  assumes "then_exec m f = Some (nd', r)" and "\<And>s q. m = Some (s, q) \<Longrightarrow> net_only nd s"
    and "\<And>s. f s = Some (nd', r) \<Longrightarrow> net_only s nd'"
  shows "net_only nd nd'"
  using assms(1) by (cases rule: then_execE) (use assms(2,3) net_only_trans in blast)+

lemma Server_send_only: "Server_send P tr a msg nd = Some (nd', r) \<Longrightarrow> net_only nd nd'"
  by (auto simp: Server_send_def split: option.splits dest: on_net_only)

lemma requestBlocksSync_only: "requestBlocksSync P tr a nd = Some (nd', r) \<Longrightarrow> net_only nd nd'"
  unfolding requestBlocksSync_def by (erule node_try_only) (rule Server_send_only)

lemma processStatusMessage_only: "processStatusMessage P tr a msg nd = Some (nd', r) \<Longrightarrow> net_only nd nd'"
  unfolding processStatusMessage_def by (auto split: if_splits elim!: node_try_only intro: Server_send_only)

lemma processGetStatusMessage_only: "processGetStatusMessage P tr a nd = Some (nd', r) \<Longrightarrow> net_only nd nd'"
  unfolding processGetStatusMessage_def by (erule node_try_only) (rule Server_send_only)

lemma processGetBlocks_only: "processGetBlocks P D a msg nd = Some (nd', r) \<Longrightarrow> net_only nd nd'"
  unfolding processGetBlocks_def Let_def
  by (auto split: option.splits elim!: node_try_only intro: Server_send_only)

lemma sendGetPeers_only: "sendGetPeers P tr a nd = Some (nd', r) \<Longrightarrow> net_only nd nd'"
  unfolding sendGetPeers_def Let_def
  by (auto split: prod.splits elim!: node_try_only intro: on_net_only)

lemma handleGetPeers_only: "handleGetPeers P tr ord a nd = Some (nd', r) \<Longrightarrow> net_only nd nd'"
  unfolding handleGetPeers_def Let_def
  by (auto split: prod.splits elim!: node_try_only intro: on_net_only)

lemma Server_broadcast_loop_only: "Server_broadcast_loop tr p hs nd = Some (nd', r) \<Longrightarrow> net_only nd nd'"
  by (induction hs arbitrary: nd) (auto elim!: then_execE dest: on_net_only intro: net_only_trans)

lemma broadcast_only:
  "broadcastBlock P tr b nd = Some (nd', r) \<Longrightarrow> net_only nd nd'"
  "broadcastTx P tr tx nd = Some (nd', r) \<Longrightarrow> net_only nd nd'"
  by (auto simp: broadcastBlock_def broadcastTx_def Server_broadcast_def
      elim!: node_try_only intro: Server_broadcast_loop_only)

lemma bootstrap_loop_only: "bootstrap_loop P tr as nd = Some (nd', r) \<Longrightarrow> net_only nd nd'"
proof (induction as arbitrary: nd)
  case (Cons a as)
  let ?c = "if isPeerConnected nd a then Some (nd, Ok ())
    else node_try (first_transport nd) nd (\<lambda>h. on_net (tr_Connect tr h (RemoteTCP a)) nd)"
  obtain nd1 q where c: "?c = Some (nd1, q)" using Cons.prems by (auto split: option.splits)
  then have 1: "net_only nd nd1" by (auto split: if_splits elim!: node_try_only intro: on_net_only)
  have "net_only nd1 nd'"
  proof (cases q)
    case (Ok u)
    let ?p = "if strings_Contains a ''localhost'' then localhost_alias a else a"
    have "then_exec (drop_err (sendGetStatus P tr ?p nd1)) (\<lambda>nd.
        then_exec (drop_err (sendGetPeers P tr ?p nd)) (bootstrap_loop P tr as)) = Some (nd', r)"
      using Cons.prems c Ok by (simp add: Let_def)
    then show ?thesis
      by (elim then_exec_only drop_err_only) (auto simp: sendGetStatus_def intro: Server_send_only sendGetPeers_only Cons.IH)
  qed (use Cons.prems c Cons.IH in auto)
  with 1 show ?case by (rule net_only_trans)
qed simp

lemma run_task_only: "run_task P tr t nd = Some (nd', r) \<Longrightarrow> net_only nd nd'"
  by (cases t) (auto simp: drop_err_Some discoveryLoop_turn_def bootstrap_def intro: broadcast_only bootstrap_loop_only on_net_only)

text \<open>Learning of peers starts goroutines and changes nothing else.\<close>

lemma handleSharePeers_frame:
  "handleSharePeers tr as nd = Some (nd', r) \<Longrightarrow> \<exists>ts. nd' = nd\<lparr>nd_go := nd_go nd @ ts\<rparr>"
proof (induction as arbitrary: nd)
  case Nil
  then show ?case by (intro exI [of _ "[]"]) simp
next
  case (Cons a as)
  then consider "handleSharePeers tr as nd = Some (nd', r)" | "nd' = nd"
    | h where "handleSharePeers tr as (spawn (GoConnect h a) nd) = Some (nd', r)"
    by (auto split: if_splits elim!: node_tryE)
  then show ?case
  proof cases
    case 2
    then show ?thesis by (intro exI [of _ "[]"]) simp
  next
    case 3
    then show ?thesis using Cons.IH by (fastforce simp: spawn_def)
  qed (rule Cons.IH)
qed

section \<open>The transaction pool\<close>

definition pool_verified :: "'x prims_scheme \<Rightarrow> TxPool \<Rightarrow> bool" where
  "pool_verified P p \<longleftrightarrow> list_all (\<lambda>tx. Transaction_Verify P tx = Ok ()) (Pending p)"

lemma Transaction_Verify_hashed [simp]: "Transaction_Verify P (snd (Transaction_Hash f tx)) = Transaction_Verify P tx"
  using Transaction_Hash_frame [of f tx] by (auto simp: Transaction_Verify_def split: option.splits)

lemma TxPool_prune_pending: "TxPool_prune P p = Ok q \<Longrightarrow> pool_pending q = pool_pending p"
  by (auto simp: TxPool_prune_def split: if_splits option.splits)

lemma TxPool_Add_verified:
  assumes "TxPool_Add P tx p = Ok p'" and "pool_verified P p" and "Transaction_Verify P tx = Ok ()"
  shows "pool_verified P p'"
proof -
  obtain q where q: "TxPool_prune P p = Ok q" using assms(1) by (auto simp: TxPool_Add_def)
  let ?tx = "snd (Transaction_Hash (TxHasher_Hash P) tx)"
  have "pool_pending p' = pool_pending p \<or> pool_pending p' = TxSortedMap_Add P ?tx (pool_pending p)"
    using assms(1) q TxPool_prune_pending [OF q] by (auto simp: TxPool_Add_def Let_def case_prod_unfold split: if_splits)
  moreover have "Data (sm_txx (TxSortedMap_Add P ?tx m)) = Data (sm_txx m) \<or>
      (\<exists>f. Data (sm_txx (TxSortedMap_Add P ?tx m)) = Data (sm_txx m) @ [snd (Transaction_Hash f ?tx)])" for m
    by (auto simp: TxSortedMap_Add_def Let_def case_prod_unfold List_Insert_def split: option.splits)
  ultimately have "Pending p' = Pending p \<or> (\<exists>f. Pending p' = Pending p @ [snd (Transaction_Hash f ?tx)])"
    unfolding Pending_def by metis
  then show ?thesis using assms(2,3) by (auto simp: pool_verified_def)
qed

lemma ClearPending_verified [wf_intro]: "pool_verified P (ClearPending p)"
  by (simp add: pool_verified_def ClearPending_def Pending_def TxSortedMap_Clear_def List_Clear_def)

lemma NewTxPool_verified [wf_intro]: "pool_verified P (NewTxPool n)"
  by (simp add: pool_verified_def NewTxPool_def Pending_def NewTxSortedMap_def NewList_def)

lemma SetFirstSeen_sel [simp]:
  "Transaction_Verify P (SetFirstSeen t tx) = Transaction_Verify P tx"
  "tx_memo_ok P (SetFirstSeen t tx) = tx_memo_ok P tx" "TxHasher_Hash P (SetFirstSeen t tx) = TxHasher_Hash P tx"
  by (simp_all add: SetFirstSeen_def Transaction_Verify_def tx_memo_ok_def TxHasher_Hash_def split: option.splits)

text \<open>The three ends of \<open>ProcessTransaction\<close>.\<close>

lemma ProcessTransaction_cases:
  assumes "ProcessTransaction P now tx nd = Some (nd', r)" and "tx_memo_ok P tx" and "pool_ok P (sv_memPool nd)"
  obtains (known) "TxPool_Contains (sv_memPool nd) (TxHasher_Hash P tx)" "nd' = nd" "r = Ok ()"
  | (invalid) "\<not> TxPool_Contains (sv_memPool nd) (TxHasher_Hash P tx)" "Transaction_Verify P tx \<noteq> Ok ()"
      "nd' = nd" "r = Transaction_Verify P tx"
  | (new) tx' pool where "\<not> TxPool_Contains (sv_memPool nd) (TxHasher_Hash P tx)" "Transaction_Verify P tx = Ok ()"
      "tx' = SetFirstSeen now (snd (Transaction_Hash (TxHasher_Hash P) tx))" "TxPool_Add P tx' (sv_memPool nd) = Ok pool"
      "nd' = nd\<lparr>nd_go := nd_go nd @ [GoBroadcastTx tx'], sv_memPool := pool\<rparr>" "r = Ok ()"
proof -
  let ?tx = "snd (Transaction_Hash (TxHasher_Hash P) tx)"
  have h: "fst (Transaction_Hash (TxHasher_Hash P) tx) = TxHasher_Hash P tx"
    using assms(2) by (rule Transaction_Hash_value)
  note pt = assms(1) [unfolded ProcessTransaction_def Let_def case_prod_unfold h]
  consider "TxPool_Contains (sv_memPool nd) (TxHasher_Hash P tx)"
    | "\<not> TxPool_Contains (sv_memPool nd) (TxHasher_Hash P tx)" "Transaction_Verify P tx \<noteq> Ok ()"
    | "\<not> TxPool_Contains (sv_memPool nd) (TxHasher_Hash P tx)" "Transaction_Verify P tx = Ok ()" by blast
  then show thesis
  proof cases
    case 1
    with pt have "nd' = nd" "r = Ok ()" by simp_all
    with 1 show ?thesis by (rule known)
  next
    case 2
    with pt have "nd' = nd \<and> r = Transaction_Verify P tx" by (cases "Transaction_Verify P tx") simp_all
    with 2 show ?thesis by (intro invalid) simp_all
  next
    case 3
    have "tx_memo_ok P (SetFirstSeen now ?tx)" using assms(2) by (simp add: Transaction_Hash_memo_ok)
    then obtain pool where add: "TxPool_Add P (SetFirstSeen now ?tx) (sv_memPool nd) = Ok pool"
      using TxPool_Add_refines [OF assms(3)] by metis
    then have "nd' = nd\<lparr>nd_go := nd_go nd @ [GoBroadcastTx (SetFirstSeen now ?tx)], sv_memPool := pool\<rparr>" "r = Ok ()"
      using pt 3 by (simp_all add: spawn_def)
    with 3 add show ?thesis by (intro new) simp_all
  qed
qed

section \<open>The invariant of a node\<close>

text \<open>
  The chain is \<open>good\<close>, the pool is well-formed and all that is pending is validly signed. A node
  keeps this for every predicate on chains that \<open>AddBlock\<close> keeps, whatever its store and engine.
\<close>

definition node_inv :: "'x net_prims_scheme \<Rightarrow> (('s, 'c) Blockchain \<Rightarrow> bool) \<Rightarrow> ('h, 's, 'c, 'n) Node \<Rightarrow> bool" where
  "node_inv P good nd \<longleftrightarrow> good (sv_chain nd) \<and> pool_ok P (sv_memPool nd) \<and> pool_verified P (sv_memPool nd)"

lemma node_inv_cong:
  "sv_chain nd' = sv_chain nd \<Longrightarrow> sv_memPool nd' = sv_memPool nd \<Longrightarrow> node_inv P good nd \<Longrightarrow> node_inv P good nd'"
  by (simp add: node_inv_def)

lemma net_only_inv: "net_only nd nd' \<Longrightarrow> node_inv P good nd \<Longrightarrow> node_inv P good nd'"
  by (rule node_inv_cong [OF net_only_sel(1,2)])

lemma spawn_sel [simp]: "sv_chain (spawn t nd) = sv_chain nd" "sv_memPool (spawn t nd) = sv_memPool nd"
  by (simp_all add: spawn_def)

lemma ProcessTransaction_inv:
  assumes "ProcessTransaction P now tx nd = Some (nd', r)" and "tx_memo_ok P tx" and inv: "node_inv P good nd"
  shows "node_inv P good nd'"
proof -
  have pool: "pool_ok P (sv_memPool nd)" "pool_verified P (sv_memPool nd)" using inv by (simp_all add: node_inv_def)
  from assms(1,2) pool(1) show ?thesis
  proof (cases rule: ProcessTransaction_cases)
    case (new tx' p)
    have "tx_memo_ok P tx'" using assms(2) new(3) by (simp add: Transaction_Hash_memo_ok)
    from TxPool_Add_refines [OF pool(1) this] new(4) have "pool_ok P p" by (metis outcome.inject(1))
    moreover have "pool_verified P p" using new(2,3) by (intro TxPool_Add_verified [OF new(4) pool(2)]) simp
    ultimately show ?thesis using inv new(5) by (simp add: node_inv_def)
  qed (use inv in simp_all)
qed

lemma consume_rpc_inv: "consume_rpc tr h nd = Some nd' \<Longrightarrow> node_inv P good nd \<Longrightarrow> node_inv P good nd'"
  by (auto simp: consume_rpc_def addPeer_def Let_def node_inv_def split: option.splits)

locale chain_invariant =
  fixes P :: "'x net_prims_scheme" and D :: "('h, 'n, 's, 'c) Deps" and good :: "('s, 'c) Blockchain \<Rightarrow> bool"
  assumes add_keeps: "AddBlock P (d_so D) (d_ce D) b bc = Some (bc', r) \<Longrightarrow> \<not> is_Panic r \<Longrightarrow> good bc \<Longrightarrow> good bc'"
begin

lemma node_inv_add:
  assumes "AddBlock P (d_so D) (d_ce D) b (sv_chain nd) = Some (bc', r)" and "\<not> is_Panic r" and "node_inv P good nd"
  shows "node_inv P good (nd\<lparr>sv_chain := bc'\<rparr>)"
  using assms add_keeps [OF assms(1,2)] by (simp add: node_inv_def)

lemma processBlock_inv:
  assumes "processBlock P D a b nd = Some (nd', r)" and "\<not> is_Panic r"
    and inv: "node_inv P good nd"
  shows "node_inv P good nd'"
proof -
  from assms(1) obtain bc q where q: "AddBlock P (d_so D) (d_ce D) b (sv_chain nd) = Some (bc, q)"
    by (auto simp: processBlock_def split: option.splits)
  show ?thesis
  proof (cases "is_Panic q")
    case True
    then show ?thesis using assms(1,2) q by (auto simp: processBlock_def is_Panic_def)
  next
    case False
    note inv1 = node_inv_add [OF q False inv]
    show ?thesis
    proof (cases q)
      case (Ok u)
      then show ?thesis using assms(1) q inv1 by (auto simp: processBlock_def elim: node_inv_cong [rotated 2])
    next
      case (Err e)
      then show ?thesis using assms(1) q inv1
        by (auto simp: processBlock_def Let_def split: if_splits dest: requestBlocksSync_only intro: net_only_inv)
    qed (use False in simp)
  qed
qed

lemma add_then:
  assumes "then_exec (map_option (\<lambda>(bc, r). (nd\<lparr>sv_chain := bc\<rparr>, r)) (AddBlock P (d_so D) (d_ce D) b (sv_chain nd))) f = Some (nd', r)"
    and "\<not> is_Panic r" and "node_inv P good nd"
    and "\<And>bc. node_inv P good (nd\<lparr>sv_chain := bc\<rparr>) \<Longrightarrow> f (nd\<lparr>sv_chain := bc\<rparr>) = Some (nd', r) \<Longrightarrow> node_inv P good nd'"
  shows "node_inv P good nd'"
  using assms(1)
proof (cases rule: then_execE)
  case stop
  then obtain bc where "AddBlock P (d_so D) (d_ce D) b (sv_chain nd) = Some (bc, r)" and nd': "nd' = nd\<lparr>sv_chain := bc\<rparr>" by auto
  with assms(2,3) show ?thesis unfolding nd' by (metis node_inv_add)
next
  case (go nd1)
  then obtain bc where "AddBlock P (d_so D) (d_ce D) b (sv_chain nd) = Some (bc, Ok ())" and nd1: "nd1 = nd\<lparr>sv_chain := bc\<rparr>" by auto
  then have "node_inv P good (nd\<lparr>sv_chain := bc\<rparr>)"
    using assms(3) node_inv_add [of b nd bc "Ok ()"] by simp
  then show ?thesis using go(2) unfolding nd1 by (rule assms(4))
qed

lemma processBlocks_inv:
  assumes "processBlocks P D bs nd = Some (nd', r)" and "\<not> is_Panic r"
    and "node_inv P good nd"
  shows "node_inv P good nd'"
  using assms(1,3)
proof (induction bs arbitrary: nd)
  case (Cons b bs)
  from Cons.prems(1) have "then_exec (map_option (\<lambda>(bc, r). (nd\<lparr>sv_chain := bc\<rparr>, r)) (AddBlock P (d_so D) (d_ce D) b (sv_chain nd)))
      (processBlocks P D bs) = Some (nd', r)" by simp
  then show ?case using assms(2) Cons.prems(2) by (rule add_then) (rule Cons.IH)
qed simp

lemma createNewBlock_commit_inv:
  assumes "createNewBlock_commit P D b nd = Some (nd', r)" and "\<not> is_Panic r"
    and "node_inv P good nd"
  shows "node_inv P good nd'"
  using assms(1) unfolding createNewBlock_commit_def
proof (rule add_then [OF _ assms(2,3)])
  fix bc
  assume "node_inv P good (nd\<lparr>sv_chain := bc\<rparr>)"
    and "Some (spawn (GoBroadcastBlock b) (nd\<lparr>sv_chain := bc\<rparr>\<lparr>sv_memPool := ClearPending (sv_memPool (nd\<lparr>sv_chain := bc\<rparr>))\<rparr>), Ok ()) = Some (nd', r)"
  then show "node_inv P good nd'" by (auto simp: node_inv_def wf_intro)
qed

lemma ProcessMessage_inv:
  assumes "ProcessMessage P D ord now m nd = Some (nd', r)" and "\<not> is_Panic r"
    and "\<And>msg. m = Some msg \<Longrightarrow> data_memo_ok P (dm_Data msg)" and inv: "node_inv P good nd"
  shows "node_inv P good nd'"
proof -
  obtain msg where m: "m = Some msg" using assms(1,2) by (auto simp: ProcessMessage_def split: option.splits)
  note pm = assms(1) [unfolded ProcessMessage_def m option.case]
  show ?thesis
  proof (cases "dm_Data msg")
    case (MsgTx tx)
    then show ?thesis using pm assms(3) [OF m] inv by (auto simp: data_memo_ok_def intro: ProcessTransaction_inv)
  next
    case (MsgBlock b)
    then show ?thesis using pm assms(2) inv by (auto intro: processBlock_inv)
  next
    case (MsgBlocks bs)
    then show ?thesis using pm assms(2) inv by (auto intro: processBlocks_inv)
  next
    case (MsgSharePeers as)
    then show ?thesis using pm inv by (auto simp: node_inv_def dest!: handleSharePeers_frame)
  qed (use pm inv in \<open>auto intro: net_only_inv processGetBlocks_only processStatusMessage_only processGetStatusMessage_only handleGetPeers_only\<close>)
qed

lemma Start_rpc_inv:
  assumes "Start_rpc P D ord now rpc nd = Some (nd', r)" and "\<not> is_Panic r"
    and "node_inv P good nd"
  shows "node_inv P good nd'"
proof (cases "DefaultRPCDecodeFunc P rpc")
  case (Ok msg)
  then have "data_memo_ok P (dm_Data msg)"
    by (auto simp: DefaultRPCDecodeFunc_def split: outcome.splits intro: decode_data_memo_ok)
  moreover from Ok assms(1) obtain q where "ProcessMessage P D ord now (Some msg) nd = Some (nd', q)"
    and "is_Panic q \<longleftrightarrow> is_Panic r" by (auto simp: Start_rpc_def elim: drop_errE)
  ultimately show ?thesis using assms(2,3) by (intro ProcessMessage_inv [of ord now "Some msg" nd nd' q]) simp_all
qed (use assms in \<open>auto simp: Start_rpc_def drop_err_Some ProcessMessage_def\<close>)

lemma node_act_inv:
  assumes "node_act P D nd nd'" and inv: "node_inv P good nd"
  shows "node_inv P good nd'"
  using assms(1)
proof cases
  case (node_consume h)
  show ?thesis by (rule consume_rpc_inv [OF node_consume(2) inv])
next
  case (node_serve xs rpc ys ord now r)
  have "node_inv P good (nd\<lparr>sv_rpcCh := xs @ ys\<rparr>)" using inv by (simp add: node_inv_def)
  with node_serve(2,3) show ?thesis by (rule Start_rpc_inv)
next
  case (node_commit b r)
  have "node_inv P good (nd\<lparr>nd_mining := None\<rparr>)" using inv by (simp add: node_inv_def)
  with node_commit(2,3) show ?thesis by (rule createNewBlock_commit_inv)
next
  case (node_task xs t ys r)
  have "node_inv P good (nd\<lparr>nd_go := xs @ ys\<rparr>)" using inv by (simp add: node_inv_def)
  then show ?thesis by (rule net_only_inv [OF run_task_only [OF node_task(2)]])
next
  case (node_discover r)
  show ?thesis by (rule net_only_inv [OF bootstrap_loop_only [OF node_discover(1) [unfolded discoveryLoop_turn_def bootstrap_def]] inv])
next
  case (node_submit raw tx now r)
  have "tx_memo_ok P tx" using node_submit(1) by (auto simp: Transaction_Decode_def intro: Transaction_unwire_memo_ok)
  with node_submit(2) [unfolded BroadcastTransaction_def] show ?thesis using inv by (rule ProcessTransaction_inv)
qed (use inv in \<open>auto simp: node_inv_def\<close>)

lemma node_step_inv:
  assumes "node_step P D nd nd'" and inv: "node_inv P good nd"
  shows "node_inv P good nd'"
  using assms(1)
proof cases
  case node_own
  then show ?thesis using inv by (rule node_act_inv)
qed (use inv in \<open>simp add: node_inv_def\<close>)

lemma node_steps_inv:
  assumes "(node_step P D)\<^sup>*\<^sup>* nd nd'" and "node_inv P good nd"
  shows "node_inv P good nd'"
  using assms by (induction rule: rtranclp_induct) (auto intro: node_step_inv)

end

interpretation mem_node: chain_invariant P "\<lparr>d_tr = tr, d_so = MemoryStore_Storage P, d_ce = ce\<rparr>" "mem_chain P ce genesisBlock" for P tr ce
  by unfold_locales (simp add: chain_add)

text \<open>A chain on any durable store stays sound, and the headers it had at any time stay.\<close>

lemma durable_node:
  assumes "durable_store P (d_so D)" and "weight_no_err (d_ce D)"
  shows "chain_invariant P D (\<lambda>bc. chain_since P (d_so D) k bc \<and> prefix hs (bc_Headers bc))"
proof
  fix b bc bc' r
  assume "AddBlock P (d_so D) (d_ce D) b bc = Some (bc', r)" and "\<not> is_Panic r" and good: "chain_since P (d_so D) k bc \<and> prefix hs (bc_Headers bc)"
  from durable_store.AddBlock_grows_since [OF assms(1) this(1,2) assms(2), of k] good
  show "chain_since P (d_so D) k bc' \<and> prefix hs (bc_Headers bc')" by (auto intro: prefix_order.order_trans)
qed

text \<open>A new server: its chain, its fields and the goroutines it has started.\<close>

lemma NewServer_OkE:
  assumes "NewServer P D opts net = Some (Ok nd)"
  obtains bc where "NewBlockchain P (d_so D) (d_ce D) genesisBlock (so_Storage opts) = Some (bc, Ok ())"
    "nd = \<lparr>sv_ID = so_ID opts, sv_Transports = so_Transports opts,
       sv_BlockTime = (if so_BlockTime opts = 0 then defaultBlockTime else so_BlockTime opts), sv_PrivateKey = so_PrivateKey opts,
       sv_RPCAddr = so_RPCAddr opts, sv_SeedNodes = so_SeedNodes opts, sv_memPool = NewTxPool defaultTxPoolMaxLength,
       sv_chain = (case so_Consensus opts of None \<Rightarrow> bc | Some c \<Rightarrow> SetConsensus c bc),
       sv_isValidator = (so_PrivateKey opts \<noteq> None), sv_rpcCh = [], sv_peers = Map.empty, nd_net = net,
       nd_go = (if so_PrivateKey opts \<noteq> None then [GoValidatorLoop] else []) @
               (if so_RPCAddr opts \<noteq> [] then [GoRPCServer (so_RPCAddr opts)] else []), nd_mining = None\<rparr>"
proof -
  from assms obtain bc where bc: "NewBlockchain P (d_so D) (d_ce D) genesisBlock (so_Storage opts) = Some (bc, Ok ())"
    by (auto simp: NewServer_def split: option.splits prod.splits outcome.splits)
  show thesis by (rule that [OF bc]) (use assms bc in \<open>auto simp: NewServer_def spawn_def initRPCServer_def Let_def\<close>)
qed

lemma NewServer_inv:
  assumes "NewServer P D opts net = Some (Ok nd)" and "d_so D = MemoryStore_Storage P" and "so_Storage opts = NewMemoryStorage"
  shows "node_inv P (mem_chain P (d_ce D) genesisBlock) nd"
proof -
  from assms(1) obtain bc where "NewBlockchain P (MemoryStore_Storage P) (d_ce D) genesisBlock NewMemoryStorage = Some (bc, Ok ())"
    and nd: "sv_chain nd = (case so_Consensus opts of None \<Rightarrow> bc | Some c \<Rightarrow> SetConsensus c bc)"
      "sv_memPool nd = NewTxPool defaultTxPoolMaxLength"
    by (rule NewServer_OkE) (simp add: assms(2,3))
  then have "mem_chain P (d_ce D) genesisBlock (sv_chain nd)"
    by (auto intro: chain_start chain_engine split: option.splits)
  then show ?thesis using nd(2) by (auto simp: node_inv_def defaultTxPoolMaxLength_def intro: wf_intro)
qed

lemma fold_spawn_sel:
  "sv_chain (fold (\<lambda>h. spawn (g h)) hs nd) = sv_chain nd \<and> sv_memPool (fold (\<lambda>h. spawn (g h)) hs nd) = sv_memPool nd"
  by (induction hs arbitrary: nd) simp_all

lemma Start_init_inv: "node_inv P good nd \<Longrightarrow> node_inv P good (Start_init nd)"
  by (simp add: node_inv_def Start_init_def initTransports_def fold_spawn_sel)

end
