(* ===== verification/API.thy ===== *)
theory API
  imports Server_Lemmas
begin

text \<open>
  The JSON-RPC interface, src/api/rpc.go. \<open>encoding/json\<close> is a parameter: how a request body and a
  raw parameter are read. A response is the structure handed to the JSON encoder. The server of
  \<open>net/http\<close> recovers a panic of a handler, so \<open>Panic\<close> here is a request without an answer.
  Strings are ASCII.
\<close>

section \<open>Definitions\<close>

record 'raw JSONRPCRequest =
  rq_JSONRPC :: string
  rq_Method :: string
  rq_Params :: "'raw list"
  rq_ID :: "'raw option"

datatype rpc_value = RString string | RHeader Header

record 'raw JSONRPCResponse =
  rs_JSONRPC :: string
  rs_Result :: "rpc_value option"
  rs_Error :: "(int \<times> string) option"
  rs_ID :: "'raw option"

record ('body, 'raw) json_prims =
  json_Request :: "'body \<Rightarrow> 'raw JSONRPCRequest res"
  json_String :: "'raw \<Rightarrow> string res"

text \<open>\<open>s[2:]\<close> on a string.\<close>

definition strip2 :: "string \<Rightarrow> string res" where
  "strip2 s = (if length s < 2 then Panic SliceOutOfRange else Ok (drop 2 s))"

definition hex_DecodeString :: "string \<Rightarrow> byte list res" where
  "hex_DecodeString s =
     (case DecodeString s of None \<Rightarrow> Err (ErrExternal ''encoding/hex: invalid input'') | Some bs \<Rightarrow> Ok bs)"

text \<open>
  \<open>fmt.Sscanf(s, "0x%x", &v)\<close> for a \<open>uint64\<close>: \<open>None\<close> is an error, after which \<open>v\<close> is unchanged.
\<close>

definition scan_space :: "char \<Rightarrow> bool" where
  "scan_space c \<longleftrightarrow> (of_char c :: nat) \<in> {9, 11, 12, 13, 32}"

definition hex_value :: "string \<Rightarrow> nat" where
  "hex_value s = fold (\<lambda>c acc. acc * 16 + the (fromHexChar c)) s 0"

definition Sscanf_0x :: "string \<Rightarrow> u64 option" where
  "Sscanf_0x s =
     (if strings_prefix ''0x'' s
      then (let digits = takeWhile (\<lambda>c. fromHexChar c \<noteq> None) (dropWhile scan_space (drop 2 s))
            in if digits = [] \<or> hex_value digits \<ge> 2 ^ 64 then None else Some (of_nat (hex_value digits)))
      else None)"

definition handleBlockNumber :: "('h, 's, 'c, 'n) Node \<Rightarrow> string" where
  "handleBlockNumber nd = ''0x'' @ hex_digits (unat (Height (sv_chain nd)))"

definition handleGetBalance ::
  "('body, 'raw) json_prims \<Rightarrow> 'raw list \<Rightarrow> ('h, 's, 'c, 'n) Node \<Rightarrow> rpc_value res" where
  "handleGetBalance J params nd =
     (case params of
        [] \<Rightarrow> Err (ErrMissingParam ''address'')
      | p # _ \<Rightarrow>
          bind_outcome (json_String J p) (\<lambda>addrStr.
          bind_outcome (strip2 addrStr) (\<lambda>digits.
          bind_outcome (hex_DecodeString digits) (\<lambda>addrBytes.
          bind_outcome (AddressFromBytes addrBytes) (\<lambda>addr.
            Ok (RString (''0x'' @ hex_digits (unat (GetBalance (bc_WorldState (sv_chain nd)) addr)))))))))"

definition handleGetBlockByNumber ::
  "('body, 'raw) json_prims \<Rightarrow> 'raw list \<Rightarrow> ('h, 's, 'c, 'n) Node \<Rightarrow> rpc_value res" where
  "handleGetBlockByNumber J params nd =
     (case params of
        [] \<Rightarrow> Err (ErrMissingParam ''block number'')
      | p # _ \<Rightarrow>
          bind_outcome (json_String J p) (\<lambda>numStr.
            let height = (if numStr = ''latest'' then ucast (Height (sv_chain nd))
                          else case Sscanf_0x numStr of None \<Rightarrow> 0 | Some v \<Rightarrow> v) :: u64
            in bind_outcome (GetHeader (sv_chain nd) (ucast height)) (\<lambda>header. Ok (RHeader header))))"

definition handleSendRawTransaction ::
  "'x net_prims_scheme \<Rightarrow> ('body, 'raw) json_prims \<Rightarrow> i64 \<Rightarrow> 'raw list \<Rightarrow> ('h, 's, 'c, 'n) Node
   \<Rightarrow> (('h, 's, 'c, 'n) Node \<times> rpc_value res) option" where
  "handleSendRawTransaction P J now params nd =
     (case params of
        [] \<Rightarrow> Some (nd, Err (ErrMissingParam ''transaction data''))
      | p # _ \<Rightarrow>
          (case bind_outcome (json_String J p) (\<lambda>rawTx.
                bind_outcome (strip2 rawTx) (\<lambda>digits.
                bind_outcome (hex_DecodeString digits) (\<lambda>rawTxBytes.
                bind_outcome (Transaction_Decode P rawTxBytes) (\<lambda>tx. Ok (rawTxBytes, tx))))) of
             Err e \<Rightarrow> Some (nd, Err e)
           | Panic q \<Rightarrow> Some (nd, Panic q)
           | Ok (rawTxBytes, tx) \<Rightarrow>
               map_option (\<lambda>(nd, r). (nd, bind_outcome r (\<lambda>_.
                   Ok (RString (''0x'' @ EncodeToString (hash_bytes (sha256 P rawTxBytes)))))))
                 (BroadcastTransaction P now tx nd)))"

definition writeResult :: "'raw option \<Rightarrow> rpc_value \<Rightarrow> 'raw JSONRPCResponse" where
  "writeResult i result = \<lparr>rs_JSONRPC = ''2.0'', rs_Result = Some result, rs_Error = None, rs_ID = i\<rparr>"

definition writeError :: "'raw option \<Rightarrow> int \<Rightarrow> string \<Rightarrow> 'raw JSONRPCResponse" where
  "writeError i code message = \<lparr>rs_JSONRPC = ''2.0'', rs_Result = None, rs_Error = Some (code, message), rs_ID = i\<rparr>"

definition respond :: "'raw option \<Rightarrow> rpc_value res \<Rightarrow> 'raw JSONRPCResponse res" where
  "respond i r =
     (case r of
        Ok result \<Rightarrow> Ok (writeResult i result)
      | Err e \<Rightarrow> Ok (writeError i (- 32000) (Error_text e))
      | Panic p \<Rightarrow> Panic p)"

definition handleRequest ::
  "'x net_prims_scheme \<Rightarrow> ('body, 'raw) json_prims \<Rightarrow> i64 \<Rightarrow> 'body \<Rightarrow> ('h, 's, 'c, 'n) Node
   \<Rightarrow> (('h, 's, 'c, 'n) Node \<times> 'raw JSONRPCResponse res) option" where
  "handleRequest P J now body nd =
     (case json_Request J body of
        Panic p \<Rightarrow> Some (nd, Panic p)
      | Err _ \<Rightarrow> Some (nd, Ok (writeError None (- 32700) ''Parse error''))
      | Ok req \<Rightarrow>
          if rq_Method req = ''eth_blockNumber'' then Some (nd, respond (rq_ID req) (Ok (RString (handleBlockNumber nd))))
          else if rq_Method req = ''eth_getBalance'' then Some (nd, respond (rq_ID req) (handleGetBalance J (rq_Params req) nd))
          else if rq_Method req = ''eth_getBlockByNumber''
          then Some (nd, respond (rq_ID req) (handleGetBlockByNumber J (rq_Params req) nd))
          else if rq_Method req = ''eth_sendRawTransaction''
          then map_option (\<lambda>(nd, r). (nd, respond (rq_ID req) r)) (handleSendRawTransaction P J now (rq_Params req) nd)
          else if rq_Method req = ''net_version'' then Some (nd, respond (rq_ID req) (Ok (RString ''100'')))
          else if rq_Method req = ''eth_chainId'' then Some (nd, respond (rq_ID req) (Ok (RString ''0x64'')))
          else Some (nd, Ok (writeError (rq_ID req) (- 32601) ''Method not found'')))"

text \<open>
  \<open>Start\<close> hands every request to \<open>handleRequest\<close>. The chain and the broadcaster of the RPC server are
  those of the node. The answer to a request whose handler panics is empty.
\<close>

definition Start_serve ::
  "'x net_prims_scheme \<Rightarrow> ('body, 'raw) json_prims \<Rightarrow> i64 \<Rightarrow> 'body \<Rightarrow> ('h, 's, 'c, 'n) Node
   \<Rightarrow> (('h, 's, 'c, 'n) Node \<times> 'raw JSONRPCResponse option) option" where
  "Start_serve P J now body nd =
     map_option (\<lambda>(nd, r). (nd, case r of Ok response \<Rightarrow> Some response | _ \<Rightarrow> None)) (handleRequest P J now body nd)"

text \<open>A node in a world of peers and clients: its steps, and requests with any body at any time.\<close>

inductive rpc_step ::
  "'x net_prims_scheme \<Rightarrow> ('body, 'raw) json_prims \<Rightarrow> ('h, 'n, 's, 'c) Deps \<Rightarrow> ('h, 's, 'c, 'n) Node \<Rightarrow> ('h, 's, 'c, 'n) Node \<Rightarrow> bool"
  for P :: "'x net_prims_scheme" and J :: "('body, 'raw) json_prims" and D :: "('h, 'n, 's, 'c) Deps" where
  rpc_node: "node_step P D nd nd' \<Longrightarrow> rpc_step P J D nd nd'"
| rpc_request: "Start_serve P J now body nd = Some (nd', answer) \<Longrightarrow> rpc_step P J D nd nd'"

section \<open>Numbers in requests\<close>

lemma hex_value_snoc: "hex_value (s @ [c]) = hex_value s * 16 + the (fromHexChar c)"
  by (simp add: hex_value_def)

lemma hex_value_digits: "hex_value (hex_digits n) = n"
proof (induction n rule: hex_digits.induct)
  case (1 n)
  show ?case
  proof (cases "n < 16")
    case True
    then show ?thesis by (subst hex_digits.simps) (simp add: hex_value_def fromHexChar_hex_digit)
  next
    case False
    then show ?thesis using 1 by (subst hex_digits.simps) (simp add: hex_value_snoc fromHexChar_hex_digit)
  qed
qed

lemma hex_digits_hex: "c \<in> set (hex_digits n) \<Longrightarrow> fromHexChar c \<noteq> None"
proof (induction n rule: hex_digits.induct)
  case (1 n)
  then show ?case
    by (subst (asm) hex_digits.simps) (auto simp: fromHexChar_hex_digit split: if_splits)
qed

lemma hex_digits_Nil [simp]: "hex_digits n \<noteq> []"
  by (subst hex_digits.simps) simp

lemma hex_not_space: "fromHexChar c \<noteq> None \<Longrightarrow> \<not> scan_space c"
  by (auto simp: fromHexChar_def scan_space_def Let_def split: if_splits)

lemma Sscanf_0x_digits:
  assumes "n < 2 ^ 64"
  shows "Sscanf_0x (''0x'' @ hex_digits n) = Some (of_nat n)"
proof -
  have "dropWhile scan_space (hex_digits n) = hex_digits n"
    using hex_digits_hex [of "hd (hex_digits n)" n] hex_not_space by (simp add: dropWhile_eq_self_iff)
  moreover have "takeWhile (\<lambda>c. fromHexChar c \<noteq> None) (hex_digits n) = hex_digits n"
    using hex_digits_hex by (simp add: takeWhile_eq_all_conv)
  ultimately show ?thesis using assms by (simp add: Sscanf_0x_def hex_value_digits Let_def del: not_None_eq takeWhile_eq_all_conv)
qed

section \<open>Requests do not disturb the node\<close>

text \<open>A request changes nothing or is the submission of a transaction.\<close>

lemma handleSendRawTransaction_act:
  assumes "handleSendRawTransaction P J now params nd = Some (nd', r)" and "pool_ok P (sv_memPool nd)"
  shows "nd' = nd \<or> node_act P D nd nd'"
proof -
  consider "nd' = nd" | raw tx q where "Transaction_Decode P raw = Ok tx" "BroadcastTransaction P now tx nd = Some (nd', q)"
    using assms(1) by (auto simp: handleSendRawTransaction_def split: list.splits outcome.splits)
  then show ?thesis
  proof cases
    case (2 raw tx q)
    then have memo: "tx_memo_ok P tx" by (auto simp: Transaction_Decode_def intro: Transaction_unwire_memo_ok)
    from 2(2) [unfolded BroadcastTransaction_def] memo assms(2) have "nd' = nd \<or> q = Ok ()"
      by (cases rule: ProcessTransaction_cases) simp_all
    then show ?thesis using node_submit [OF 2] by auto
  qed simp
qed

lemma handleRequest_act:
  assumes "handleRequest P J now body nd = Some (nd', r)" and "pool_ok P (sv_memPool nd)"
  shows "nd' = nd \<or> node_act P D nd nd'"
  using assms handleSendRawTransaction_act [of P J now _ nd nd' _ D]
  by (auto simp: handleRequest_def split: outcome.splits if_splits)

text \<open>So whatever the runs of a node keep is kept with clients, too.\<close>

context chain_invariant
begin

lemma rpc_step_inv:
  assumes "rpc_step P J D nd nd'" and inv: "node_inv P good nd"
  shows "node_inv P good nd'"
  using assms(1)
proof cases
  case rpc_node
  then show ?thesis using inv by (rule node_step_inv)
next
  case (rpc_request now body answer)
  then obtain r where "handleRequest P J now body nd = Some (nd', r)" by (auto simp: Start_serve_def)
  then have "nd' = nd \<or> node_act P D nd nd'" using inv by (intro handleRequest_act) (simp_all add: node_inv_def)
  then show ?thesis using inv node_act_inv by blast
qed

lemma rpc_steps_inv:
  assumes "(rpc_step P J D)\<^sup>*\<^sup>* nd nd'" and "node_inv P good nd"
  shows "node_inv P good nd'"
  using assms by (induction rule: rtranclp_induct) (auto intro: rpc_step_inv)

end

end
