(* ===== verification/Engines.thy ===== *)
theory Engines
  imports Chain_Props
begin

text \<open>
  The consensus engine behind the interface: src/main.go chooses one of the two engines when the
  program runs and hands it on as a value of the interface type \<open>core.ConsensusEngine\<close>. Such a
  value is \<open>consensus_choice\<close>, the engine with its dynamic type, and \<open>any_ConsensusEngine\<close> is the
  dynamic dispatch of its methods. The locale \<open>engine_embedding\<close> says when one engine behaves under
  the interface as it does alone; both engines are interpreted in it.
\<close>

section \<open>Definitions\<close>

datatype consensus_choice = UsePoS PoSEngine | UsePoW PoWEngine

primrec any_Type :: "consensus_choice \<Rightarrow> ConsensusType" where
  "any_Type (UsePoS e) = PoS"
| "any_Type (UsePoW e) = PoW"

primrec any_VerifyHeader ::
  "'x block_prims_scheme \<Rightarrow> Header \<Rightarrow> consensus_choice \<Rightarrow> consensus_choice \<times> unit res" where
  "any_VerifyHeader P h (UsePoS e) = apfst UsePoS (PoS_VerifyHeader P h e)"
| "any_VerifyHeader P h (UsePoW e) = apfst UsePoW (PoW_VerifyHeader P h e)"

primrec any_Author :: "consensus_choice \<Rightarrow> Header \<Rightarrow> address res" where
  "any_Author (UsePoS e) h = PoS_Author e h"
| "any_Author (UsePoW e) h = PoW_Author e h"

primrec any_Prepare :: "Header \<Rightarrow> consensus_choice \<Rightarrow> Header res" where
  "any_Prepare h (UsePoS e) = PoS_Prepare h e"
| "any_Prepare h (UsePoW e) = PoW_Prepare h e"

primrec any_Seal :: "'x block_prims_scheme \<Rightarrow> (u64 \<Rightarrow> bool) \<Rightarrow> Block \<Rightarrow> consensus_choice \<Rightarrow> Block res" where
  "any_Seal P clk b (UsePoS e) = PoS_Seal clk b e"
| "any_Seal P clk b (UsePoW e) = PoW_Seal P clk b e"

text \<open>The type assertions of the chain: only proof of stake slashes, only proof of work has weights.\<close>

primrec any_Slash :: "address \<Rightarrow> consensus_choice \<Rightarrow> consensus_choice" where
  "any_Slash a (UsePoS e) = UsePoS (Slash a e)"
| "any_Slash a (UsePoW e) = UsePoW e"

primrec any_CalculateBlockWeight :: "'x block_prims_scheme \<Rightarrow> consensus_choice \<Rightarrow> Header \<Rightarrow> int res" where
  "any_CalculateBlockWeight P (UsePoS e) h = Panic TypeAssertion"
| "any_CalculateBlockWeight P (UsePoW e) h = PoW_CalculateBlockWeight P e h"

definition any_ConsensusEngine :: "'x block_prims_scheme \<Rightarrow> consensus_choice ConsensusEngine" where
  "any_ConsensusEngine P =
     \<lparr>ce_Type = any_Type, ce_VerifyHeader = any_VerifyHeader P, ce_Author = any_Author, ce_Prepare = any_Prepare,
      ce_Seal = any_Seal P, ce_Slash = Some any_Slash, ce_CalculateBlockWeight = Some (any_CalculateBlockWeight P)\<rparr>"

section \<open>The contract\<close>

primrec choice_good :: "consensus_choice \<Rightarrow> bool" where
  "choice_good (UsePoS e) = pos_good e"
| "choice_good (UsePoW e) = True"

interpretation any: consensus_engine "any_ConsensusEngine P" choice_good for P
proof
  fix h h' :: Header and c :: consensus_choice and clk b b' sl a
  show "ce_Prepare (any_ConsensusEngine P) h c = Ok h' \<Longrightarrow> consensus_frame h h'"
    using pos.prepare_frame [of P h] pow.prepare_frame [of P h]
    by (cases c) (auto simp: any_ConsensusEngine_def PoS_ConsensusEngine_def PoW_ConsensusEngine_def)
  show "ce_Seal (any_ConsensusEngine P) clk b c = Ok b' \<Longrightarrow> b_Header b = Some h \<Longrightarrow>
      \<exists>h'. b' = b\<lparr>b_Header := Some h'\<rparr> \<and> consensus_frame h h'"
    using pos.seal_frame [of P clk b _ b' h] pow.seal_frame [of P clk b _ b' h]
    by (cases c) (auto simp: any_ConsensusEngine_def PoS_ConsensusEngine_def PoW_ConsensusEngine_def)
  show "choice_good c \<Longrightarrow> choice_good (fst (ce_VerifyHeader (any_ConsensusEngine P) h c))"
    using pos.good_verify [of _ P h]
    by (cases c) (auto simp: any_ConsensusEngine_def PoS_ConsensusEngine_def)
  show "choice_good c \<Longrightarrow> ce_Slash (any_ConsensusEngine P) = Some sl \<Longrightarrow> choice_good (sl a c)"
    using pos.good_slash [of _ P Slash a]
    by (cases c) (auto simp: any_ConsensusEngine_def PoS_ConsensusEngine_def)
  show "ce_Author (any_ConsensusEngine P) c h = Ok (hd_Coinbase h)"
    by (cases c) (simp_all add: any_ConsensusEngine_def PoS_Author_def PoW_Author_def)
qed

lemma any_weight_no_err: "weight_no_err (any_ConsensusEngine P)"
proof -
  have "any_CalculateBlockWeight P c h \<noteq> Err e" for c h e
    by (cases c) (simp_all add: PoW_CalculateBlockWeight_def Lsh_one_def)
  then show ?thesis by (simp add: weight_no_err_def any_ConsensusEngine_def)
qed

section \<open>One engine under the interface\<close>

text \<open>What the chain gets from the two optional methods.\<close>

definition engine_weight :: "'c ConsensusEngine \<Rightarrow> 'c \<Rightarrow> Header \<Rightarrow> int res" where
  "engine_weight ce c h = (case ce_CalculateBlockWeight ce of None \<Rightarrow> Panic TypeAssertion | Some w \<Rightarrow> w c h)"

definition engine_slash :: "'c ConsensusEngine \<Rightarrow> address \<Rightarrow> 'c \<Rightarrow> 'c" where
  "engine_slash ce a c = (case ce_Slash ce of None \<Rightarrow> c | Some sl \<Rightarrow> sl a c)"

text \<open>A chain whose engine is wrapped.\<close>

definition map_engine :: "('c \<Rightarrow> 'e) \<Rightarrow> ('s, 'c) Blockchain \<Rightarrow> ('s, 'e) Blockchain" where
  "map_engine f bc =
     \<lparr>bc_store = bc_store bc, bc_Headers = bc_Headers bc, bc_consensus = map_option f (bc_consensus bc),
      bc_validator = bc_validator bc, bc_WorldState = bc_WorldState bc, bc_totalDifficulty = bc_totalDifficulty bc\<rparr>"

lemma map_engine_sel [simp]:
  "bc_store (map_engine f bc) = bc_store bc" "bc_Headers (map_engine f bc) = bc_Headers bc"
  "bc_consensus (map_engine f bc) = map_option f (bc_consensus bc)" "bc_WorldState (map_engine f bc) = bc_WorldState bc"
  "bc_totalDifficulty (map_engine f bc) = bc_totalDifficulty bc"
  by (simp_all add: map_engine_def)

lemma map_engine_update [simp]:
  "(map_engine f bc)\<lparr>bc_store := s\<rparr> = map_engine f (bc\<lparr>bc_store := s\<rparr>)"
  "(map_engine f bc)\<lparr>bc_Headers := hs\<rparr> = map_engine f (bc\<lparr>bc_Headers := hs\<rparr>)"
  "(map_engine f bc)\<lparr>bc_WorldState := ws\<rparr> = map_engine f (bc\<lparr>bc_WorldState := ws\<rparr>)"
  "(map_engine f bc)\<lparr>bc_totalDifficulty := td\<rparr> = map_engine f (bc\<lparr>bc_totalDifficulty := td\<rparr>)"
  "(map_engine f bc)\<lparr>bc_consensus := map_option f c\<rparr> = map_engine f (bc\<lparr>bc_consensus := c\<rparr>)"
  by (simp_all add: map_engine_def)

lemma map_engine_set [simp]: "(map_engine f bc)\<lparr>bc_consensus := Some (f c)\<rparr> = map_engine f (bc\<lparr>bc_consensus := Some c\<rparr>)"
  using map_engine_update(5) [where c = "Some c"] by simp

lemma SetConsensus_map_engine: "SetConsensus (f c) (map_engine f bc) = map_engine f (SetConsensus c bc)"
  by (simp add: SetConsensus_def)

lemma map_engine_locked [simp]:
  "heightLocked (map_engine f bc) = heightLocked bc" "hasBlockLocked (map_engine f bc) n = hasBlockLocked bc n"
  "getHeaderLocked (map_engine f bc) n = getHeaderLocked bc n"
  by (simp_all add: heightLocked_def hasBlockLocked_def getHeaderLocked_def)

lemma apfst_bind_state: "bind_state (apfst g sr) k = apfst g (bind_state sr k')"
  if "\<And>x s. k x (g s) = apfst g (k' x s)" for sr k k' g
  using that by (cases sr) (auto simp: bind_state_def split: outcome.splits)

lemma then_exec_apfst: "then_exec (map_option (apfst g) m) k = map_option (apfst g) (then_exec m k')"
  if "\<And>s. k (g s) = map_option (apfst g) (k' s)" for m k k' g
  using that by (cases m) (auto simp: then_exec_def split: outcome.splits)

lemma process_evidence_slash:
  "process_evidence ce e bc =
     bc\<lparr>bc_consensus := map_option (engine_slash ce (hd_Coinbase e)) (bc_consensus bc)\<rparr>"
  by (cases bc) (simp add: process_evidence_def engine_slash_def split: option.splits)

lemma add_weight_engine:
  "bc_consensus bc = Some c \<Longrightarrow> add_weight ce h bc =
     (case engine_weight ce c h of
        Ok weight \<Rightarrow> (case bc_totalDifficulty bc of
          None \<Rightarrow> (bc, Panic NilDereference) | Some td \<Rightarrow> (bc\<lparr>bc_totalDifficulty := Some (td + weight)\<rparr>, Ok ()))
      | Err e \<Rightarrow> (bc, Err e)
      | Panic p \<Rightarrow> (bc, Panic p))"
  by (simp add: add_weight_def engine_weight_def bind_state_def split: option.splits outcome.splits)

locale engine_embedding =
  fixes f :: "'c \<Rightarrow> 'e" and ce :: "'c ConsensusEngine" and ce' :: "'e ConsensusEngine"
  assumes verify: "ce_VerifyHeader ce' h (f c) = apfst f (ce_VerifyHeader ce h c)"
    and weight: "engine_weight ce' (f c) h = engine_weight ce c h"
    and slash: "engine_slash ce' a (f c) = f (engine_slash ce a c)"
    and prepare: "ce_Prepare ce' h (f c) = ce_Prepare ce h c"
    and seal: "ce_Seal ce' clk b (f c) = ce_Seal ce clk b c"
begin

lemma verify_consensus_embeds: "verify_consensus ce' h (map_engine f bc) = apfst (map_engine f) (verify_consensus ce h bc)"
  by (auto simp: verify_consensus_def verify apfst_def map_prod_def split: option.splits prod.splits)

lemma verify_block_embeds:
  "bind_state (verify_consensus ce' h (map_engine f bc)) (\<lambda>_ bc. (bc, r)) =
     apfst (map_engine f) (bind_state (verify_consensus ce h bc) (\<lambda>_ bc. (bc, r)))"
  unfolding verify_consensus_embeds by (rule apfst_bind_state) simp

lemma ValidateBlockLocked_embeds:
  "ValidateBlockLocked P ce' b (map_engine f bc) = apfst (map_engine f) (ValidateBlockLocked P ce b bc)"
  by (cases "getHeaderLocked bc (heightLocked bc)")
    (simp_all add: ValidateBlockLocked_def verify_block_embeds split: option.splits)

lemma process_evidence_embeds: "process_evidence ce' e (map_engine f bc) = map_engine f (process_evidence ce e bc)"
  by (cases "bc_consensus bc") (simp_all add: process_evidence_slash map_engine_def slash)

lemma fold_evidence_embeds:
  "fold (process_evidence ce') es (map_engine f bc) = map_engine f (fold (process_evidence ce) es bc)"
  by (induction es arbitrary: bc) (simp_all add: process_evidence_embeds)

lemma add_weight_embeds: "add_weight ce' h (map_engine f bc) = apfst (map_engine f) (add_weight ce h bc)"
proof (cases "bc_consensus bc")
  case (Some c)
  then show ?thesis
    by (simp add: add_weight_engine [of _ c] add_weight_engine [of _ "f c"] weight split: outcome.splits option.splits)
qed (simp add: add_weight_def)

lemma addBlock_embeds:
  "addBlockWithoutValidationLocked P so ce' b (map_engine f bc) =
     apfst (map_engine f) (addBlockWithoutValidationLocked P so ce b bc)"
proof (cases "b_Header b")
  case (Some h)
  have put: "bind_state (add_weight ce' h (map_engine f bc)) (\<lambda>_ bc. let (s, r) = st_Put so b (bc_store bc) in (bc\<lparr>bc_store := s\<rparr>, r)) =
      apfst (map_engine f) (bind_state (add_weight ce h bc) (\<lambda>_ bc. let (s, r) = st_Put so b (bc_store bc) in (bc\<lparr>bc_store := s\<rparr>, r)))"
    for b :: Block and bc
    unfolding add_weight_embeds by (rule apfst_bind_state) (simp split: prod.splits)
  then show ?thesis using Some
    by (cases "Block_Hash P b") (auto simp: addBlockWithoutValidationLocked_def split: prod.splits)
qed (simp add: addBlockWithoutValidationLocked_def)

text \<open>A chain does with the wrapped engine what it does with the engine itself.\<close>

lemma AddBlock_embeds:
  "AddBlock P so ce' b (map_engine f bc) = map_option (apfst (map_engine f)) (AddBlock P so ce b bc)"
proof -
  have exec: "map_option (\<lambda>(ws, r). ((map_engine f bc)\<lparr>bc_WorldState := ws\<rparr>, r)) m =
      map_option (apfst (map_engine f)) (map_option (\<lambda>(ws, r). (bc\<lparr>bc_WorldState := ws\<rparr>, r)) m)"
    for m :: "(WorldState \<times> unit res) option" and bc
    by (cases m) auto
  have v: "Some (ValidateBlockLocked P ce' b (map_engine f bc)) =
      map_option (apfst (map_engine f)) (Some (ValidateBlockLocked P ce b bc))"
    by (simp add: ValidateBlockLocked_embeds)
  show ?thesis
    unfolding AddBlock_def v
    by (rule then_exec_apfst, simp only: map_engine_sel exec, rule then_exec_apfst)
      (simp add: fold_evidence_embeds addBlock_embeds Let_def split: option.splits)
qed

lemma NewBlockchain_embeds:
  "NewBlockchain P so ce' g st = map_option (apfst (map_engine f)) (NewBlockchain P so ce g st)"
proof -
  let ?bc = "\<lparr>bc_store = st, bc_Headers = [], bc_consensus = None, bc_validator = BlockValidator,
    bc_WorldState = NewWorldState, bc_totalDifficulty = Some 0\<rparr>"
  have "?bc = map_engine f ?bc" by (simp add: map_engine_def)
  moreover have "loadHeaders so (map_engine f bc) = map_option (apfst (map_engine f)) (loadHeaders so bc)" for bc
    by (cases "loadHeaders_loop so (bc_store bc) 0 (bc_Headers bc)") (auto simp: loadHeaders_def split: outcome.splits)
  ultimately show ?thesis
    using addBlock_embeds [of P so g ?bc] by (simp add: NewBlockchain_def Let_def split: outcome.splits)
qed

end

interpretation use_pow: engine_embedding UsePoW "PoW_ConsensusEngine P" "any_ConsensusEngine P" for P
  by unfold_locales
    (simp_all add: any_ConsensusEngine_def PoW_ConsensusEngine_def engine_weight_def engine_slash_def)

interpretation use_pos: engine_embedding UsePoS "PoS_ConsensusEngine P" "any_ConsensusEngine P" for P
  by unfold_locales
    (simp_all add: any_ConsensusEngine_def PoS_ConsensusEngine_def engine_weight_def engine_slash_def)

end
