(* ===== verification/TcpTransport.thy ===== *)
theory TcpTransport
  imports Transport
begin

text \<open>
  The TCP transport, src/network/tcp_transport.go. The package \<open>net\<close> and the stream decoder of \<open>gob\<close>
  are parameters: connections \<open>'c\<close>, listeners \<open>'l\<close> and decoders \<open>'d\<close> with the operations the code
  uses, on a state \<open>'w\<close> of the outside world. \<open>Accept\<close> and \<open>Decode\<close> wait (the outer \<open>None\<close>) or
  fail (the inner \<open>None\<close>); what the error is does not matter to the code. The read loops and the
  accept loop are goroutines: the state holds the loops that run, with their decoders, and
  one turn of a loop is one step.
\<close>

section \<open>Definitions\<close>

record ('c, 'l, 'd, 'w) tcp_prims =
  net_Dial :: "NetAddr \<Rightarrow> 'w \<Rightarrow> 'w \<times> 'c res"
  net_Listen :: "NetAddr \<Rightarrow> 'w \<Rightarrow> 'w \<times> 'l res"
  ln_Accept :: "'l \<Rightarrow> 'w \<Rightarrow> ('w \<times> 'c option) option"
  conn_RemoteAddr :: "'c \<Rightarrow> NetAddr"
  conn_Write :: "'c \<Rightarrow> byte list \<Rightarrow> 'w \<Rightarrow> 'w \<times> unit res"
  conn_Close :: "'c \<Rightarrow> 'w \<Rightarrow> 'w"
  NewDecoder :: "'c \<Rightarrow> 'd"
  Decoder_Decode :: "'d \<Rightarrow> 'w \<Rightarrow> ('w \<times> 'd \<times> Message option) option"

record 'c TCPPeer =
  tp_Conn :: 'c
  tp_Outbound :: bool

record ('c, 'l, 'd, 'w) TCPTransport =
  tt_addr :: NetAddr
  tt_listener :: "'l option"
  tt_consumeCh :: "RPC list"
  tt_peers :: "NetAddr \<rightharpoonup> 'c TCPPeer"
  tt_world :: 'w
  tt_readLoops :: "('c TCPPeer \<times> 'd) list"

definition NewTCPTransport :: "NetAddr \<Rightarrow> 'w \<Rightarrow> ('c, 'l, 'd, 'w) TCPTransport" where
  "NewTCPTransport addr w =
     \<lparr>tt_addr = addr, tt_listener = None, tt_consumeCh = [], tt_peers = Map.empty, tt_world = w, tt_readLoops = []\<rparr>"

definition TCPTransport_Addr :: "('c, 'l, 'd, 'w) TCPTransport \<Rightarrow> NetAddr" where
  "TCPTransport_Addr t = tt_addr t"

definition TCPTransport_Consume :: "('c, 'l, 'd, 'w) TCPTransport \<Rightarrow> (RPC \<times> ('c, 'l, 'd, 'w) TCPTransport) option" where
  "TCPTransport_Consume t =
     (case tt_consumeCh t of [] \<Rightarrow> None | rpc # rpcs \<Rightarrow> Some (rpc, t\<lparr>tt_consumeCh := rpcs\<rparr>))"

text \<open>The common end of \<open>Connect\<close> and of a turn of \<open>acceptLoop\<close>: register the peer, start its read loop.\<close>

definition add_tcp_peer ::
  "('c, 'l, 'd, 'w) tcp_prims \<Rightarrow> 'c \<Rightarrow> bool \<Rightarrow> ('c, 'l, 'd, 'w) TCPTransport \<Rightarrow> ('c, 'l, 'd, 'w) TCPTransport" where
  "add_tcp_peer N conn outbound t =
     (let peer = \<lparr>tp_Conn = conn, tp_Outbound = outbound\<rparr> in
      t\<lparr>tt_peers := (tt_peers t)(conn_RemoteAddr N conn \<mapsto> peer),
        tt_readLoops := tt_readLoops t @ [(peer, NewDecoder N conn)]\<rparr>)"

definition TCPTransport_Connect ::
  "('c, 'l, 'd, 'w) tcp_prims \<Rightarrow> NetAddr \<Rightarrow> ('c, 'l, 'd, 'w) TCPTransport \<Rightarrow> ('c, 'l, 'd, 'w) TCPTransport \<times> unit res" where
  "TCPTransport_Connect N addr t =
     (let (w, r) = net_Dial N addr (tt_world t); t = t\<lparr>tt_world := w\<rparr> in
      case r of Ok conn \<Rightarrow> (add_tcp_peer N conn True t, Ok ()) | Err e \<Rightarrow> (t, Err e) | Panic p \<Rightarrow> (t, Panic p))"

definition TCPTransport_SendMessage ::
  "('c, 'l, 'd, 'w) tcp_prims \<Rightarrow> NetAddr \<Rightarrow> byte list \<Rightarrow> ('c, 'l, 'd, 'w) TCPTransport
   \<Rightarrow> ('c, 'l, 'd, 'w) TCPTransport \<times> unit res" where
  "TCPTransport_SendMessage N to payload t =
     (case tt_peers t to of
        None \<Rightarrow> (t, Err (ErrPeerNotFound to))
      | Some peer \<Rightarrow> (let (w, r) = conn_Write N (tp_Conn peer) payload (tt_world t) in (t\<lparr>tt_world := w\<rparr>, r)))"

text \<open>Errors of a write are printed only; \<open>ord\<close> is the order in which the map of peers is ranged over.\<close>

definition TCPTransport_Broadcast ::
  "('c, 'l, 'd, 'w) tcp_prims \<Rightarrow> ((NetAddr \<rightharpoonup> 'c TCPPeer) \<Rightarrow> NetAddr list) \<Rightarrow> byte list \<Rightarrow> ('c, 'l, 'd, 'w) TCPTransport
   \<Rightarrow> ('c, 'l, 'd, 'w) TCPTransport \<times> unit res" where
  "TCPTransport_Broadcast N ord payload t =
     (t\<lparr>tt_world := fold (\<lambda>a w. fst (conn_Write N (tp_Conn (the (tt_peers t a))) payload w)) (ord (tt_peers t)) (tt_world t)\<rparr>, Ok ())"

definition TCPTransport_Listen ::
  "('c, 'l, 'd, 'w) tcp_prims \<Rightarrow> ('c, 'l, 'd, 'w) TCPTransport \<Rightarrow> ('c, 'l, 'd, 'w) TCPTransport \<times> unit res" where
  "TCPTransport_Listen N t =
     (let (w, r) = net_Listen N (tt_addr t) (tt_world t); t = t\<lparr>tt_world := w\<rparr> in
      case r of Ok ln \<Rightarrow> (t\<lparr>tt_listener := Some ln\<rparr>, Ok ()) | Err e \<Rightarrow> (t, Err e) | Panic p \<Rightarrow> (t, Panic p))"

text \<open>One turn of \<open>acceptLoop\<close>, which \<open>Listen\<close> starts.\<close>

definition acceptLoop_turn ::
  "('c, 'l, 'd, 'w) tcp_prims \<Rightarrow> ('c, 'l, 'd, 'w) TCPTransport \<Rightarrow> ('c, 'l, 'd, 'w) TCPTransport option" where
  "acceptLoop_turn N t =
     (case tt_listener t of
        None \<Rightarrow> None
      | Some ln \<Rightarrow>
          map_option (\<lambda>(w, r). let t = t\<lparr>tt_world := w\<rparr> in case r of Some conn \<Rightarrow> add_tcp_peer N conn False t | None \<Rightarrow> t)
            (ln_Accept N ln (tt_world t)))"

text \<open>
  One turn of the \<open>i\<close>-th read loop: a decoding error ends the loop, which closes the connection and
  unregisters the peer; a message is encoded again and queued, waiting while the channel is full.
\<close>

definition readLoop_end ::
  "('c, 'l, 'd, 'w) tcp_prims \<Rightarrow> nat \<Rightarrow> 'c TCPPeer \<Rightarrow> ('c, 'l, 'd, 'w) TCPTransport \<Rightarrow> ('c, 'l, 'd, 'w) TCPTransport" where
  "readLoop_end N i peer t =
     t\<lparr>tt_world := conn_Close N (tp_Conn peer) (tt_world t),
       tt_peers := (tt_peers t)(conn_RemoteAddr N (tp_Conn peer) := None),
       tt_readLoops := take i (tt_readLoops t) @ drop (Suc i) (tt_readLoops t)\<rparr>"

definition readLoop_turn ::
  "'x net_prims_scheme \<Rightarrow> ('c, 'l, 'd, 'w) tcp_prims \<Rightarrow> nat \<Rightarrow> ('c, 'l, 'd, 'w) TCPTransport
   \<Rightarrow> ('c, 'l, 'd, 'w) TCPTransport option" where
  "readLoop_turn P N i t =
     (if i < length (tt_readLoops t)
      then (let (peer, dec) = tt_readLoops t ! i in
            case Decoder_Decode N dec (tt_world t) of
              None \<Rightarrow> None
            | Some (w, dec, r) \<Rightarrow>
                (let t = t\<lparr>tt_world := w, tt_readLoops := (tt_readLoops t)[i := (peer, dec)]\<rparr> in
                 case r of
                   Some msg \<Rightarrow>
                     (case gob_Message P msg of
                        (buf, Ok _) \<Rightarrow>
                          if length (tt_consumeCh t) < 1024
                          then Some (t\<lparr>tt_consumeCh := tt_consumeCh t @
                                  [\<lparr>rpc_From = conn_RemoteAddr N (tp_Conn peer), rpc_Payload = buf\<rparr>]\<rparr>)
                          else None
                      | (buf, Err _) \<Rightarrow> Some t
                      | (buf, Panic _) \<Rightarrow> None)
                 | None \<Rightarrow> Some (readLoop_end N i peer t)))
      else None)"

text \<open>The method table, for a process with a single TCP transport.\<close>

definition TCPTransport_Transport ::
  "('c, 'l, 'd, 'w) tcp_prims \<Rightarrow> ((NetAddr \<rightharpoonup> 'c TCPPeer) \<Rightarrow> NetAddr list) \<Rightarrow> (unit, ('c, 'l, 'd, 'w) TCPTransport) Transport" where
  "TCPTransport_Transport N ord =
     \<lparr>tr_Consume = (\<lambda>_. TCPTransport_Consume),
      tr_Connect = (\<lambda>_ tr t. Some (TCPTransport_Connect N (case tr of Remote _ \<Rightarrow> TCPTransport_Addr t | RemoteTCP a \<Rightarrow> a) t)),
      tr_SendMessage = (\<lambda>_ a p t. Some (TCPTransport_SendMessage N a p t)),
      tr_Broadcast = (\<lambda>_ p t. Some (TCPTransport_Broadcast N ord p t)),
      tr_Addr = (\<lambda>t _. TCPTransport_Addr t)\<rparr>"

section \<open>Runs of a transport\<close>

text \<open>What the goroutines of the process and the rest of the world do to a transport.\<close>

inductive tcp_step ::
  "'x net_prims_scheme \<Rightarrow> ('c, 'l, 'd, 'w) tcp_prims \<Rightarrow> ('c, 'l, 'd, 'w) TCPTransport \<Rightarrow> ('c, 'l, 'd, 'w) TCPTransport \<Rightarrow> bool"
  for P :: "'x net_prims_scheme" and N :: "('c, 'l, 'd, 'w) tcp_prims" where
  tcp_connect: "TCPTransport_Connect N a t = (t', r) \<Longrightarrow> tcp_step P N t t'"
| tcp_send: "TCPTransport_SendMessage N a p t = (t', r) \<Longrightarrow> tcp_step P N t t'"
| tcp_broadcast: "TCPTransport_Broadcast N ord p t = (t', r) \<Longrightarrow> tcp_step P N t t'"
| tcp_listen: "TCPTransport_Listen N t = (t', r) \<Longrightarrow> tcp_step P N t t'"
| tcp_accept: "acceptLoop_turn N t = Some t' \<Longrightarrow> tcp_step P N t t'"
| tcp_read: "readLoop_turn P N i t = Some t' \<Longrightarrow> tcp_step P N t t'"
| tcp_consume: "TCPTransport_Consume t = Some (rpc, t') \<Longrightarrow> tcp_step P N t t'"
| tcp_world: "tcp_step P N t (t\<lparr>tt_world := w\<rparr>)"

text \<open>
  Every registered peer is registered under its own remote address, the channel stays within its
  capacity, and every queued message decodes.
\<close>

definition tcp_ok :: "'x net_prims_scheme \<Rightarrow> ('c, 'l, 'd, 'w) tcp_prims \<Rightarrow> ('c, 'l, 'd, 'w) TCPTransport \<Rightarrow> bool" where
  "tcp_ok P N t \<longleftrightarrow> (\<forall>a peer. tt_peers t a = Some peer \<longrightarrow> conn_RemoteAddr N (tp_Conn peer) = a) \<and>
     length (tt_consumeCh t) \<le> 1024 \<and> (\<forall>rpc \<in> set (tt_consumeCh t). \<exists>msg. ungob_Message P (rpc_Payload rpc) = Ok msg)"

lemma tcp_ok_frame: "tcp_ok P N t \<Longrightarrow> tt_peers t' = tt_peers t \<Longrightarrow> tt_consumeCh t' = tt_consumeCh t \<Longrightarrow> tcp_ok P N t'"
  by (simp add: tcp_ok_def)

lemma add_tcp_peer_ok: "tcp_ok P N t \<Longrightarrow> tcp_ok P N (add_tcp_peer N conn b t)"
  by (auto simp: tcp_ok_def add_tcp_peer_def Let_def)

lemma world_ok [simp]: "tcp_ok P N (t\<lparr>tt_world := w\<rparr>) = tcp_ok P N t"
  by (simp add: tcp_ok_def)

lemma readLoop_turn_ok:
  assumes "readLoop_turn P N i t = Some t'" and "gob_messages_roundtrip P" and "tcp_ok P N t"
  shows "tcp_ok P N t'"
proof -
  obtain peer dec where l: "tt_readLoops t ! i = (peer, dec)" by fastforce
  from assms(1) l obtain w dec' r where d: "Decoder_Decode N dec (tt_world t) = Some (w, dec', r)"
    by (auto simp: readLoop_turn_def split: if_splits option.splits)
  let ?t = "t\<lparr>tt_world := w, tt_readLoops := (tt_readLoops t)[i := (peer, dec')]\<rparr>"
  have ok: "tcp_ok P N ?t" using assms(3) by (rule tcp_ok_frame) simp_all
  consider "t' = readLoop_end N i peer ?t" | "t' = ?t"
    | msg buf where "gob_Message P msg = (buf, Ok ())" "length (tt_consumeCh t) < 1024"
        "t' = ?t\<lparr>tt_consumeCh := tt_consumeCh t @ [\<lparr>rpc_From = conn_RemoteAddr N (tp_Conn peer), rpc_Payload = buf\<rparr>]\<rparr>"
    using assms(1) l d by (auto simp: readLoop_turn_def Let_def split: if_splits outcome.splits option.splits prod.splits)
  then show ?thesis
  proof cases
    case 1
    then show ?thesis using ok by (auto simp: tcp_ok_def readLoop_end_def)
  next
    case 3
    then have "ungob_Message P buf = Ok msg" using assms(2) unfolding gob_messages_roundtrip_def by (metis fst_conv snd_conv)
    with 3 ok show ?thesis by (auto simp: tcp_ok_def)
  qed (simp add: ok)
qed

lemma tcp_step_ok:
  assumes "tcp_step P N t t'" and "gob_messages_roundtrip P" and "tcp_ok P N t"
  shows "tcp_ok P N t'"
  using assms(1)
proof cases
  case (tcp_read i)
  then show ?thesis using assms(2,3) by (rule readLoop_turn_ok)
next
  case (tcp_consume rpc)
  then show ?thesis using assms(3) by (auto simp: TCPTransport_Consume_def tcp_ok_def split: list.splits)
next
  case (tcp_listen r)
  then have "tt_peers t' = tt_peers t" "tt_consumeCh t' = tt_consumeCh t"
    by (auto simp: TCPTransport_Listen_def Let_def split: prod.splits outcome.splits)
  then show ?thesis by (rule tcp_ok_frame [OF assms(3)])
qed (use assms(3) in \<open>auto simp: TCPTransport_Connect_def TCPTransport_SendMessage_def TCPTransport_Broadcast_def
    acceptLoop_turn_def Let_def intro!: add_tcp_peer_ok split: prod.splits outcome.splits option.splits\<close>)

lemma tcp_steps_ok:
  assumes "(tcp_step P N)\<^sup>*\<^sup>* (NewTCPTransport addr w) t" and "gob_messages_roundtrip P"
  shows "tcp_ok P N t"
  using assms(1)
proof (induction rule: rtranclp_induct)
  case base
  show ?case by (simp add: tcp_ok_def NewTCPTransport_def)
next
  case (step t t')
  from tcp_step_ok [OF step(2) assms(2) step.IH] show ?case .
qed

section \<open>Delivery\<close>

text \<open>What a read loop queues carries the message it read.\<close>

lemma readLoop_turn_delivers:
  assumes "i < length (tt_readLoops t)" and "tt_readLoops t ! i = (peer, dec)"
    and "Decoder_Decode N dec (tt_world t) = Some (w, dec', Some msg)" and "gob_messages_roundtrip P"
    and "snd (gob_Message P msg) = Ok ()" and "length (tt_consumeCh t) < 1024"
  shows "\<exists>t' rpc. readLoop_turn P N i t = Some t' \<and> tt_consumeCh t' = tt_consumeCh t @ [rpc] \<and>
    rpc_From rpc = conn_RemoteAddr N (tp_Conn peer) \<and> ungob_Message P (rpc_Payload rpc) = Ok msg \<and> tt_peers t' = tt_peers t"
proof -
  have "ungob_Message P (fst (gob_Message P msg)) = Ok msg"
    using assms(4,5) unfolding gob_messages_roundtrip_def by blast
  moreover have "gob_Message P msg = (fst (gob_Message P msg), Ok ())" using assms(5) by (simp add: prod_eq_iff)
  ultimately show ?thesis
    using assms(1-3,6) by (auto simp: readLoop_turn_def Let_def split: prod.splits)
qed

end
