(* ===== verification/MainProg.thy ===== *)
theory MainProg
  imports API Engines LevelDB TcpTransport
begin

text \<open>
  The main program, src/main.go: the genesis allocations, the choice of the consensus engine, the
  mesh of local transports and the four servers of developer mode, the test transactions it
  sends, and the start of a node in production mode. The values of the flags are a record. What
  \<open>leveldb.OpenFile\<close> finds under the data directory and what \<open>ecdsa.GenerateKey\<close> returns are arguments.
  \<open>logrus.Fatalf\<close>, which ends the process, is an error of the result. Parsing flags, logging and
  signal handling are left out.
\<close>

section \<open>Definitions\<close>

definition genesisAllocTotal :: nat where
  "genesisAllocTotal = 1000000000"

definition devAddresses :: "string list" where
  "devAddresses =
     [''f39Fd6e51aad88F6F4ce6aB8827279cffFb92266'',
      ''70997970C51812dc3A010C7d01b50e0d17dc79C8'',
      ''3C44CdDdB6a900fa2b585dd299e03d12FA4293BC'',
      ''90F79bf6EB2c4f870365E785982E1f101E93b906'',
      ''15d34AAf54267DB7D7c367839AAf71A00a2C6A65'']"

definition perDevAccount :: u64 where
  "perDevAccount = of_nat (genesisAllocTotal div 2) div of_nat (length devAddresses)"

definition add_dev_alloc :: "string \<Rightarrow> (address \<rightharpoonup> u64) \<Rightarrow> (address \<rightharpoonup> u64)" where
  "add_dev_alloc addrHex allocs =
     (case DecodeString addrHex of
        None \<Rightarrow> allocs
      | Some decoded \<Rightarrow>
          if length decoded = 20
          then (case AddressFromBytes decoded :: address res of Ok addr \<Rightarrow> allocs(addr \<mapsto> perDevAccount) | _ \<Rightarrow> allocs)
          else allocs)"

definition createGenesisAllocs :: "address \<Rightarrow> (address \<rightharpoonup> u64)" where
  "createGenesisAllocs validatorAddr =
     fold add_dev_alloc devAddresses [validatorAddr \<mapsto> of_nat (genesisAllocTotal div 2)]"

text \<open>\<open>strings.ToLower\<close> on ASCII.\<close>

definition lower_char :: "char \<Rightarrow> char" where
  "lower_char c = (let n = of_char c :: nat in if 65 \<le> n \<and> n \<le> 90 then char_of (n + 32) else c)"

definition createConsensusEngine :: "string \<Rightarrow> u64 \<Rightarrow> address \<Rightarrow> consensus_choice" where
  "createConsensusEngine mode difficulty validatorAddr =
     (if map lower_char mode = ''pos''
      then UsePoS (AddValidator validatorAddr 1000000 NewPoSEngine)
      else UsePoW (NewPoWEngine difficulty))"

definition connectSym :: "lt_ref \<Rightarrow> lt_ref \<Rightarrow> local_net \<Rightarrow> local_net" where
  "connectSym t1 t2 n =
     (let n = (case LocalTransport_Connect t1 (Remote t2) n of Some (n', _) \<Rightarrow> n' | None \<Rightarrow> n)
      in case LocalTransport_Connect t2 (Remote t1) n of Some (n', _) \<Rightarrow> n' | None \<Rightarrow> n)"

text \<open>Developer mode: the transports 0 to 3 are LOCAL, REMOTE_A, REMOTE_B and REMOTE_C.\<close>

definition dev_transports :: local_net where
  "dev_transports =
     (\<lambda>t. NewLocalTransport (if t = 0 then ''LOCAL'' else if t = 1 then ''REMOTE_A''
        else if t = 2 then ''REMOTE_B'' else ''REMOTE_C''))"

definition dev_network :: local_net where
  "dev_network =
     connectSym 2 3 (connectSym 1 3 (connectSym 1 2 (connectSym 0 3 (connectSym 0 2 (connectSym 0 1 dev_transports)))))"

definition mustCreateServer ::
  "'x net_prims_scheme \<Rightarrow> ('h, 'n, 's, 'c) Deps \<Rightarrow> i64 \<Rightarrow> string \<Rightarrow> 'h \<Rightarrow> PrivateKey option \<Rightarrow> string \<Rightarrow> 'c \<Rightarrow> 's \<Rightarrow> 'n
   \<Rightarrow> ('h, 's, 'c, 'n) Node res option" where
  "mustCreateServer P D blockTime i tr pk rpcAddr engine storage net =
     NewServer P D
       \<lparr>so_ID = i, so_Transports = [tr], so_BlockTime = blockTime, so_PrivateKey = pk, so_Consensus = Some engine, so_RPCAddr = rpcAddr,
        so_Storage = storage, so_SeedNodes = []\<rparr> net"

record Flags =
  flagNodeID :: string
  flagListenAddr :: string
  flagRPCAddr :: string
  flagMine :: bool
  flagConsensus :: string
  flagDifficulty :: u64
  flagBlockTime :: i64
  flagDataDir :: string
  flagSeedNodes :: string
  flagDevMode :: bool

definition mustCreateStorage :: "(string \<Rightarrow> 'd res) \<Rightarrow> string \<Rightarrow> 'd res" where
  "mustCreateStorage OpenFile dataDir = NewLevelDBStore OpenFile dataDir"

text \<open>Sequencing of calls that may not return, fail or panic.\<close>

definition bind_run :: "'a res option \<Rightarrow> ('a \<Rightarrow> 'b res option) \<Rightarrow> 'b res option" where
  "bind_run m k =
     (case m of
        None \<Rightarrow> None
      | Some r \<Rightarrow> (case r of Ok x \<Rightarrow> k x | Err e \<Rightarrow> Some (Err e) | Panic p \<Rightarrow> Some (Panic p)))"

text \<open>
  Developer mode. All servers share the local transports and the consensus engine. The peers do
  not mine and have no RPC interface; \<open>start_peers\<close> creates and starts them one after the other.
\<close>

definition dev_peer ::
  "'x net_prims_scheme \<Rightarrow> (lt_ref, local_net, MemoryStore, 'c) Deps \<Rightarrow> i64 \<Rightarrow> 'c \<Rightarrow> local_net \<Rightarrow> nat
   \<Rightarrow> (lt_ref, MemoryStore, 'c, local_net) Node res option" where
  "dev_peer P D blockTime engine net i =
     mustCreateServer P D blockTime (''peer-'' @ dec_digits (i + 1)) (i + 1) None [] engine NewMemoryStorage net"

primrec start_peers ::
  "'x net_prims_scheme \<Rightarrow> (lt_ref, local_net, MemoryStore, 'c) Deps \<Rightarrow> i64 \<Rightarrow> 'c \<Rightarrow> local_net \<Rightarrow> nat list
   \<Rightarrow> (lt_ref, MemoryStore, 'c, local_net) Node list res option" where
  "start_peers P D blockTime engine net [] = Some (Ok [])"
| "start_peers P D blockTime engine net (i # is) =
     bind_run (dev_peer P D blockTime engine net i) (\<lambda>s.
     bind_run (start_peers P D blockTime engine net is) (\<lambda>ss. Some (Ok (Start_init s # ss))))"

text \<open>
  What developer mode has running when \<open>localServer.Start\<close> enters its main loop. The allocations are
  computed, logged and then not used. \<open>ds_sends\<close> are the broadcasts under way, each with its payload
  and the sends still to make. A fatal log entry ends the program and is the error it logs.
  Until then the peers receive nothing: the generator sends to the local transport only, where its
  messages wait.
\<close>

record 'd dev_system =
  ds_peers :: "(lt_ref, MemoryStore, consensus_choice, local_net) Node list"
  ds_local :: "(lt_ref, 'd, consensus_choice, local_net) Node"
  ds_net :: local_net
  ds_engine :: consensus_choice
  ds_sends :: "(byte list \<times> (lt_ref \<times> NetAddr) list) list"

definition dev_deps ::
  "'x net_prims_scheme \<Rightarrow> ((NetAddr \<rightharpoonup> lt_ref) \<Rightarrow> NetAddr list) \<Rightarrow> 's Storage
   \<Rightarrow> (lt_ref, local_net, 's, consensus_choice) Deps" where
  "dev_deps P ord so = \<lparr>d_tr = LocalTransport_Transport ord, d_so = so, d_ce = any_ConsensusEngine P\<rparr>"

definition runDevMode ::
  "'x net_prims_scheme \<Rightarrow> ((NetAddr \<rightharpoonup> lt_ref) \<Rightarrow> NetAddr list) \<Rightarrow> 'd leveldb \<Rightarrow> (string \<Rightarrow> 'd res) \<Rightarrow> Flags
   \<Rightarrow> PrivateKey res \<Rightarrow> 'd dev_system res option" where
  "runDevMode P ord L OpenFile flags generated =
     bind_run (Some (GeneratePrivateKey generated)) (\<lambda>validatorKey.
     bind_run (Some (PublicKey_Address P (PrivateKey_PublicKey validatorKey))) (\<lambda>validatorAddr.
       let genesisAllocs = createGenesisAllocs validatorAddr;
           engine = createConsensusEngine (flagConsensus flags) (flagDifficulty flags) validatorAddr;
           net = dev_network
       in bind_run (start_peers P (dev_deps P ord (MemoryStore_Storage P)) (flagBlockTime flags) engine net [0, 1, 2]) (\<lambda>peers.
          bind_run (Some (mustCreateStorage OpenFile (flagDataDir flags))) (\<lambda>storage.
          bind_run (mustCreateServer P (dev_deps P ord (LevelDBStore_Storage P L)) (flagBlockTime flags) (flagNodeID flags) 0 (Some validatorKey)
                      (flagRPCAddr flags) engine storage net) (\<lambda>localServer.
            Some (Ok \<lparr>ds_peers = peers, ds_local = Start_init localServer, ds_net = net, ds_engine = engine, ds_sends = []\<rparr>))))))"

text \<open>\<open>strings.Split\<close> with a separator of one character.\<close>

primrec strings_Split :: "string \<Rightarrow> char \<Rightarrow> string list" where
  "strings_Split [] c = [[]]"
| "strings_Split (x # xs) c =
     (if x = c then [] # strings_Split xs c
      else (case strings_Split xs c of [] \<Rightarrow> [[x]] | w # ws \<Rightarrow> (x # w) # ws))"

definition production_deps ::
  "'x net_prims_scheme \<Rightarrow> ('k, 'l, 'r, 'w) tcp_prims \<Rightarrow> ((NetAddr \<rightharpoonup> 'k TCPPeer) \<Rightarrow> NetAddr list) \<Rightarrow> 'd leveldb
   \<Rightarrow> (unit, ('k, 'l, 'r, 'w) TCPTransport, 'd, consensus_choice) Deps" where
  "production_deps P N ord L =
     \<lparr>d_tr = TCPTransport_Transport N ord, d_so = LevelDBStore_Storage P L, d_ce = any_ConsensusEngine P\<rparr>"

definition runProductionMode ::
  "'x net_prims_scheme \<Rightarrow> ('k, 'l, 'r, 'w) tcp_prims \<Rightarrow> ((NetAddr \<rightharpoonup> 'k TCPPeer) \<Rightarrow> NetAddr list) \<Rightarrow> 'd leveldb
   \<Rightarrow> (string \<Rightarrow> 'd res) \<Rightarrow> Flags \<Rightarrow> PrivateKey res \<Rightarrow> 'w
   \<Rightarrow> (unit, 'd, consensus_choice, ('k, 'l, 'r, 'w) TCPTransport) Node res option" where
  "runProductionMode P N ord L OpenFile flags generated w =
     bind_run (Some (GeneratePrivateKey generated)) (\<lambda>validatorKey.
     bind_run (Some (PublicKey_Address P (PrivateKey_PublicKey validatorKey))) (\<lambda>validatorAddr.
       let engine = createConsensusEngine (flagConsensus flags) (flagDifficulty flags) validatorAddr
       in bind_run (Some (mustCreateStorage OpenFile (flagDataDir flags))) (\<lambda>storage.
            let (tcpTransport, r) = TCPTransport_Listen N (NewTCPTransport (flagListenAddr flags) w)
            in bind_run (Some r) (\<lambda>_.
                 let pk = (if flagMine flags then Some validatorKey else None);
                     seeds = (if flagSeedNodes flags \<noteq> [] then strings_Split (flagSeedNodes flags) CHR '','' else [])
                 in bind_run
                      (NewServer P (production_deps P N ord L)
                        \<lparr>so_ID = flagNodeID flags, so_Transports = [()], so_BlockTime = flagBlockTime flags,
                         so_PrivateKey = pk, so_Consensus = Some engine,
                         so_RPCAddr = flagRPCAddr flags, so_Storage = storage, so_SeedNodes = seeds\<rparr> tcpTransport)
                      (\<lambda>s. Some (Ok (Start_init s)))))))"

definition main_entry ::
  "'x net_prims_scheme \<Rightarrow> ((NetAddr \<rightharpoonup> lt_ref) \<Rightarrow> NetAddr list) \<Rightarrow> ('k, 'l, 'r, 'w) tcp_prims
   \<Rightarrow> ((NetAddr \<rightharpoonup> 'k TCPPeer) \<Rightarrow> NetAddr list) \<Rightarrow> 'd leveldb \<Rightarrow> (string \<Rightarrow> 'd res) \<Rightarrow> Flags \<Rightarrow> PrivateKey res \<Rightarrow> 'w
   \<Rightarrow> ('d dev_system + (unit, 'd, consensus_choice, ('k, 'l, 'r, 'w) TCPTransport) Node) res option" where
  "main_entry P ord N tcp_ord L OpenFile flags generated w =
     (if flagDevMode flags
      then bind_run (runDevMode P ord L OpenFile flags generated) (\<lambda>s. Some (Ok (Inl s)))
      else bind_run (runProductionMode P N tcp_ord L OpenFile flags generated w) (\<lambda>s. Some (Ok (Inr s))))"

definition sampleContract :: "byte list" where
  "sampleContract =
     [0x60, 0x05, 0x60, 0x00, 0x55, 0x60, 0x00, 0x54, 0x60, 0x00, 0x52, 0x60, 0x20, 0x60, 0x00, 0xf3]"

definition test_transaction :: "'x prims_scheme \<Rightarrow> nat \<Rightarrow> PrivateKey \<Rightarrow> Transaction res" where
  "test_transaction P rnd privKey =
     Transaction_Sign P rnd privKey ((NewTransaction sampleContract)\<lparr>tx_GasLimit := 10000, tx_GasPrice := 1\<rparr>)"

definition sendTestTransaction ::
  "'x net_prims_scheme \<Rightarrow> ('h, 'n) Transport \<Rightarrow> nat \<Rightarrow> PrivateKey res \<Rightarrow> 'h \<Rightarrow> NetAddr \<Rightarrow> 'n \<Rightarrow> ('n \<times> unit res) option" where
  "sendTestTransaction P T rnd generated tr to net =
     node_try (GeneratePrivateKey generated) net (\<lambda>privKey.
     node_try (test_transaction P rnd privKey) net (\<lambda>tx.
     node_try (Transaction_Encode P tx) net (\<lambda>buf.
       tr_SendMessage T tr to (Message_Bytes P (NewMessage MessageTypeTx buf)) net)))"

text \<open>One tick of \<open>txGeneratorLoop\<close>, which logs the error and goes on.\<close>

definition txGeneratorLoop_turn ::
  "'x net_prims_scheme \<Rightarrow> ('h, 'n) Transport \<Rightarrow> nat \<Rightarrow> PrivateKey res \<Rightarrow> 'h \<Rightarrow> NetAddr \<Rightarrow> 'n \<Rightarrow> ('n \<times> unit res) option" where
  "txGeneratorLoop_turn P T rnd generated tr to net = drop_err (sendTestTransaction P T rnd generated tr to net)"

section \<open>Genesis allocations\<close>

definition dev_bytes :: "byte list list" where
  "dev_bytes =
     [[0xf3, 0x9f, 0xd6, 0xe5, 0x1a, 0xad, 0x88, 0xf6, 0xf4, 0xce, 0x6a, 0xb8, 0x82, 0x72, 0x79, 0xcf, 0xff, 0xb9, 0x22, 0x66],
      [0x70, 0x99, 0x79, 0x70, 0xc5, 0x18, 0x12, 0xdc, 0x3a, 0x01, 0x0c, 0x7d, 0x01, 0xb5, 0x0e, 0x0d, 0x17, 0xdc, 0x79, 0xc8],
      [0x3c, 0x44, 0xcd, 0xdd, 0xb6, 0xa9, 0x00, 0xfa, 0x2b, 0x58, 0x5d, 0xd2, 0x99, 0xe0, 0x3d, 0x12, 0xfa, 0x42, 0x93, 0xbc],
      [0x90, 0xf7, 0x9b, 0xf6, 0xeb, 0x2c, 0x4f, 0x87, 0x03, 0x65, 0xe7, 0x85, 0x98, 0x2e, 0x1f, 0x10, 0x1e, 0x93, 0xb9, 0x06],
      [0x15, 0xd3, 0x4a, 0xaf, 0x54, 0x26, 0x7d, 0xb7, 0xd7, 0xc3, 0x67, 0x83, 0x9a, 0xaf, 0x71, 0xa0, 0x0a, 0x2c, 0x6a, 0x65]]"

lemma dev_bytes: "map DecodeString devAddresses = map Some dev_bytes"
  by (simp add: devAddresses_def dev_bytes_def fromHexChar_def)

lemma dev_bytes_length: "list_all (\<lambda>bs. length bs = 20) dev_bytes" and dev_bytes_distinct: "distinct dev_bytes"
  by (simp_all add: dev_bytes_def)

section \<open>The mesh of developer mode\<close>

lemma connectSym_value:
  "connectSym t1 t2 n =
     (let n1 = n(t1 := (n t1)\<lparr>lt_peers := (lt_peers (n t1))(lt_addr (n t2) \<mapsto> t2)\<rparr>)
      in n1(t2 := (n1 t2)\<lparr>lt_peers := (lt_peers (n1 t2))(lt_addr (n1 t1) \<mapsto> t1)\<rparr>))"
  by (simp add: connectSym_def LocalTransport_Connect_def LocalTransport_Addr_def Let_def)

lemma connectSym_peers_ok: "peers_ok n \<Longrightarrow> peers_ok (connectSym t1 t2 n)"
  by (auto simp: connectSym_def LocalTransport_Connect_def LocalTransport_Addr_def peers_ok_def Let_def split: if_splits)

lemma dev_network_ok: "peers_ok dev_network"
  unfolding dev_network_def
  by (intro connectSym_peers_ok) (simp add: dev_transports_def NewLocalTransport_def peers_ok_def)

lemma dev_network_peers:
  "lt_peers (dev_network 0) = [''REMOTE_A'' \<mapsto> 1, ''REMOTE_B'' \<mapsto> 2, ''REMOTE_C'' \<mapsto> 3]"
  "lt_peers (dev_network 1) = [''LOCAL'' \<mapsto> 0, ''REMOTE_B'' \<mapsto> 2, ''REMOTE_C'' \<mapsto> 3]"
  "lt_peers (dev_network 2) = [''LOCAL'' \<mapsto> 0, ''REMOTE_A'' \<mapsto> 1, ''REMOTE_C'' \<mapsto> 3]"
  "lt_peers (dev_network 3) = [''LOCAL'' \<mapsto> 0, ''REMOTE_A'' \<mapsto> 1, ''REMOTE_B'' \<mapsto> 2]"
  by (simp_all add: dev_network_def connectSym_value dev_transports_def NewLocalTransport_def Let_def fun_upd_twist)

lemma dev_network_ran: "t < 4 \<Longrightarrow> ran (lt_peers (dev_network t)) = {0..<4} - {t}"
proof -
  have four: "{0..<4} = {0, 1, 2, 3 :: nat}" by auto
  assume "t < 4"
  then consider "t = 0" | "t = 1" | "t = 2" | "t = 3" by linarith
  then show ?thesis by cases (auto simp: dev_network_peers dev_network_peers(2) [simplified] ran_map_upd four)
qed

lemma dev_network_idle: "lt_consumeCh (dev_network t) = []"
  by (simp add: dev_network_def connectSym_value dev_transports_def NewLocalTransport_def Let_def)

lemma mesh_broadcast:
  assumes "t < 4" and "enumerates (ord (lt_peers (dev_network t))) (lt_peers (dev_network t))"
  shows "\<exists>n'. LocalTransport_Broadcast ord t p dev_network = Some (n', Ok ()) \<and>
    (\<forall>k. lt_consumeCh (n' k) =
       (if k < 4 \<and> k \<noteq> t then [\<lparr>rpc_From = lt_addr (dev_network t), rpc_Payload = p\<rparr>] else []))"
proof -
  obtain n' r where b: "LocalTransport_Broadcast ord t p dev_network = Some (n', r)"
    using Broadcast_returns [of dev_network ord t p, OF dev_network_ok assms(2)] by (auto simp: dev_network_idle consumeCh_cap_def)
  from Broadcast_delivers [OF b dev_network_ok assms(2)] b show ?thesis
    by (auto simp: dev_network_idle dev_network_ran [OF assms(1)])
qed

end
