(* ===== verification/Server_Props.thy ===== *)
theory Server_Props
  imports Server_Lemmas
begin

text \<open>
  What the handlers of the server achieve, and where they fail: block production, transactions
  that stop it or get lost, messages that end the process, and catching up with a peer.
\<close>

section \<open>Searching error texts\<close>

lemma strings_prefix_append: "strings_prefix p (p @ s)"
  by (induction p) simp_all

lemma strings_Contains_infix: "strings_Contains (xs @ sub @ ys) sub"
proof (induction xs)
  case Nil
  have "strings_prefix sub (sub @ ys)" by (rule strings_prefix_append)
  then show ?case by (cases "sub @ ys") simp_all
next
  case (Cons x xs)
  then show ?case by simp
qed

lemma strings_prefix_set: "strings_prefix p s \<Longrightarrow> set p \<subseteq> set s"
  by (induction p s rule: strings_prefix.induct) auto

lemma strings_Contains_set: "strings_Contains s sub \<Longrightarrow> set sub \<subseteq> set s"
  by (induction s) (auto dest!: strings_prefix_set [THEN subsetD])

lemma hex_digit_not_g: "n < 16 \<Longrightarrow> hex_digit n \<noteq> CHR ''g''"
proof -
  assume n: "n < 16"
  have "fromHexChar (CHR ''g'') = None" by (simp add: fromHexChar_def)
  with fromHexChar_hex_digit [OF n] show ?thesis by auto
qed

lemma EncodeToString_not_g: "CHR ''g'' \<notin> set (EncodeToString bs)"
proof (induction bs)
  case (Cons b bs)
  have "unat b < 256" by (rule unat_byte_less)
  then have "unat b div 16 < 16" and "unat b mod 16 < 16" by auto
  then have "hex_digit (unat b div 16) \<noteq> CHR ''g''" and "hex_digit (unat b mod 16) \<noteq> CHR ''g''"
    by (simp_all add: hex_digit_not_g)
  with Cons show ?case by (auto simp: EncodeToString_def)
qed (simp add: EncodeToString_def)

lemma dec_digit_not_g: "n < 10 \<Longrightarrow> ''0123456789'' ! n \<noteq> CHR ''g''"
  by (auto simp: less_Suc_eq numeral_eq_Suc)

lemma dec_digits_not_g: "CHR ''g'' \<notin> set (dec_digits n)"
proof (induction n rule: dec_digits.induct)
  case (1 n)
  then show ?case using dec_digit_not_g [of n] dec_digit_not_g [of "n mod 10"] by (subst dec_digits.simps) auto
qed

lemma too_high_text: "strings_Contains (Error_text (ErrTooHigh h n m)) ''too high''"
  using strings_Contains_infix [of "''Block ('' @ Hash_String h @ '') with height('' @ fmt_u32 n @ '') is ''" "''too high''"
      "'' => current height ('' @ fmt_u32 m @ '')''"] by simp

lemma has_block_text:
  "strings_Contains (Error_text (ErrHasBlock n h)) ''chain already contains block''"
  "\<not> strings_Contains (Error_text (ErrHasBlock n h)) ''too high''"
proof -
  show "strings_Contains (Error_text (ErrHasBlock n h)) ''chain already contains block''"
    using strings_Contains_infix [of "[]" "''chain already contains block''"
        "'' ('' @ fmt_u32 n @ '') with hash ('' @ Hash_String h @ '')''"] by simp
  have "CHR ''g'' \<notin> set (Error_text (ErrHasBlock n h))"
    using EncodeToString_not_g dec_digits_not_g by (simp add: Hash_String_def fmt_u32_def)
  then show "\<not> strings_Contains (Error_text (ErrHasBlock n h)) ''too high''"
    using strings_Contains_set [of "Error_text (ErrHasBlock n h)" "''too high''"] by auto
qed

section \<open>Received blocks\<close>

lemma ValidateBlockLocked_heights:
  assumes "b_Header b = Some h" and "Block_Hash P b = Ok (bh, b')"
  shows "hasBlockLocked bc (hd_Height h) \<Longrightarrow>
      AddBlock P so ce b bc = Some (bc, Err (ErrHasBlock (hd_Height h) bh))"
    and "\<not> hasBlockLocked bc (hd_Height h) \<Longrightarrow> hd_Height h \<noteq> heightLocked bc + 1 \<Longrightarrow>
      AddBlock P so ce b bc = Some (bc, Err (ErrTooHigh bh (hd_Height h) (heightLocked bc)))"
  using assms by (simp_all add: AddBlock_def ValidateBlockLocked_def)

lemma processBlock_known:
  assumes "b_Header b = Some h" and "hd_Height h \<le> Height (sv_chain nd)"
  shows "processBlock P D a b nd = Some (nd, Ok ())"
proof -
  obtain bh b' where "Block_Hash P b = Ok (bh, b')"
    using Block_Hash_header [OF assms(1), of P] by fastforce
  from ValidateBlockLocked_heights(1) [OF assms(1) this]
  have "AddBlock P (d_so D) (d_ce D) b (sv_chain nd) = Some (sv_chain nd, Err (ErrHasBlock (hd_Height h) bh))"
    using assms(2) by (simp add: hasBlockLocked_def Height_def)
  then show ?thesis by (simp add: processBlock_def has_block_text del: Error_text.simps)
qed

lemma processBlock_ahead:
  assumes "b_Header b = Some h" and "Height (sv_chain nd) < hd_Height h" and "hd_Height h \<noteq> Height (sv_chain nd) + 1"
  shows "processBlock P D a b nd = requestBlocksSync P (d_tr D) a nd"
proof -
  obtain bh b' where "Block_Hash P b = Ok (bh, b')"
    using Block_Hash_header [OF assms(1), of P] by fastforce
  from ValidateBlockLocked_heights(2) [OF assms(1) this]
  have "AddBlock P (d_so D) (d_ce D) b (sv_chain nd) =
      Some (sv_chain nd, Err (ErrTooHigh bh (hd_Height h) (heightLocked (sv_chain nd))))"
    using assms(2,3) by (simp add: hasBlockLocked_def Height_def not_le)
  then show ?thesis by (simp add: processBlock_def too_high_text del: Error_text.simps)
qed

lemma processBlock_next:
  assumes "AddBlock P (d_so D) (d_ce D) b (sv_chain nd) = Some (bc, Ok ())"
  shows "processBlock P D a b nd = Some (spawn (GoBroadcastBlock b) (nd\<lparr>sv_chain := bc\<rparr>), Ok ())"
  using assms by (simp add: processBlock_def)

section \<open>Messages that end the process\<close>

lemma Start_rpc_undecodable:
  "DefaultRPCDecodeFunc P rpc = Err e \<Longrightarrow> Start_rpc P D ord now rpc nd = Some (nd, Panic NilDereference)"
  by (simp add: Start_rpc_def ProcessMessage_def drop_err_def)

lemma Start_rpc_headerless:
  assumes "DefaultRPCDecodeFunc P rpc = Ok \<lparr>dm_From = a, dm_Data = MsgBlock b\<rparr>" and "b_Header b = None"
  shows "Start_rpc P D ord now rpc nd = Some (nd, Panic NilDereference)"
  using assms
  by (simp add: Start_rpc_def ProcessMessage_def processBlock_def AddBlock_def ValidateBlockLocked_def drop_err_def)

section \<open>Submitted transactions\<close>

lemma Transaction_Hash_memo:
  "tx_memo_ok P tx \<Longrightarrow> TxHasher_Hash P (snd (Transaction_Hash (TxHasher_Hash P) tx)) = TxHasher_Hash P tx"
  by simp

lemma TxPool_Contains_hashes: "pool_ok P p \<Longrightarrow> TxPool_Contains p h \<longleftrightarrow> h \<in> set (pool_hashes P p)"
  by (simp add: TxPool_Contains_def pool_ok_def pool_hashes_def sm_Contains)

lemma ProcessTransaction_remembers:
  assumes "ProcessTransaction P now tx nd = Some (nd', Ok ())" and "tx_memo_ok P tx" and "pool_ok P (sv_memPool nd)"
  shows "TxPool_Contains (sv_memPool nd') (TxHasher_Hash P tx) \<and> pool_ok P (sv_memPool nd')"
  using assms
proof (cases rule: ProcessTransaction_cases)
  case (new tx' p)
  have "tx_memo_ok P tx'" using assms(2) new(3) by (simp add: Transaction_Hash_memo_ok)
  from TxPool_Add_refines [OF assms(3) this] new(4) have "pool_ok P p"
    and "pool_hashes P p = fifo_add (TxHasher_Hash P tx') (fifo_prune (pool_maxLength (sv_memPool nd)) (pool_hashes P (sv_memPool nd)))"
    by (metis outcome.inject(1))+
  then show ?thesis using new(3,5) by (auto simp: TxPool_Contains_hashes fifo_add_def)
qed (use assms in simp_all)

lemma ProcessTransaction_ignores:
  assumes "TxPool_Contains (sv_memPool nd) (TxHasher_Hash P tx)" and "tx_memo_ok P tx"
  shows "ProcessTransaction P now tx nd = Some (nd, Ok ())"
  using assms by (simp add: ProcessTransaction_def Transaction_Hash_value Let_def case_prod_unfold)

lemma createNewBlock_commit_OkE:
  assumes "createNewBlock_commit P D b nd = Some (nd', Ok ())"
  obtains bc where "AddBlock P (d_so D) (d_ce D) b (sv_chain nd) = Some (bc, Ok ())"
    and "nd' = spawn (GoBroadcastBlock b) (nd\<lparr>sv_chain := bc, sv_memPool := ClearPending (sv_memPool nd)\<rparr>)"
  using assms by (auto simp: createNewBlock_commit_def then_exec_eq_Ok)

lemma ClearPending_sel [simp]:
  "Pending (ClearPending p) = []" "TxPool_Contains (ClearPending p) h = TxPool_Contains p h"
  by (simp_all add: ClearPending_def Pending_def TxSortedMap_Clear_def List_Clear_def TxPool_Contains_def)

section \<open>Block production\<close>

context consensus_engine
begin

text \<open>The block that is worked on has the pending transactions and no evidence, whatever the engine does.\<close>

lemma createNewBlock_prepare_block:
  assumes "createNewBlock_prepare P ce now clk rnd nd = Ok b"
  shows "b_Transactions b = Pending (sv_memPool nd) \<and> b_Evidence b = [] \<and> block_memo_ok P b \<and> b_Header b \<noteq> None"
proof -
  from assms obtain prev b0 h1 b1 where
    new: "NewBlockFromPrevHeader P now prev (Pending (sv_memPool nd)) = Ok b0"
    and b1: "seal_block ce clk nd (b0\<lparr>b_Header := Some h1\<rparr>) = Ok b1" and sign: "sign_block P rnd nd b1 = Ok b"
    by (auto simp: createNewBlock_prepare_def split: option.splits)
  from new have b0: "b_Transactions b0 = Pending (sv_memPool nd)" "b_Evidence b0 = []" "b_hash b0 = zero_hash"
    by (auto simp: NewBlockFromPrevHeader_def NewBlock_def)
  have "\<exists>h2. b1 = b0\<lparr>b_Header := Some h2\<rparr>"
    using b1 seal_frame [of clk "b0\<lparr>b_Header := Some h1\<rparr>" _ b1 h1]
    by (auto simp: seal_block_def split: option.splits)
  then obtain h2 where "b1 = b0\<lparr>b_Header := Some h2\<rparr>" ..
  with b0 sign show ?thesis by (auto simp: sign_block_def Block_Sign_def block_memo_ok_def split: option.splits)
qed

end

lemma Transaction_Verify_signed: "Transaction_Verify P tx = Ok () \<Longrightarrow> tx_Signature tx \<noteq> None"
  by (auto simp: Transaction_Verify_def split: option.splits)

lemma mapM_outcome_all: "list_all (\<lambda>x. f x = Ok ()) xs \<Longrightarrow> mapM_outcome f xs = Ok (map (\<lambda>_. ()) xs)"
  by (induction xs) simp_all

text \<open>A transaction that executes costs its sender no more than there is.\<close>

lemma executeTransactions_affordable:
  assumes "executeTransactions P txs ws = Some (ws', Ok ())" and "tx \<in> set txs"
    and "list_all (\<lambda>tx. Transaction_Verify P tx = Ok ()) txs" and "total_supply (balance_of ws) < 2 ^ 64"
  shows "unat (tx_Value tx) \<le> total_supply (balance_of ws)"
  using assms
proof (induction txs arbitrary: ws)
  case (Cons t txs)
  then obtain ws1 where ws1: "executeTransaction P t ws = Some (ws1, Ok ())"
    and rest: "executeTransactions P txs ws1 = Some (ws', Ok ())" by (auto simp: then_exec_eq_Ok)
  note sup = executeTransaction_supply [OF ws1 Cons.prems(4)]
  show ?case
  proof (cases "tx = t")
    case True
    have "tx_Signature t \<noteq> None" using Cons.prems(3) by (auto dest: Transaction_Verify_signed)
    from executeTransaction_Ok [OF ws1 this Cons.prems(4)] obtain a
      where "unat (tx_Value t) \<le> balance_of ws a" by blast
    also have "\<dots> \<le> total_supply (balance_of ws)" by (rule balance_le_supply)
    finally show ?thesis using True by simp
  next
    case False
    then show ?thesis using Cons.IH [OF rest] Cons.prems(2-4) sup by simp
  qed
qed simp

lemma AddBlock_Ok_executes:
  assumes "AddBlock P so ce b bc = Some (bc', Ok ())"
  shows "\<exists>ws. executeTransactions P (b_Transactions b) (bc_WorldState bc) = Some (ws, Ok ())"
  using assms by (cases rule: AddBlockE) auto

text \<open>The validator loop alone: attempts to make a block, with any clock and randomness.\<close>

inductive tick :: "'x net_prims_scheme \<Rightarrow> ('h, 'n, 's, 'c) Deps \<Rightarrow> ('h, 's, 'c, 'n) Node \<Rightarrow> ('h, 's, 'c, 'n) Node \<Rightarrow> bool"
  for P :: "'x net_prims_scheme" and D :: "('h, 'n, 's, 'c) Deps" where
  tickI: "createNewBlock P D now clk rnd nd = Some (nd', r) \<Longrightarrow> \<not> is_Panic r \<Longrightarrow> tick P D nd nd'"

definition stuck :: "'x net_prims_scheme \<Rightarrow> Transaction \<Rightarrow> ('h, 's, 'c, 'n) Node \<Rightarrow> bool" where
  "stuck P tx nd \<longleftrightarrow> tx \<in> set (Pending (sv_memPool nd)) \<and> pool_verified P (sv_memPool nd) \<and>
     total_supply (balance_of (bc_WorldState (sv_chain nd))) < unat (tx_Value tx)"

context consensus_engine
begin

lemma stuck_tick:
  assumes "tick P D nd nd'" and D: "d_so D = MemoryStore_Storage P" "d_ce D = ce" and "weight_no_err ce"
    and stuck: "stuck P tx nd"
  shows "bc_Headers (sv_chain nd') = bc_Headers (sv_chain nd) \<and> sv_memPool nd' = sv_memPool nd \<and> stuck P tx nd'"
  using assms(1)
proof cases
  case (tickI now clk rnd r)
  have lim: "total_supply (balance_of (bc_WorldState (sv_chain nd))) < 2 ^ 64"
    using stuck unat_u64_less [of "tx_Value tx"] by (simp add: stuck_def)
  from tickI(1) show ?thesis unfolding createNewBlock_def D(2)
  proof (cases rule: node_tryE)
    case fail
    then show ?thesis using stuck by simp
  next
    case (go b)
    note b = createNewBlock_prepare_block [OF go(1)]
    have no: "AddBlock P (d_so D) ce b (sv_chain nd) \<noteq> Some (bc, Ok ())" for bc
      using AddBlock_Ok_executes executeTransactions_affordable [of P "Pending (sv_memPool nd)"] stuck b lim
      unfolding stuck_def pool_verified_def by (metis not_le)
    with go(2) D(2) obtain bc where add: "AddBlock P (d_so D) ce b (sv_chain nd) = Some (bc, r)"
      and nd': "nd' = nd\<lparr>sv_chain := bc\<rparr>"
      by (auto simp: createNewBlock_commit_def elim!: then_execE)
    with no tickI(2) obtain e where "AddBlock P (MemoryStore_Storage P) ce b (sv_chain nd) = Some (bc, Err e)"
      using D(1) by (cases r) auto
    from AddBlock_memory_Err [OF this assms(4) lim] nd' stuck show ?thesis by (simp add: stuck_def)
  qed
qed

lemma stuck_ticks:
  assumes "(tick P D)\<^sup>*\<^sup>* nd nd'" and "d_so D = MemoryStore_Storage P" "d_ce D = ce" and "weight_no_err ce"
    and "stuck P tx nd"
  shows "bc_Headers (sv_chain nd') = bc_Headers (sv_chain nd) \<and> sv_memPool nd' = sv_memPool nd \<and> stuck P tx nd'"
  using assms(1)
proof (induction rule: rtranclp_induct)
  case base
  show ?case using assms(5) by simp
next
  case (step y z)
  then show ?case using stuck_tick [OF step(2) assms(2-4), of tx] by simp
qed

end

text \<open>
  A turn of the validator loop that finds a nonce, on a node with the proof-of-work engine: the
  header it mines, and the block it adds.
\<close>

definition mined_header :: "'x net_prims_scheme \<Rightarrow> i64 \<Rightarrow> hash \<Rightarrow> address \<Rightarrow> PoWEngine \<Rightarrow> Header \<Rightarrow> Header" where
  "mined_header P now dataHash coinbase pow prev =
     \<lparr>hd_Version = 1, hd_DataHash = dataHash, hd_PrevBlockHash = BlockHasher_Hash P prev, hd_StateRoot = zero_hash,
      hd_Height = hd_Height prev + 1, hd_Timestamp = now, hd_Nonce = 0, hd_Difficulty = targetDifficulty pow,
      hd_Coinbase = coinbase\<rparr>"

lemma GetHeader_last:
  assumes "linked P (bc_Headers bc)"
  shows "GetHeader bc (Height bc) = Ok (last (bc_Headers bc))"
    and "unat (hd_Height (last (bc_Headers bc))) = length (bc_Headers bc) - 1"
proof -
  have hs: "bc_Headers bc \<noteq> []" "length (bc_Headers bc) \<le> 2 ^ 32" using assms by (simp_all add: linked_def)
  then show "GetHeader bc (Height bc) = Ok (last (bc_Headers bc))"
    using unat_heightLocked [OF hs] by (simp add: GetHeader_def Height_def last_conv_nth)
  have "length (bc_Headers bc) - 1 < length (bc_Headers bc)" using hs(1) by simp
  with assms hs(1) show "unat (hd_Height (last (bc_Headers bc))) = length (bc_Headers bc) - 1"
    unfolding linked_def last_conv_nth [OF hs(1)] by blast
qed

lemma createNewBlock_prepare_mines:
  assumes "linked P (bc_Headers (sv_chain nd))" and "bc_consensus (sv_chain nd) = Some pow"
    and "sv_isValidator nd" and "sv_PrivateKey nd = Some key" and "PublicKey_Address P (PrivateKey_PublicKey key) = Ok addr"
    and "CalculateDataHash P (Pending (sv_memPool nd)) [] = Ok d"
    and h: "h = mined_header P now d addr pow (last (bc_Headers (sv_chain nd)))"
    and "targetDifficulty pow \<le> 256" and "32 < max_alloc P"
    and "least_nonce P (pow_target (targetDifficulty pow)) h 0 m"
    and "PrivateKey_Sign P rnd key (Header_Bytes P (h\<lparr>hd_Nonce := m\<rparr>)) = Ok sig"
  shows "createNewBlock_prepare P (PoW_ConsensusEngine P) now (\<lambda>_. False) rnd nd =
    Ok ((NewBlock (h\<lparr>hd_Nonce := m\<rparr>) (Pending (sv_memPool nd)))\<lparr>b_Validator := PrivateKey_PublicKey key, b_Signature := Some sig\<rparr>)"
proof -
  have "PoW_Seal P (\<lambda>_. False) (NewBlock h (Pending (sv_memPool nd))) pow
      = Ok (NewBlock (h\<lparr>hd_Nonce := m\<rparr>) (Pending (sv_memPool nd)))"
    using Seal_loop_finds [OF assms(10)]
    by (simp add: PoW_Seal_def Lsh_one_target [OF assms(8,9)] NewBlock_def)
  then show ?thesis
    using GetHeader_last(1) [OF assms(1)] assms(2-6,11)
    by (simp add: createNewBlock_prepare_def NewBlockFromPrevHeader_def prepare_header_def set_coinbase_def seal_block_def
        sign_block_def PoW_ConsensusEngine_def PoW_Prepare_def NewBlock_def Block_Sign_def h mined_header_def)
qed

text \<open>The block that is mined passes every check of the node's own chain.\<close>

lemma mined_block_valid:
  assumes "linked P (bc_Headers (sv_chain nd))" and "length (bc_Headers (sv_chain nd)) < 2 ^ 32"
    and "bc_consensus (sv_chain nd) = Some pow"
    and "sv_isValidator nd" and "sv_PrivateKey nd = Some key" and "PublicKey_Address P (PrivateKey_PublicKey key) = Ok addr"
    and "CalculateDataHash P (Pending (sv_memPool nd)) [] = Ok d" and "pool_verified P (sv_memPool nd)"
    and h: "h = mined_header P now d addr pow (last (bc_Headers (sv_chain nd)))"
    and "targetDifficulty pow \<le> 256" and "32 < max_alloc P" and "sign_verifies P"
    and m: "least_nonce P (pow_target (targetDifficulty pow)) h 0 m"
    and sig: "PrivateKey_Sign P rnd key (Header_Bytes P (h\<lparr>hd_Nonce := m\<rparr>)) = Ok sig"
  obtains b where "createNewBlock_prepare P (PoW_ConsensusEngine P) now (\<lambda>_. False) rnd nd = Ok b"
    and "b_Header b = Some (h\<lparr>hd_Nonce := m\<rparr>)" and "b_Transactions b = Pending (sv_memPool nd)" and "block_memo_ok P b"
    and "unat (hd_Height (h\<lparr>hd_Nonce := m\<rparr>)) = length (bc_Headers (sv_chain nd))"
    and "hd_PrevBlockHash (h\<lparr>hd_Nonce := m\<rparr>) = BlockHasher_Hash P (last (bc_Headers (sv_chain nd)))"
    and "snd (PoW_VerifyHeader P (h\<lparr>hd_Nonce := m\<rparr>) pow) = Ok ()" and "Block_Verify P b = Ok ()"
proof -
  let ?hs = "bc_Headers (sv_chain nd)" and ?h = "h\<lparr>hd_Nonce := m\<rparr>" and ?txs = "Pending (sv_memPool nd)"
  define b where "b = (NewBlock ?h ?txs)\<lparr>b_Validator := PrivateKey_PublicKey key, b_Signature := Some sig\<rparr>"
  have prep: "createNewBlock_prepare P (PoW_ConsensusEngine P) now (\<lambda>_. False) rnd nd = Ok b"
    unfolding b_def by (rule createNewBlock_prepare_mines) fact+
  have "unat (hd_Height (last ?hs)) = length ?hs - 1" using assms(1) by (rule GetHeader_last(2))
  moreover have "?hs \<noteq> []" using assms(1) by (simp add: linked_def)
  ultimately have height: "unat (hd_Height ?h) = length ?hs"
    using assms(2) by (cases "?hs") (simp_all add: h mined_header_def unat_word_ariths)
  have "hash_int P ?h \<le> pow_target (hd_Difficulty ?h)"
    using m by (simp add: least_nonce_def meets_def h mined_header_def)
  moreover have "hd_Difficulty ?h \<le> 256" using assms(10) by (simp add: h mined_header_def)
  ultimately have pow: "snd (PoW_VerifyHeader P ?h pow) = Ok ()"
    using assms(11) by (simp add: PoW_VerifyHeader_iff)
  have "mapM_outcome (Transaction_Verify P) ?txs = Ok (map (\<lambda>_. ()) ?txs)"
    using assms(8) unfolding pool_verified_def by (rule mapM_outcome_all)
  then have verify: "Block_Verify P b = Ok ()"
    using Block_Sign_then_Verify [OF assms(12), of rnd key "NewBlock ?h ?txs" b ?h] sig assms(7)
    by (simp add: Block_Sign_def NewBlock_def b_def h mined_header_def)
  show thesis
    using prep _ _ _ height _ pow verify by (rule that) (simp_all add: b_def NewBlock_def block_memo_ok_def h mined_header_def)
qed

lemma createNewBlock_extends:
  assumes "linked P (bc_Headers (sv_chain nd))" and "length (bc_Headers (sv_chain nd)) < 2 ^ 32"
    and "bc_consensus (sv_chain nd) = Some pow" and "bc_totalDifficulty (sv_chain nd) = Some td"
    and "sv_isValidator nd" and "sv_PrivateKey nd = Some key" and "PublicKey_Address P (PrivateKey_PublicKey key) = Ok addr"
    and "CalculateDataHash P (Pending (sv_memPool nd)) [] = Ok d" and "pool_verified P (sv_memPool nd)"
    and "executeTransactions P (Pending (sv_memPool nd)) (bc_WorldState (sv_chain nd)) = Some (ws, Ok ())"
    and h: "h = mined_header P now d addr pow (last (bc_Headers (sv_chain nd)))"
    and "targetDifficulty pow \<le> 256" and "32 < max_alloc P" and "sign_verifies P"
    and m: "least_nonce P (pow_target (targetDifficulty pow)) h 0 m"
    and sig: "PrivateKey_Sign P rnd key (Header_Bytes P (h\<lparr>hd_Nonce := m\<rparr>)) = Ok sig"
    and D: "d_so D = MemoryStore_Storage P" "d_ce D = PoW_ConsensusEngine P"
  obtains bc b where "createNewBlock P D now (\<lambda>_. False) rnd nd =
      Some (spawn (GoBroadcastBlock b) (nd\<lparr>sv_chain := bc, sv_memPool := ClearPending (sv_memPool nd)\<rparr>), Ok ())"
    and "bc_Headers bc = bc_Headers (sv_chain nd) @ [h\<lparr>hd_Nonce := m\<rparr>]" and "bc_WorldState bc = AddBalance addr 5 ws"
    and "b_Header b = Some (h\<lparr>hd_Nonce := m\<rparr>)" and "b_Transactions b = Pending (sv_memPool nd)"
proof -
  let ?hs = "bc_Headers (sv_chain nd)" and ?h = "h\<lparr>hd_Nonce := m\<rparr>"
  obtain b where prep: "createNewBlock_prepare P (PoW_ConsensusEngine P) now (\<lambda>_. False) rnd nd = Ok b"
    and b: "b_Header b = Some ?h" "b_Transactions b = Pending (sv_memPool nd)" "block_memo_ok P b"
      "unat (hd_Height ?h) = length ?hs" "hd_PrevBlockHash ?h = BlockHasher_Hash P (last ?hs)"
      "snd (PoW_VerifyHeader P ?h pow) = Ok ()" "Block_Verify P b = Ok ()"
    by (rule mined_block_valid [OF assms(1-3,5-9,11-16)])
  have weight: "Lsh_one P (hd_Difficulty ?h) = Ok (2 ^ unat (targetDifficulty pow))"
    using assms(12,13) by (simp add: Lsh_one_def push_bit_eq_mult h mined_header_def word_le_nat_alt)
  have ex: "executeTransactions P (b_Transactions b) (bc_WorldState (sv_chain nd)) = Some (ws, Ok ())"
    using assms(10) b(2) by simp
  from AddBlock_accepts [OF assms(1,3,4) b(1,3-7) ex weight]
  obtain bc where add: "AddBlock P (MemoryStore_Storage P) (PoW_ConsensusEngine P) b (sv_chain nd) = Some (bc, Ok ())"
    and bc: "bc_Headers bc = ?hs @ [?h]" "bc_WorldState bc = AddBalance addr 5 ws"
    by (auto simp: h mined_header_def)
  then have "createNewBlock P D now (\<lambda>_. False) rnd nd =
      Some (spawn (GoBroadcastBlock b) (nd\<lparr>sv_chain := bc, sv_memPool := ClearPending (sv_memPool nd)\<rparr>), Ok ())"
    using prep D by (simp add: createNewBlock_def createNewBlock_commit_def)
  with bc b show thesis by (intro that)
qed

section \<open>Catching up with a peer\<close>

lemma GetBlocks_loop_all:
  assumes "\<And>k. k < length bs \<Longrightarrow> GetBlock so bc (i + of_nat k) = Ok (bs ! k)"
    and "unat i + length bs = unat to + 1" and "to < - 1"
  shows "GetBlocks_loop so bc i to acc = Some (Ok (acc @ bs))"
  using assms(1,2)
proof (induction bs arbitrary: i acc)
  case Nil
  then have "\<not> i \<le> to" by (simp add: word_le_nat_alt)
  then show ?case by (subst GetBlocks_loop.simps) simp
next
  case (Cons b bs)
  have le: "i \<le> to" using Cons.prems(2) by (simp add: word_le_nat_alt)
  then have "i < - 1" using assms(3) by (rule le_less_trans)
  then have i1: "unat (i + 1) = unat i + 1" by (rule unat_succ)
  have "GetBlock so bc (i + 1 + of_nat k) = Ok (bs ! k)" if "k < length bs" for k
    using Cons.prems(1) [of "Suc k"] that by (simp add: add.assoc)
  then have "GetBlocks_loop so bc (i + 1) to (acc @ [b]) = Some (Ok ((acc @ [b]) @ bs))"
    using Cons.prems(2) i1 by (intro Cons.IH) simp_all
  with le Cons.prems(1) [of 0] show ?case by (subst GetBlocks_loop.simps) simp
qed

lemma Server_send_via:
  assumes "sv_peers nd a = Some h" and "tr_SendMessage tr h a (Message_Bytes P msg) (nd_net nd) = Some (n', Ok ())"
  shows "Server_send P tr a msg nd = Some (nd\<lparr>nd_net := n'\<rparr>, Ok ())"
  using assms by (simp add: Server_send_def send_transport_def on_net_def)

text \<open>The three handlers of a round of synchronisation, given that the messages get through.\<close>

lemma status_requests_blocks:
  assumes "Height (sv_chain nd) < sm_Height st" and "sv_peers nd a = Some h"
    and "gob_GetBlocks P \<lparr>gb_From = Height (sv_chain nd) + 1, gb_To = sm_Height st\<rparr> = Ok buf"
    and "tr_SendMessage (d_tr D) h a (Message_Bytes P (NewMessage MessageTypeGetBlocks buf)) (nd_net nd) = Some (n', Ok ())"
  shows "ProcessMessage P D ord now (Some \<lparr>dm_From = a, dm_Data = MsgStatus st\<rparr>) nd = Some (nd\<lparr>nd_net := n'\<rparr>, Ok ())"
  using assms Server_send_via [OF assms(2,4)] by (simp add: ProcessMessage_def processStatusMessage_def)

lemma request_returns_blocks:
  assumes "\<And>k. k < length bs \<Longrightarrow> GetBlock (d_so D) (sv_chain nd) (gb_From g + of_nat k) = Ok (bs ! k)"
    and "gb_To g = Height (sv_chain nd)" and "unat (gb_From g) + length bs = unat (gb_To g) + 1" and "gb_To g < - 1"
    and "sv_peers nd a = Some h" and "Blocks_Encode P bs = Ok buf"
    and "tr_SendMessage (d_tr D) h a (Message_Bytes P (NewMessage MessageTypeBlocks buf)) (nd_net nd) = Some (n', Ok ())"
  shows "ProcessMessage P D ord now (Some \<lparr>dm_From = a, dm_Data = MsgGetBlocks g\<rparr>) nd = Some (nd\<lparr>nd_net := n'\<rparr>, Ok ())"
proof -
  have "(if gb_To g = 0 \<or> gb_To g > Height (sv_chain nd) then Height (sv_chain nd) else gb_To g) = gb_To g"
    using assms(2) by simp
  with GetBlocks_loop_all [OF assms(1,3,4), of "[]"] Server_send_via [OF assms(5,7)] assms(6) show ?thesis
    by (simp add: ProcessMessage_def processGetBlocks_def)
qed

primrec AddBlocks ::
  "'x block_prims_scheme \<Rightarrow> 's Storage \<Rightarrow> 'c ConsensusEngine \<Rightarrow> Block list \<Rightarrow> ('s, 'c) Blockchain \<Rightarrow> (('s, 'c) Blockchain \<times> unit res) option" where
  "AddBlocks P so ce [] bc = Some (bc, Ok ())"
| "AddBlocks P so ce (b # bs) bc = then_exec (AddBlock P so ce b bc) (AddBlocks P so ce bs)"

lemma processBlocks_adds:
  "processBlocks P D bs nd =
     map_option (\<lambda>(bc, r). (nd\<lparr>sv_chain := bc\<rparr>, r)) (AddBlocks P (d_so D) (d_ce D) bs (sv_chain nd))"
proof (induction bs arbitrary: nd)
  case (Cons b bs)
  show ?case
  proof (cases "AddBlock P (d_so D) (d_ce D) b (sv_chain nd)")
    case (Some x)
    then show ?thesis using Cons.IH by (cases x; cases "snd x") (auto simp: option.map_comp comp_def)
  qed simp
qed simp

end
