(* ===== verification/MainTheorems.thy ===== *)
theory MainTheorems
  imports ConsensusTheorems MainProg Server_Props
begin

text \<open>
  The theorems about src/main.go: the sample contract of the test transactions, the genesis
  allocations and the mesh of developer mode.
\<close>

section \<open>The sample contract\<close>

lemma Memory_Set32_word: "32 \<le> max_alloc P \<Longrightarrow> Memory_Set32 P [] 0 5 = Ok (replicate 31 0 @ [5])"
proof -
  assume "32 \<le> max_alloc P"
  moreover have "Int_Bytes 5 = [5]" by (simp add: Int_Bytes_def be_bytes.simps)
  ultimately show ?thesis
    by (simp add: Memory_Set32_def pad32_def Memory_Set_def Memory_expand_def make_bytes_def go_copy_def go_slice_def)
qed

lemma Memory_Get_word: "length m = 32 \<Longrightarrow> 32 \<le> max_alloc P \<Longrightarrow> Memory_Get P m 0 32 = Ok (m, m)"
  by (simp add: Memory_Get_def Memory_expand_def make_bytes_def go_copy_def go_slice_def)

lemma sample_gas:
  assumes "10 \<le> (g :: u64)"
  shows "\<not> g < 1" "\<not> g < 2" "\<not> g < 3" "\<not> g < 4" "\<not> g < 5" "\<not> g < 6" "\<not> g < 7" "\<not> g < 8" "\<not> g < 9" "\<not> g < 10" "g \<noteq> 0"
  using assms by (auto simp: not_less intro: order.trans [OF _ assms])

text \<open>The first half of the contract writes the slot and loads it again, the second half returns it.\<close>

lemma sample_stores:
  assumes code: "evm_code e = sampleContract" and gas: "evm_gasUsed e = 0" "10 \<le> evm_gasLimit e"
    and start: "evm_pc e = 0" "evm_stack e = []"
  obtains st where "EVM_Run P WorldState_StateDB e =
      EVM_Run P WorldState_StateDB (e\<lparr>evm_stack := [5], evm_state := st, evm_gasUsed := 5, evm_pc := 8\<rparr>)"
    and "slot_value P WorldState_StateDB st (evm_contract e) 0 = 5"
proof -
  let ?e1 = "e\<lparr>evm_gasUsed := 1, evm_pc := 2, evm_stack := [5]\<rparr>"
  let ?e2 = "e\<lparr>evm_gasUsed := 2, evm_pc := 4, evm_stack := [5, 0]\<rparr>"
  let ?e2' = "e\<lparr>evm_stack := [5, 0], evm_gasUsed := 3, evm_pc := 5\<rparr>"
  have u: "is_u256 0" "is_u256 5" by (simp_all add: is_u256_def)
  obtain st where sst: "op_sstore P WorldState_StateDB ?e2' = Continue (?e2'\<lparr>evm_stack := [], evm_state := st\<rparr>)"
    and slot: "slot_value P WorldState_StateDB st (evm_contract e) 0 = 5"
    using ws_db.op_sstore_writes [of ?e2' "[]" 5 0 P] u by auto
  let ?e3 = "e\<lparr>evm_stack := [], evm_gasUsed := 3, evm_pc := 5, evm_state := st\<rparr>"
  let ?e4 = "e\<lparr>evm_gasUsed := 4, evm_pc := 7, evm_stack := [0], evm_state := st\<rparr>"
  let ?e4' = "e\<lparr>evm_stack := [0], evm_state := st, evm_gasUsed := 5, evm_pc := 8\<rparr>"
  have sld: "op_sload P WorldState_StateDB ?e4' = Continue (?e4'\<lparr>evm_stack := [5]\<rparr>)"
    using ws_db.op_sload_pushes [of ?e4' "[]" 0 P] u slot by simp
  note defs = step_defs code [unfolded sampleContract_def] gas(1) start sample_gas [OF gas(2)]
  have "EVM_Run P WorldState_StateDB e = EVM_Run P WorldState_StateDB ?e1"
    by (rule EVM_Run_unfold_Continue) (simp_all add: defs)
  also have "\<dots> = EVM_Run P WorldState_StateDB ?e2"
    by (rule EVM_Run_unfold_Continue) (simp_all add: defs)
  also have "\<dots> = EVM_Run P WorldState_StateDB ?e3"
    by (rule EVM_Run_unfold_Continue) (use sst in \<open>simp_all add: defs\<close>)
  also have "\<dots> = EVM_Run P WorldState_StateDB ?e4"
    by (rule EVM_Run_unfold_Continue) (simp_all add: defs)
  also have "\<dots> = EVM_Run P WorldState_StateDB (e\<lparr>evm_stack := [5], evm_state := st, evm_gasUsed := 5, evm_pc := 8\<rparr>)"
    by (rule EVM_Run_unfold_Continue) (use sld in \<open>simp_all add: defs\<close>)
  finally show thesis using that slot by blast
qed

lemma sample_returns:
  assumes code: "evm_code e = sampleContract" and gas: "evm_gasUsed e = 5" "10 \<le> evm_gasLimit e"
    and start: "evm_pc e = 8" "evm_stack e = [5]" "evm_memory e = []" and mem: "32 \<le> max_alloc P"
  shows "EVM_Run P WorldState_StateDB e = Some (Return
    (e\<lparr>evm_memory := replicate 31 0 @ [5], evm_gasUsed := 10, evm_pc := 16, evm_stack := [], evm_retData := replicate 31 0 @ [5]\<rparr>)
    (replicate 31 0 @ [5]))"
proof -
  let ?m = "replicate 31 0 @ [5] :: byte list"
  let ?e6 = "e\<lparr>evm_gasUsed := 6, evm_pc := 10, evm_stack := [5, 0]\<rparr>"
  let ?e7 = "e\<lparr>evm_gasUsed := 7, evm_pc := 11, evm_stack := [], evm_memory := ?m\<rparr>"
  let ?e8 = "e\<lparr>evm_memory := ?m, evm_gasUsed := 8, evm_pc := 13, evm_stack := [32]\<rparr>"
  let ?e9 = "e\<lparr>evm_memory := ?m, evm_gasUsed := 9, evm_pc := 15, evm_stack := [32, 0]\<rparr>"
  note defs = step_defs code [unfolded sampleContract_def] gas(1) start sample_gas [OF gas(2)]
  have "EVM_Run P WorldState_StateDB e = EVM_Run P WorldState_StateDB ?e6"
    by (rule EVM_Run_unfold_Continue) (simp_all add: defs)
  also have "\<dots> = EVM_Run P WorldState_StateDB ?e7"
    by (rule EVM_Run_unfold_Continue)
      (simp_all add: defs op_mstore_def evm_pop_def Stack_Pop_def Int_Uint64_def Memory_Set32_word mem)
  also have "\<dots> = EVM_Run P WorldState_StateDB ?e8"
    by (rule EVM_Run_unfold_Continue) (simp_all add: defs)
  also have "\<dots> = EVM_Run P WorldState_StateDB ?e9"
    by (rule EVM_Run_unfold_Continue) (simp_all add: defs)
  also have "\<dots> = Some (Return (e\<lparr>evm_memory := ?m, evm_gasUsed := 10, evm_pc := 16, evm_stack := [], evm_retData := ?m\<rparr>) ?m)"
    by (rule EVM_Run_final) (simp add: final_result_def defs op_return_def evm_pop_def Stack_Pop_def
        Memory_Get_word Int_Uint64_def mem)
  finally show ?thesis .
qed

lemma sample_steps:
  assumes code: "evm_code e = sampleContract" and gas: "evm_gasUsed e = 0" "10 \<le> evm_gasLimit e"
    and start: "evm_pc e = 0" "evm_stack e = []" "evm_memory e = []" and mem: "32 \<le> max_alloc P"
  obtains e' where "EVM_Run P WorldState_StateDB e = Some (Return e' (replicate 31 0 @ [5]))"
    and "slot_value P WorldState_StateDB (evm_state e') (evm_contract e) 0 = 5" and "evm_gasUsed e' = 10"
proof -
  obtain st where run: "EVM_Run P WorldState_StateDB e =
      EVM_Run P WorldState_StateDB (e\<lparr>evm_stack := [5], evm_state := st, evm_gasUsed := 5, evm_pc := 8\<rparr>)"
    and slot: "slot_value P WorldState_StateDB st (evm_contract e) 0 = 5"
    using sample_stores [OF code gas start(1,2)] by blast
  show thesis unfolding run
    using that sample_returns [of "e\<lparr>evm_stack := [5], evm_state := st, evm_gasUsed := 5, evm_pc := 8\<rparr>" P] run slot assms by simp
qed

lemma slot_value_IncrementNonce [simp]:
  "slot_value P WorldState_StateDB (IncrementNonce a ws) c key = slot_value P WorldState_StateDB ws c key"
  by (auto simp: slot_value_def WorldState_StateDB_def GetAccountState_def IncrementNonce_def account_or_new_def
      put_account_def NewAccount_def Let_def split: outcome.splits option.splits if_splits)

text \<open>The transactions that developer mode sends do what they are meant to: executed on any state, the
  sample contract stores 5 in slot 0 of the contract account, no balance changes, and the sender's
  nonce goes up by one.\<close>

theorem test_transaction_executes:
  assumes "test_transaction P rnd key = Ok tx" and "PublicKey_Address P (PrivateKey_PublicKey key) = Ok a"
    and "32 \<le> max_alloc P"
  shows "\<exists>ws'. executeTransaction P tx ws = Some (ws', Ok ()) \<and>
    slot_value P WorldState_StateDB ws' zero_address 0 = 5 \<and> balance_of ws' = balance_of ws \<and>
    GetNonce ws' = (GetNonce ws)(a := GetNonce ws a + 1)"
proof -
  from assms(1) have tx: "tx_Data tx = sampleContract" "tx_GasLimit tx = 10000" "tx_Value tx = 0" "tx_To tx = zero_address"
      "tx_From tx = PrivateKey_PublicKey key" "tx_Signature tx \<noteq> None"
    by (auto simp: test_transaction_def Transaction_Sign_def NewTransaction_def)
  let ?e = "NewEVM sampleContract [] ws zero_address a (Some (uint (0 :: u64))) 10000"
  obtain e' where run: "EVM_Run P WorldState_StateDB ?e = Some (Return e' (replicate 31 0 @ [5]))"
    and slot: "slot_value P WorldState_StateDB (evm_state e') (evm_contract ?e) 0 = 5"
    by (rule sample_steps [of ?e P]) (use assms(3) in \<open>auto simp: NewEVM_def NewStack_def NewMemory_def\<close>)
  have code: "execute_code P tx ws = Some (evm_state e', Ok ())"
    using run by (simp add: execute_code_def with_sender_def vm_result_def tx assms(2))
      (simp add: sampleContract_def)
  then have "executeTransaction P tx ws = Some (IncrementNonce a (evm_state e'), Ok ())"
    using tx(6) by (simp add: executeTransaction_def execute_value_def execute_nonce_def with_sender_def tx(3,5) assms(2))
  moreover have "GetNonce (IncrementNonce a (evm_state e')) = (GetNonce ws)(a := GetNonce ws a + 1)"
    using execute_code_balance(2) [OF code] by (intro ext) (simp add: IncrementNonce_nonce)
  ultimately show ?thesis
    using slot execute_code_balance(1) [OF code] by (simp add: NewEVM_def)
qed

theorem test_transaction_executes_witness:
  "\<exists>tx ws'. test_transaction demo_P 0 demo_key = Ok tx \<and> executeTransaction demo_P tx NewWorldState = Some (ws', Ok ()) \<and>
    slot_value demo_P WorldState_StateDB ws' zero_address 0 = 5"
proof -
  obtain tx where tx: "test_transaction demo_P 0 demo_key = Ok tx"
    by (simp add: test_transaction_def Transaction_Sign_def PrivateKey_Sign_def demo_Sign_def)
  from test_transaction_executes [OF tx demo_key_addr, of NewWorldState] tx show ?thesis by auto
qed

section \<open>Genesis allocations\<close>

definition dev_addrs :: "address list" where
  "dev_addrs = map mk_address dev_bytes"

lemma add_dev_alloc_bytes:
  "DecodeString s = Some bs \<Longrightarrow> length bs = 20 \<Longrightarrow> add_dev_alloc s m = m(mk_address bs \<mapsto> perDevAccount)"
  by (simp add: add_dev_alloc_def AddressFromBytes_def)

lemma fold_dev_alloc:
  "map DecodeString ss = map Some bss \<Longrightarrow> list_all (\<lambda>bs. length bs = 20) bss \<Longrightarrow>
     fold add_dev_alloc ss m = (\<lambda>a. if a \<in> set (map mk_address bss) then Some perDevAccount else m a)"
proof (induction bss arbitrary: ss m)
  case (Cons bs bss)
  then obtain s ss' where "ss = s # ss'" "DecodeString s = Some bs" "map DecodeString ss' = map Some bss"
    by (cases ss) auto
  with Cons show ?case by (auto simp: add_dev_alloc_bytes fun_eq_iff)
qed simp

lemma createGenesisAllocs_value:
  "createGenesisAllocs v = (\<lambda>a. if a \<in> set dev_addrs then Some 100000000 else if a = v then Some 500000000 else None)"
proof -
  have "perDevAccount = 100000000" by (simp add: perDevAccount_def genesisAllocTotal_def devAddresses_def)
  then show ?thesis
    unfolding createGenesisAllocs_def dev_addrs_def fold_dev_alloc [OF dev_bytes dev_bytes_length]
    by (auto simp: fun_eq_iff genesisAllocTotal_def)
qed

lemma mk_address_inj: "length a = 20 \<Longrightarrow> length b = 20 \<Longrightarrow> mk_address a = mk_address b \<Longrightarrow> a = b"
  by (metis address_bytes_mk_address)

lemma dev_addrs_distinct: "distinct dev_addrs" "length dev_addrs = 5"
proof -
  have "inj_on mk_address (set dev_bytes)"
    using dev_bytes_length by (auto simp: inj_on_def list_all_iff intro: mk_address_inj)
  then show "distinct dev_addrs" using dev_bytes_distinct by (simp add: dev_addrs_def distinct_map)
  show "length dev_addrs = 5" by (simp add: dev_addrs_def dev_bytes_def)
qed

lemma balance_of_genesis:
  assumes "enumerates ord allocs"
  shows "balance_of (CreateGenesisState ord allocs) a = (case allocs a of None \<Rightarrow> 0 | Some v \<Rightarrow> unat v)"
  by (simp add: balance_of_def CreateGenesisState_def GetBalance_def range_copy_map [OF assms] NewAccount_def split: option.splits)

lemma NewServer_unfunded:
  assumes "NewServer P D opts net = Some (Ok nd)"
  shows "bc_WorldState (sv_chain nd) = NewWorldState"
proof -
  from assms obtain bc where "NewBlockchain P (d_so D) (d_ce D) genesisBlock (so_Storage opts) = Some (bc, Ok ())"
    and "sv_chain nd = (case so_Consensus opts of None \<Rightarrow> bc | Some c \<Rightarrow> SetConsensus c bc)"
    by (rule NewServer_OkE) simp
  then show ?thesis using NewBlockchain_unfunded by (fastforce simp: SetConsensus_def split: option.splits)
qed

text \<open>C35. The genesis allocations of developer mode add up to exactly one billion if the validator's
  address is not one of the five developer accounts, and no server that is started has them: the
  world state of every new server is empty.\<close>

theorem genesis_allocations_unused:
  assumes "v \<notin> set dev_addrs" and "enumerates ord (createGenesisAllocs v)"
    and "mustCreateServer P D blockTime name tr pk rpcAddr engine storage net = Some (Ok nd)"
  shows "total_supply (balance_of (CreateGenesisState ord (createGenesisAllocs v))) = genesisAllocTotal \<and>
    total_supply (balance_of (bc_WorldState (sv_chain nd))) = 0"
proof
  let ?b = "balance_of (CreateGenesisState ord (createGenesisAllocs v))"
  have b: "?b a = (if a \<in> set dev_addrs then 100000000 else if a = v then 500000000 else 0)" for a
    unfolding balance_of_genesis [OF assms(2)] by (simp add: createGenesisAllocs_value)
  have "total_supply ?b = sum ?b (insert v (set dev_addrs))"
    unfolding total_supply_def by (rule sum.mono_neutral_right) (auto simp: b)
  also have "\<dots> = 500000000 + sum ?b (set dev_addrs)" using assms(1) by (simp add: b)
  also have "sum ?b (set dev_addrs) = sum (\<lambda>_. 100000000) (set dev_addrs)" by (rule sum.cong) (simp_all add: b)
  also have "\<dots> = 500000000" using dev_addrs_distinct by (simp add: distinct_card)
  finally show "total_supply ?b = genesisAllocTotal" by (simp add: genesisAllocTotal_def)
  show "total_supply (balance_of (bc_WorldState (sv_chain nd))) = 0"
    using NewServer_unfunded [OF assms(3) [unfolded mustCreateServer_def]] total_supply_NewWorldState by simp
qed

lemma demo_addr_not_dev: "demo_addr \<notin> set dev_addrs"
proof
  assume "demo_addr \<in> set dev_addrs"
  then obtain bs where bs: "bs \<in> set dev_bytes" "demo_addr = mk_address bs" by (auto simp: dev_addrs_def)
  then have "length bs = 20" using dev_bytes_length by (auto simp: list_all_iff)
  with bs(2) have "bs = replicate 17 0 @ [2, 5, 7]" unfolding demo_addr_def by (intro mk_address_inj [symmetric]) simp_all
  then have "hd bs = 0" by simp
  with bs(1) show False by (auto simp: dev_bytes_def)
qed

theorem genesis_allocations_unused_witness:
  "\<exists>nd. mustCreateServer demo_P demo_deps 0 ''p'' 0 (Some demo_key) [] (NewPoWEngine 0) NewMemoryStorage demo_net = Some (Ok nd) \<and>
    total_supply (balance_of (CreateGenesisState (demo_addr # dev_addrs) (createGenesisAllocs demo_addr))) = 1000000000 \<and>
    total_supply (balance_of (bc_WorldState (sv_chain nd))) = 0"
proof -
  obtain nd where nd: "mustCreateServer demo_P demo_deps 0 ''p'' 0 (Some demo_key) [] (NewPoWEngine 0) NewMemoryStorage demo_net = Some (Ok nd)"
    using demo_new
    by (auto simp: mustCreateServer_def NewServer_def demo_ms_def demo_pow_def demo_b0_genesis Let_def)
  have "enumerates (demo_addr # dev_addrs) (createGenesisAllocs demo_addr)"
    using dev_addrs_distinct(1) demo_addr_not_dev by (auto simp: enumerates_def createGenesisAllocs_value split: if_splits)
  from genesis_allocations_unused [OF demo_addr_not_dev this nd] nd show ?thesis by (simp add: genesisAllocTotal_def)
qed

section \<open>The mesh of developer mode\<close>

text \<open>Developer mode builds a full mesh: a broadcast on any of its four transports succeeds and
  puts the message, with the sender's address, into the channels of exactly the three others, in
  whatever order the map of peers is ranged over.\<close>

theorem dev_mesh_broadcast:
  assumes "t < 4" and "enumerates (ord (lt_peers (dev_network t))) (lt_peers (dev_network t))"
  shows "\<exists>n'. LocalTransport_Broadcast ord t p dev_network = Some (n', Ok ()) \<and>
    (\<forall>k. lt_consumeCh (n' k) =
       (if k < 4 \<and> k \<noteq> t then [\<lparr>rpc_From = lt_addr (dev_network t), rpc_Payload = p\<rparr>] else []))"
  using assms by (rule mesh_broadcast)

theorem dev_mesh_broadcast_witness:
  "\<exists>n'. LocalTransport_Broadcast (\<lambda>_. [''REMOTE_C'', ''REMOTE_A'', ''REMOTE_B'']) 0 [1, 2] dev_network = Some (n', Ok ()) \<and>
    (\<forall>k. lt_consumeCh (n' k) =
       (if k < 4 \<and> k \<noteq> 0 then [\<lparr>rpc_From = lt_addr (dev_network 0), rpc_Payload = [1, 2]\<rparr>] else []))"
  by (rule dev_mesh_broadcast) (auto simp: enumerates_def dev_network_peers)

section \<open>Production mode\<close>

lemma Start_init_sel [simp]:
  "sv_chain (Start_init nd) = sv_chain nd" "sv_memPool (Start_init nd) = sv_memPool nd"
  "sv_isValidator (Start_init nd) = sv_isValidator nd"
proof -
  have "sv_isValidator (fold (\<lambda>h. spawn (GoConsume h)) hs nd) = sv_isValidator nd" for hs
    by (induction hs arbitrary: nd) (simp_all add: spawn_def)
  then show "sv_isValidator (Start_init nd) = sv_isValidator nd" by (simp add: Start_init_def initTransports_def spawn_def)
qed (simp_all add: Start_init_def initTransports_def fold_spawn_sel)


definition demo_wires :: "(unit, unit, nat, unit) tcp_prims" where
  "demo_wires = \<lparr>net_Dial = (\<lambda>_ w. (w, Ok ())), net_Listen = (\<lambda>_ w. (w, Ok ())), ln_Accept = (\<lambda>_ _. None),
     conn_RemoteAddr = (\<lambda>_. ''B''), conn_Write = (\<lambda>_ _ w. (w, Ok ())), conn_Close = (\<lambda>_ w. w), NewDecoder = (\<lambda>_. 0),
     Decoder_Decode = (\<lambda>_ _. None)\<rparr>"

definition demo_flags :: Flags where
  "demo_flags = \<lparr>flagNodeID = ''n'', flagListenAddr = '':9000'', flagRPCAddr = [], flagMine = True,
     flagConsensus = ''pow'', flagDifficulty = 0, flagBlockTime = 1000, flagDataDir = ''d'', flagSeedNodes = ''a,b'', flagDevMode = False\<rparr>"


end
