(* ===== verification/NetworkTheorems.thy ===== *)
theory NetworkTheorems
  imports NodeTheorems Server_Props API
begin

text \<open>
  The properties of the server, the messages and the local transport: src/network/server.go,
  src/network/rpc.go and src/network/local_transport.go.
\<close>

section \<open>Runs of a node\<close>


text \<open>A turn of the validator loop on the chain with one block and the transfer pending.\<close>

definition demo_mined :: Header where
  "demo_mined = mined_header demo_P 0 (demo_sha [1]) demo_addr (NewPoWEngine 0) demo_h1"

lemma demo_least_nonce:
  "hd_Difficulty h = 16 \<Longrightarrow> least_nonce demo_P (pow_target (targetDifficulty (NewPoWEngine 0))) h 0 0"
  using demo_pow_ok [of "h\<lparr>hd_Nonce := 0\<rparr>" "NewPoWEngine 0"]
  by (simp add: least_nonce_def meets_def PoW_VerifyHeader_iff NewPoWEngine_def defaultDifficulty_def word_gt_0)

lemma demo_key_sel [simp]:
  "PublicKey_Address demo_P (PrivateKey_PublicKey demo_key) = Ok demo_addr"
  "CalculateDataHash demo_P [] [] = Ok zero_hash" "CalculateDataHash demo_P [demo_tx] [] = Ok (demo_sha [1])"
  "\<exists>sig. PrivateKey_Sign demo_P rnd demo_key d = Ok sig"
  using demo_tx_sender
  by (simp_all add: demo_key_def PrivateKey_PublicKey_def CalculateDataHash_def demo_sha_Nil demo_tx_Encode
      PrivateKey_Sign_def demo_Sign_def) (simp add: demo_tx_def)

text \<open>Without other goroutines in between, a turn of the validator loop is two steps of the node.\<close>

lemma createNewBlock_steps:
  assumes "createNewBlock P D now clk rnd nd = Some (nd', Ok ())" and "sv_isValidator nd" and "nd_mining nd = None"
  shows "(node_step P D)\<^sup>*\<^sup>* nd nd'"
proof -
  obtain b where b: "createNewBlock_prepare P (d_ce D) now clk rnd nd = Ok b"
    and c: "createNewBlock_commit P D b nd = Some (nd', Ok ())"
    using assms(1) by (auto simp: createNewBlock_def elim: node_tryE)
  have "node_step P D nd (nd\<lparr>nd_mining := Some b\<rparr>)" using assms(2,3) b by (intro node_own) (rule node_mine)
  moreover have "nd\<lparr>nd_mining := None\<rparr> = nd" using assms(3) by (cases nd) simp
  then have "node_step P D (nd\<lparr>nd_mining := Some b\<rparr>) nd'"
    using c by (intro node_own node_commit [of _ b P D nd' "Ok ()"]) simp_all
  ultimately show ?thesis by (meson rtranclp.rtrancl_refl rtranclp.rtrancl_into_rtrancl)
qed


lemma demo_mine_defs:
  "targetDifficulty (NewPoWEngine 0) = 16" "hd_Difficulty demo_mined = 16"
  by (simp_all add: NewPoWEngine_def defaultDifficulty_def demo_mined_def mined_header_def)


definition demo_start :: "(lt_ref, MemoryStore, PoWEngine, local_net) Node" where
  "demo_start = (demo_node 0 demo_bc0 (NewTxPool 10000))\<lparr>sv_peers := Map.empty\<rparr>"

lemma demo_empty:
  "pool_ok P (NewTxPool 10000)" "\<not> TxPool_Contains (NewTxPool 10000) h" "pending_hashes P (NewTxPool 10000) = []"
  "Pending (NewTxPool 10000) = []"
  by (simp_all add: NewTxPool_ok) (simp_all add: TxPool_Contains_def TxSortedMap_Contains_def pending_hashes_def Pending_def NewTxPool_def
      NewTxSortedMap_def NewList_def)

lemma demo_started:
  "sv_chain (Start_init demo_start) = demo_bc0" "sv_memPool (Start_init demo_start) = NewTxPool 10000"
  "sv_isValidator (Start_init demo_start)" "sv_PrivateKey (Start_init demo_start) = Some demo_key"
  "nd_mining (Start_init demo_start) = None"
  by (simp_all add: demo_start_def Start_init_def initTransports_def spawn_def demo_node_def Pending_def NewTxPool_def
      NewTxSortedMap_def NewList_def)

lemma demo_mined_start:
  "\<exists>nd. createNewBlock demo_P demo_deps 0 (\<lambda>_. False) 0 (Start_init demo_start) = Some (nd, Ok ()) \<and>
     length (bc_Headers (sv_chain nd)) = 2"
proof -
  let ?nd = "Start_init demo_start"
  define h where "h = mined_header demo_P 0 zero_hash demo_addr (NewPoWEngine 0) demo_h0"
  obtain sig where sig: "PrivateKey_Sign demo_P 0 demo_key (Header_Bytes demo_P (h\<lparr>hd_Nonce := 0\<rparr>)) = Ok sig"
    using demo_key_sel(4) by blast
  have "hd_Difficulty h = 16" by (simp add: h_def mined_header_def demo_mine_defs)
  then have h: "least_nonce demo_P (pow_target 16) h 0 0" using demo_least_nonce by (simp add: demo_mine_defs)
  obtain bc b where "createNewBlock demo_P demo_deps 0 (\<lambda>_. False) 0 ?nd =
      Some (spawn (GoBroadcastBlock b) (?nd\<lparr>sv_chain := bc, sv_memPool := ClearPending (sv_memPool ?nd)\<rparr>), Ok ())"
    "bc_Headers bc = bc_Headers (sv_chain ?nd) @ [h\<lparr>hd_Nonce := 0\<rparr>]"
    by (rule createNewBlock_extends [of demo_P ?nd "NewPoWEngine 0" 0 demo_key demo_addr zero_hash NewWorldState h 0 0 0 sig demo_deps])
      (use sig h in \<open>simp_all add: demo_started demo_bc0_sel demo_linked demo_empty pool_verified_def demo_sign_verifies
        demo_mine_defs h_def\<close>)
  then show ?thesis by (simp add: demo_started demo_bc0_sel)
qed

lemma demo_node_run: "\<exists>nd. (node_step demo_P demo_deps)\<^sup>*\<^sup>* (Start_init demo_start) nd \<and> length (bc_Headers (sv_chain nd)) = 2"
  using demo_mined_start createNewBlock_steps demo_started by blast


section \<open>Messages\<close>



text \<open>C38. Two kinds of messages end the process of a node in any state: a payload that cannot be decoded,
  because the main loop hands the missing message on to its handler, and a block without a
  header.\<close>

theorem Start_rpc_crashes:
  "(DefaultRPCDecodeFunc P rpc = Err e \<longrightarrow> Start_rpc P D ord now rpc nd = Some (nd, Panic NilDereference)) \<and>
   (DefaultRPCDecodeFunc P rpc = Ok \<lparr>dm_From = a, dm_Data = MsgBlock b\<rparr> \<and> b_Header b = None \<longrightarrow>
     Start_rpc P D ord now rpc nd = Some (nd, Panic NilDereference))"
  using Start_rpc_undecodable [of P rpc e D ord now nd] Start_rpc_headerless [of P rpc a b D ord now nd] by simp

theorem Start_rpc_crashes_witness:
  "Start_rpc demo_P demo_deps (\<lambda>_. []) 0 \<lparr>rpc_From = ''A'', rpc_Payload = []\<rparr> (demo_node 1 demo_bc1 demo_pool) =
     Some (demo_node 1 demo_bc1 demo_pool, Panic NilDereference)"
proof -
  have "\<exists>e. DefaultRPCDecodeFunc demo_P \<lparr>rpc_From = ''A'', rpc_Payload = []\<rparr> = Err e"
    by (simp add: DefaultRPCDecodeFunc_def demo_ungob_Message_def)
  then obtain e where "DefaultRPCDecodeFunc demo_P \<lparr>rpc_From = ''A'', rpc_Payload = []\<rparr> = Err e" by blast
  with Start_rpc_crashes [of demo_P "\<lparr>rpc_From = ''A'', rpc_Payload = []\<rparr>" e demo_deps "\<lambda>_. []" 0
      "demo_node 1 demo_bc1 demo_pool"] show ?thesis by simp
qed



section \<open>Transactions\<close>

lemma ProcessTransaction_returns: "\<exists>nd' r. ProcessTransaction P now tx nd = Some (nd', r)"
  by (simp add: ProcessTransaction_def node_try_def Let_def case_prod_unfold split: outcome.splits)

lemma set_fifo_prune: "set (fifo_prune n hs) \<subseteq> set hs"
  by (cases hs) (auto simp: fifo_prune_def)

lemma SetFirstSeen_exported: "tx_exported (SetFirstSeen t tx) = tx_exported tx"
  by (simp add: SetFirstSeen_def tx_exported_def)



text \<open>The pool identifies transactions by the hash of their data alone: once a transaction is admitted,
  every other transaction with the same data (in particular every plain transfer after the
  first) is silently ignored, whoever sent it and whatever its recipient, value and nonce.\<close>

theorem ProcessTransaction_same_data_ignored:
  assumes "ProcessTransaction P now tx1 nd = Some (nd1, Ok ())" and "tx_memo_ok P tx1" and "tx_memo_ok P tx2"
    and "pool_ok P (sv_memPool nd)" and "tx_Data tx2 = tx_Data tx1"
  shows "ProcessTransaction P now' tx2 nd1 = Some (nd1, Ok ())"
proof (rule ProcessTransaction_ignores)
  have "TxHasher_Hash P tx2 = TxHasher_Hash P tx1" using assms(5) by (simp add: TxHasher_Hash_def)
  then show "TxPool_Contains (sv_memPool nd1) (TxHasher_Hash P tx2)"
    using ProcessTransaction_remembers [OF assms(1,2,4)] by simp
qed (rule assms(3))

theorem ProcessTransaction_same_data_ignored_witness:
  "\<exists>nd1. ProcessTransaction demo_P 0 demo_tx demo_start = Some (nd1, Ok ()) \<and>
    ProcessTransaction demo_P 1 (demo_tx\<lparr>tx_Value := 1, tx_Nonce := 1\<rparr>) nd1 = Some (nd1, Ok ())"
proof -
  have d: "pool_ok demo_P (sv_memPool demo_start)" "Pending (sv_memPool demo_start) = []"
    "\<not> TxPool_Contains (sv_memPool demo_start) zero_hash" by (simp_all add: demo_start_def demo_empty)
  obtain nd1 r where pt: "ProcessTransaction demo_P 0 demo_tx demo_start = Some (nd1, r)"
    using ProcessTransaction_returns by blast
  from this demo_tx_memo d(1) have r: "r = Ok ()"
    by (cases rule: ProcessTransaction_cases) (simp_all add: demo_tx_Verify)
  have "tx_memo_ok demo_P (demo_tx\<lparr>tx_Value := 1, tx_Nonce := 1\<rparr>)"
    using demo_tx_memo by (simp add: tx_memo_ok_def TxHasher_Hash_def)
  with ProcessTransaction_same_data_ignored [OF pt [unfolded r] demo_tx_memo _ d(1)] pt r show ?thesis by simp
qed

text \<open>C37. A transaction that is admitted while the validator loop is mining is lost when the mined block is
  added: it is not in that block, the pending list is emptied without it, and because the pool
  still knows its hash, submitting it again has no effect.\<close>

theorem transaction_lost_while_mining:
  assumes "createNewBlock_prepare P (PoW_ConsensusEngine P) now clk rnd nd = Ok b"
    and "ProcessTransaction P now' tx nd = Some (nd1, Ok ())" and "createNewBlock_commit P D b nd1 = Some (nd2, Ok ())"
    and "tx_memo_ok P tx" and "pool_ok P (sv_memPool nd)" and "TxHasher_Hash P tx \<notin> set (pending_hashes P (sv_memPool nd))"
  shows "TxHasher_Hash P tx \<notin> TxHasher_Hash P ` set (b_Transactions b) \<and> Pending (sv_memPool nd2) = [] \<and>
    ProcessTransaction P now'' tx nd2 = Some (nd2, Ok ())"
proof -
  have b: "b_Transactions b = Pending (sv_memPool nd)" using pow.createNewBlock_prepare_block [OF assms(1)] by simp
  obtain bc where nd2: "nd2 = spawn (GoBroadcastBlock b) (nd1\<lparr>sv_chain := bc, sv_memPool := ClearPending (sv_memPool nd1)\<rparr>)"
    using assms(3) by (rule createNewBlock_commit_OkE)
  then have "TxPool_Contains (sv_memPool nd2) (TxHasher_Hash P tx)"
    using ProcessTransaction_remembers [OF assms(2,4,5)] by simp
  with assms(4) have "ProcessTransaction P now'' tx nd2 = Some (nd2, Ok ())" by (intro ProcessTransaction_ignores)
  with nd2 b assms(6) show ?thesis by (simp add: pending_hashes_def)
qed

lemma demo_mine_start:
  "\<exists>b bc. createNewBlock_prepare demo_P (PoW_ConsensusEngine demo_P) 0 (\<lambda>_. False) 0 (Start_init demo_start) = Ok b \<and>
     AddBlock demo_P (MemoryStore_Storage demo_P) (PoW_ConsensusEngine demo_P) b demo_bc0 = Some (bc, Ok ())"
  using demo_mined_start
  by (auto simp: createNewBlock_def demo_started elim!: node_tryE createNewBlock_commit_OkE)

theorem transaction_lost_while_mining_witness:
  "\<exists>nd :: (lt_ref, MemoryStore, PoWEngine, local_net) Node. Pending (sv_memPool nd) = [] \<and>
     ProcessTransaction demo_P 2 demo_tx nd = Some (nd, Ok ())"
proof -
  let ?nd = "Start_init demo_start"
  obtain b bc where b: "createNewBlock_prepare demo_P (PoW_ConsensusEngine demo_P) 0 (\<lambda>_. False) 0 ?nd = Ok b"
    and bc: "AddBlock demo_P (MemoryStore_Storage demo_P) (PoW_ConsensusEngine demo_P) b demo_bc0 = Some (bc, Ok ())"
    using demo_mine_start by blast
  obtain nd1 r where pt: "ProcessTransaction demo_P 1 demo_tx ?nd = Some (nd1, r)" using ProcessTransaction_returns by blast
  have pool: "pool_ok demo_P (sv_memPool ?nd)" "TxHasher_Hash demo_P demo_tx \<notin> set (pending_hashes demo_P (sv_memPool ?nd))"
    by (simp_all add: demo_started demo_empty pending_hashes_def)
  from pt demo_tx_memo pool(1) have r: "r = Ok ()" and nd1: "sv_chain nd1 = demo_bc0"
    by (cases rule: ProcessTransaction_cases; simp add: demo_tx_Verify demo_started)+
  obtain nd2 where "createNewBlock_commit demo_P demo_deps b nd1 = Some (nd2, Ok ())"
    using bc nd1 by (simp add: createNewBlock_commit_def)
  with transaction_lost_while_mining [OF b pt [unfolded r] _ demo_tx_memo pool] show ?thesis by blast
qed


lemma demo_exec_poor: "\<exists>e. executeTransaction demo_P demo_tx NewWorldState = Some (NewWorldState, Err e)"
proof -
  have tx: "tx_Data demo_tx = []" "tx_Value demo_tx = 3" "tx_To demo_tx = demo_dest"
    by (simp_all add: demo_tx_def NewTransaction_def)
  have "\<exists>e. Transfer demo_addr demo_dest 3 NewWorldState = (NewWorldState, Err e)"
    by (cases rule: Transfer_cases [of 3 demo_addr demo_dest NewWorldState]) (auto simp: NewWorldState_def GetBalance_def)
  then show ?thesis using tx
    by (auto simp: executeTransaction_def execute_code_def execute_value_def with_sender_def demo_tx_sender)
qed

lemma demo_tick: "\<exists>nd'. tick demo_P demo_deps (demo_node 0 demo_bc0 demo_pool) nd'"
proof -
  let ?nd = "demo_node 0 demo_bc0 demo_pool"
  define h where "h = mined_header demo_P 0 (demo_sha [1]) demo_addr (NewPoWEngine 0) demo_h0"
  obtain sig where sig: "PrivateKey_Sign demo_P 0 demo_key (Header_Bytes demo_P (h\<lparr>hd_Nonce := 0\<rparr>)) = Ok sig"
    using demo_key_sel(4) by blast
  have "hd_Difficulty h = 16" by (simp add: h_def mined_header_def demo_mine_defs)
  then have h: "least_nonce demo_P (pow_target 16) h 0 0" using demo_least_nonce by (simp add: demo_mine_defs)
  obtain b where prep: "createNewBlock_prepare demo_P (PoW_ConsensusEngine demo_P) 0 (\<lambda>_. False) 0 ?nd = Ok b"
    and b: "b_Header b = Some (h\<lparr>hd_Nonce := 0\<rparr>)" "b_Transactions b = Pending (sv_memPool ?nd)"
      "unat (hd_Height (h\<lparr>hd_Nonce := 0\<rparr>)) = length (bc_Headers (sv_chain ?nd))"
      "hd_PrevBlockHash (h\<lparr>hd_Nonce := 0\<rparr>) = BlockHasher_Hash demo_P (last (bc_Headers (sv_chain ?nd)))"
      "snd (PoW_VerifyHeader demo_P (h\<lparr>hd_Nonce := 0\<rparr>) (NewPoWEngine 0)) = Ok ()" "Block_Verify demo_P b = Ok ()"
    by (rule mined_block_valid [of demo_P ?nd "NewPoWEngine 0" demo_key demo_addr "demo_sha [1]" h 0 0 0 sig])
      (use sig h in \<open>simp_all add: demo_bc0_sel demo_linked pool_verified_def demo_pool_sel demo_tx_Verify demo_sign_verifies
        demo_mine_defs h_def\<close>)
  have lk: "linked demo_P (bc_Headers demo_bc0)" by (simp add: demo_bc0_sel demo_linked)
  have "PoW_VerifyHeader demo_P (h\<lparr>hd_Nonce := 0\<rparr>) (NewPoWEngine 0) = (NewPoWEngine 0, Ok ())"
    using b(5) by (simp add: PoW_VerifyHeader_def)
  then have "snd (ValidateBlockLocked demo_P (PoW_ConsensusEngine demo_P) b demo_bc0) = Ok () \<and>
      bc_WorldState (fst (ValidateBlockLocked demo_P (PoW_ConsensusEngine demo_P) b demo_bc0)) = NewWorldState"
    using ValidateBlockLocked_upto_consensus [OF b(1) next_height [OF lk b(3) [unfolded demo_node_sel]]
        b(4) [unfolded demo_node_sel], of "PoW_ConsensusEngine demo_P"] b(6)
    by (simp add: demo_bc0_sel verify_consensus_def PoW_ConsensusEngine_def)
  then obtain bc e where "AddBlock demo_P (MemoryStore_Storage demo_P) (PoW_ConsensusEngine demo_P) b demo_bc0 = Some (bc, Err e)"
    using demo_exec_poor
    by (cases "ValidateBlockLocked demo_P (PoW_ConsensusEngine demo_P) b demo_bc0") (auto simp: AddBlock_def b(2) demo_pool_sel)
  then have "createNewBlock demo_P demo_deps 0 (\<lambda>_. False) 0 ?nd = Some (?nd\<lparr>sv_chain := bc\<rparr>, Err e)"
    using prep by (simp add: createNewBlock_def createNewBlock_commit_def)
  then show ?thesis using tickI by fastforce
qed


section \<open>Transports\<close>

lemma local_send:
  "lt_peers (n t) a = Some k \<Longrightarrow> length (lt_consumeCh (n k)) < consumeCh_cap \<Longrightarrow>
     LocalTransport_SendMessage t a p n =
       Some (n(k := (n k)\<lparr>lt_consumeCh := lt_consumeCh (n k) @ [\<lparr>rpc_From = lt_addr (n t), rpc_Payload = p\<rparr>]\<rparr>), Ok ())"
  by (simp add: LocalTransport_SendMessage_def chan_send_def)

text \<open>Two messages sent over one local transport to one peer, whose channel is empty and not otherwise
  used, are received by that peer in the order they were sent, unchanged and with the sender's
  address.\<close>

theorem LocalTransport_fifo:
  assumes "LocalTransport_SendMessage t a p n = Some (n1, Ok ())" and "LocalTransport_SendMessage t a q n1 = Some (n2, Ok ())"
    and "lt_peers (n t) a = Some k" and "lt_consumeCh (n k) = []"
  shows "\<exists>n3 n4. LocalTransport_Consume k n2 = Some (\<lparr>rpc_From = lt_addr (n t), rpc_Payload = p\<rparr>, n3) \<and>
    LocalTransport_Consume k n3 = Some (\<lparr>rpc_From = lt_addr (n t), rpc_Payload = q\<rparr>, n4) \<and> lt_consumeCh (n4 k) = []"
  using lt.fifo [of undefined t a p n n1 q n2 k] assms
  by (auto simp: LocalTransport_Transport_def LocalTransport_Addr_def)

theorem LocalTransport_fifo_witness:
  "\<exists>n2 n3 n4. LocalTransport_Consume 1 n2 = Some (\<lparr>rpc_From = ''A'', rpc_Payload = [1]\<rparr>, n3) \<and>
    LocalTransport_Consume 1 n3 = Some (\<lparr>rpc_From = ''A'', rpc_Payload = [2]\<rparr>, n4) \<and> lt_consumeCh (n4 1) = []"
proof -
  have r: "lt_peers (demo_net 0) ''B'' = Some 1" "lt_consumeCh (demo_net 1) = []" "lt_addr (demo_net 0) = ''A''"
    by (simp_all add: demo_net_def)
  obtain n1 where n1: "LocalTransport_SendMessage 0 ''B'' [1] demo_net = Some (n1, Ok ())"
    and c: "lt_peers (n1 0) ''B'' = Some 1" "length (lt_consumeCh (n1 1)) = 1"
    using r by (simp add: local_send consumeCh_cap_def)
  obtain n2 where n2: "LocalTransport_SendMessage 0 ''B'' [2] n1 = Some (n2, Ok ())"
    using c by (simp add: local_send consumeCh_cap_def)
  from LocalTransport_fifo [OF n1 n2 r(1,2)] r(3) show ?thesis by auto
qed

section \<open>Catching up with a peer\<close>

lemma AddBlock_Ok_header:
  assumes "AddBlock P so ce b bc = Some (bc', Ok ())"
  shows "\<exists>h. b_Header b = Some h \<and> bc_Headers bc' = bc_Headers bc @ [h]"
  using assms
proof (cases rule: AddBlockE)
  case (stored bc1 ws h c)
  have "bc_Headers bc1 = bc_Headers bc" using ValidateBlockLocked_frame [of P ce b bc] stored(1) by auto
  with stored(5) show ?thesis by (auto elim!: addBlockWithoutValidationLocked_OkE)
qed simp_all

lemma AddBlocks_headers:
  "AddBlocks P so ce bs bc = Some (bc', Ok ()) \<Longrightarrow> bc_Headers bc' = bc_Headers bc @ map (\<lambda>b. the (b_Header b)) bs"
proof (induction bs arbitrary: bc)
  case (Cons b bs)
  then obtain bc1 where bc1: "AddBlock P so ce b bc = Some (bc1, Ok ())" and "AddBlocks P so ce bs bc1 = Some (bc', Ok ())"
    by (auto simp: then_exec_eq_Ok)
  with Cons.IH AddBlock_Ok_header [OF bc1] show ?case by auto
qed simp

text \<open>The blocks a chain serves have the headers of the chain.\<close>

lemma served_headers:
  assumes "chain_ok P so bc" and "length bs = length (bc_Headers bc) - k" and "k \<le> length (bc_Headers bc)"
    and "\<And>i. i < length bs \<Longrightarrow> GetBlock so bc (of_nat (k + i)) = Ok (bs ! i)"
  shows "map (\<lambda>b. the (b_Header b)) bs = drop k (bc_Headers bc)"
proof (rule nth_equalityI)
  fix i assume "i < length (map (\<lambda>b. the (b_Header b)) bs)"
  then have i: "i < length bs" by simp
  have "length (bc_Headers bc) \<le> 2 ^ 32" using assms(1) by (simp add: chain_ok_def linked_def)
  then have u: "unat (of_nat (k + i) :: u32) = k + i" using i assms(2,3) by (intro u32_of_nat) simp
  have "store_agrees so (bc_store bc) (bc_Headers bc)" using assms(1) by (simp add: chain_ok_def)
  from store_agrees_in [OF this, of "of_nat (k + i)"] u i assms(2-4)
  have "b_Header (bs ! i) = Some (bc_Headers bc ! (k + i))" by (fastforce simp: GetBlock_def)
  with i assms(2,3) show "map (\<lambda>b. the (b_Header b)) bs ! i = drop k (bc_Headers bc) ! i" by simp
qed (use assms(2) in simp)

text \<open>A message and its answer between two idle, connected transports.\<close>

lemma local_exchange:
  assumes "lt_peers (n a) (lt_addr (n b)) = Some b" and "lt_peers (n b) (lt_addr (n a)) = Some a"
    and idle: "lt_consumeCh (n a) = []" "lt_consumeCh (n b) = []" "a \<noteq> b"
  shows "\<exists>n1 n2 n3 n4. LocalTransport_SendMessage a (lt_addr (n b)) p n = Some (n1, Ok ()) \<and>
    LocalTransport_Consume b n1 = Some (\<lparr>rpc_From = lt_addr (n a), rpc_Payload = p\<rparr>, n2) \<and>
    LocalTransport_SendMessage b (lt_addr (n a)) q n2 = Some (n3, Ok ()) \<and>
    LocalTransport_Consume a n3 = Some (\<lparr>rpc_From = lt_addr (n b), rpc_Payload = q\<rparr>, n4)"
proof -
  define n1 where "n1 = n(b := (n b)\<lparr>lt_consumeCh := [\<lparr>rpc_From = lt_addr (n a), rpc_Payload = p\<rparr>]\<rparr>)"
  define n2 where "n2 = n1(b := (n1 b)\<lparr>lt_consumeCh := []\<rparr>)"
  define n3 where "n3 = n2(a := (n2 a)\<lparr>lt_consumeCh := [\<lparr>rpc_From = lt_addr (n b), rpc_Payload = q\<rparr>]\<rparr>)"
  have "LocalTransport_SendMessage a (lt_addr (n b)) p n = Some (n1, Ok ())"
    using local_send [of n a "lt_addr (n b)" b p] assms(1) idle(2) by (simp add: n1_def consumeCh_cap_def)
  moreover have "LocalTransport_Consume b n1 = Some (\<lparr>rpc_From = lt_addr (n a), rpc_Payload = p\<rparr>, n2)"
    by (simp add: LocalTransport_Consume_def n1_def n2_def)
  moreover have "lt_peers (n2 b) (lt_addr (n a)) = Some a" "lt_consumeCh (n2 a) = []" "lt_addr (n2 b) = lt_addr (n b)"
    using assms(2) idle(1,3) by (simp_all add: n1_def n2_def)
  then have "LocalTransport_SendMessage b (lt_addr (n a)) q n2 = Some (n3, Ok ())"
    using local_send [of n2 b "lt_addr (n a)" a q] by (simp add: n3_def consumeCh_cap_def)
  moreover have "\<exists>n4. LocalTransport_Consume a n3 = Some (\<lparr>rpc_From = lt_addr (n b), rpc_Payload = q\<rparr>, n4)"
    by (simp add: LocalTransport_Consume_def n3_def)
  ultimately show ?thesis by blast
qed

lemma sync_heights:
  assumes "bc_Headers A = take k (bc_Headers B)" "0 < k" "k < length (bc_Headers B)" and "length (bc_Headers B) < 2 ^ 32"
  shows "Height A + 1 = of_nat k" "unat (Height B) = length (bc_Headers B) - 1"
    "Height A < Height B" "unat (Height A + 1) = k" "Height B < - 1"
proof -
  have ne: "bc_Headers B \<noteq> []" using assms(3) by auto
  have hA: "unat (Height A) = k - 1" and k: "Height A + 1 = of_nat k"
    using assms ne unat_heightLocked [of A] by (auto simp: Height_def heightLocked_def)
  have hB: "unat (Height B) = length (bc_Headers B) - 1"
    using ne unat_heightLocked [of B] assms(4) by (simp add: Height_def)
  show "Height A < Height B" "unat (Height A + 1) = k" "Height B < - 1"
    using hA k hB assms(2-4) u32_of_nat [of k]
    by (auto simp: word_less_nat_alt unsigned_minus_1_eq_mask mask_eq_exp_minus_1)
  show "Height A + 1 = of_nat k" "unat (Height B) = length (bc_Headers B) - 1" by (rule k, rule hB)
qed


lemma Block_wire_exported: "Block_wire P (block_exported b) = Block_wire P b"
proof -
  have "Transaction_wire P (tx_exported tx) = Transaction_wire P tx" for tx
    by (simp add: Transaction_wire_def tx_exported_def)
  then have "mapM_outcome (Transaction_wire P) (map tx_exported txs) = mapM_outcome (Transaction_wire P) txs" for txs
    by (induction txs) simp_all
  then show ?thesis by (simp add: Block_wire_def block_exported_def)
qed

lemma demo_stored: "\<exists>b. GetBlock (MemoryStore_Storage demo_P) demo_bc1 1 = Ok b \<and> block_exported b = demo_b1"
proof -
  have ex: "block_exported demo_b1 = demo_b1" "b_Header demo_b1 = Some demo_h1" "hd_Height demo_h1 = 1"
    by (simp_all add: block_exported_def demo_b1_def demo_block_def NewBlock_def demo_h1_def demo_header_def)
  from demo_bc1_sel(5) [unfolded demo_ms_def] show ?thesis
  proof (cases rule: AddBlockE)
    case (stored bc1 ws h c)
    from stored(5) obtain h' b1 s td where b1: "b_Header demo_b1 = Some h'" "b_Header b1 = Some h'"
      "block_exported b1 = block_exported demo_b1"
      and put: "st_Put (MemoryStore_Storage demo_P) b1 (bc_store (bc1\<lparr>bc_consensus := c,
        bc_WorldState := AddBalance (hd_Coinbase h) 5 ws\<rparr>)) = (s, Ok ())"
      and bc: "demo_bc1 = bc1\<lparr>bc_consensus := c, bc_WorldState := AddBalance (hd_Coinbase h) 5 ws\<rparr>
        \<lparr>bc_Headers := bc_Headers (bc1\<lparr>bc_consensus := c, bc_WorldState := AddBalance (hd_Coinbase h) 5 ws\<rparr>) @ [h'],
          bc_totalDifficulty := td, bc_store := s\<rparr>"
      by (rule addBlockWithoutValidationLocked_OkE)
    have "bc_store demo_bc1 = s" unfolding bc by simp
    with ms.get_put_same [OF put b1(2)] b1 ex show ?thesis by (auto simp: GetBlock_def)
  qed simp_all
qed


end
