(* ===== verification/DevMode.thy ===== *)
theory DevMode
  imports MainProg Server_Props "HOL-Library.Sublist"
begin

text \<open>
  The running system of developer mode, \<open>runDevMode\<close> of src/main.go: four servers that share the
  local transports and one consensus engine object, and the goroutine that sends test
  transactions. One of them moves at a time. Before a server moves, its node is attached to the
  current transports and engine, and what it did to them is handed on to the others. The
  invariant of the system is that every block anywhere belongs to the chain of the one miner.
\<close>

section \<open>Definitions\<close>

definition attach ::
  "consensus_choice \<Rightarrow> local_net \<Rightarrow> (lt_ref, 's, consensus_choice, local_net) Node \<Rightarrow> (lt_ref, 's, consensus_choice, local_net) Node" where
  "attach e n nd = nd\<lparr>sv_chain := (sv_chain nd)\<lparr>bc_consensus := Some e\<rparr>, nd_net := n\<rparr>"

text \<open>
  The goroutine of a broadcast encodes its message and then sends it over every transport to every
  peer; another goroutine may run between two sends, and the first failed send ends it.
\<close>

definition broadcast_payload :: "'x net_prims_scheme \<Rightarrow> 'h go_task \<Rightarrow> byte list res option" where
  "broadcast_payload P t =
     (case t of
        GoBroadcastBlock b \<Rightarrow>
          Some (bind_outcome (Block_Encode P b) (\<lambda>buf. Ok (Message_Bytes P (NewMessage MessageTypeBlock buf))))
      | GoBroadcastTx tx \<Rightarrow>
          Some (bind_outcome (Transaction_Encode P tx) (\<lambda>buf. Ok (Message_Bytes P (NewMessage MessageTypeTx buf))))
      | _ \<Rightarrow> None)"

definition broadcast_sends :: "((NetAddr \<rightharpoonup> lt_ref) \<Rightarrow> NetAddr list) \<Rightarrow> local_net \<Rightarrow> lt_ref list \<Rightarrow> (lt_ref \<times> NetAddr) list" where
  "broadcast_sends ord n ts = concat (map (\<lambda>t. map (Pair t) (ord (lt_peers (n t)))) ts)"

text \<open>
  \<open>ord\<close> is the order in which a map of peers happens to be ranged over in the step. A broadcast runs
  as a whole, as one act of its server, or is taken out of the server and sends step by step.
\<close>

inductive dev_step :: "'x net_prims_scheme \<Rightarrow> 'd leveldb \<Rightarrow> 'd dev_system \<Rightarrow> 'd dev_system \<Rightarrow> bool"
  for P :: "'x net_prims_scheme" and L :: "'d leveldb" where
  dev_peer_acts: "i < length (ds_peers s) \<Longrightarrow>
    node_act P (dev_deps P ord (MemoryStore_Storage P)) (attach (ds_engine s) (ds_net s) (ds_peers s ! i)) nd \<Longrightarrow>
    bc_consensus (sv_chain nd) = Some e \<Longrightarrow>
    dev_step P L s (s\<lparr>ds_peers := (ds_peers s)[i := nd], ds_net := nd_net nd, ds_engine := e\<rparr>)"
| dev_local_acts: "node_act P (dev_deps P ord (LevelDBStore_Storage P L)) (attach (ds_engine s) (ds_net s) (ds_local s)) nd \<Longrightarrow>
    bc_consensus (sv_chain nd) = Some e \<Longrightarrow>
    dev_step P L s (s\<lparr>ds_local := nd, ds_net := nd_net nd, ds_engine := e\<rparr>)"
| dev_generates: "txGeneratorLoop_turn P (LocalTransport_Transport ord) rnd generated 1 (LocalTransport_Addr (ds_net s) 0) (ds_net s)
      = Some (n, r) \<Longrightarrow> \<not> is_Panic r \<Longrightarrow>
    dev_step P L s (s\<lparr>ds_net := n\<rparr>)"
| dev_peer_broadcasts: "i < length (ds_peers s) \<Longrightarrow> nd_go (ds_peers s ! i) = xs @ t # ys \<Longrightarrow>
    broadcast_payload P t = Some (Ok p) \<Longrightarrow>
    dev_step P L s (s\<lparr>ds_peers := (ds_peers s)[i := (ds_peers s ! i)\<lparr>nd_go := xs @ ys\<rparr>],
      ds_sends := ds_sends s @ [(p, broadcast_sends ord (ds_net s) (sv_Transports (ds_peers s ! i)))]\<rparr>)"
| dev_local_broadcasts: "nd_go (ds_local s) = xs @ t # ys \<Longrightarrow> broadcast_payload P t = Some (Ok p) \<Longrightarrow>
    dev_step P L s (s\<lparr>ds_local := (ds_local s)\<lparr>nd_go := xs @ ys\<rparr>,
      ds_sends := ds_sends s @ [(p, broadcast_sends ord (ds_net s) (sv_Transports (ds_local s)))]\<rparr>)"
| dev_sends: "ds_sends s = xs @ (p, (t, a) # rest) # ys \<Longrightarrow> LocalTransport_SendMessage t a p (ds_net s) = Some (n, r) \<Longrightarrow>
    dev_step P L s (s\<lparr>ds_net := n, ds_sends := xs @ (p, if r = Ok () then rest else []) # ys\<rparr>)"

section \<open>Blocks and messages of one chain\<close>

definition block_on :: "Header list \<Rightarrow> Block \<Rightarrow> bool" where
  "block_on hs b \<longleftrightarrow> (\<exists>h. b_Header b = Some h \<and> unat (hd_Height h) < length hs \<and> hs ! unat (hd_Height h) = h)"

text \<open>The messages developer mode sends: no status, no peer lists.\<close>

primrec data_on :: "Header list \<Rightarrow> message_data \<Rightarrow> bool" where
  "data_on hs (MsgTx tx) = True"
| "data_on hs (MsgBlock b) = block_on hs b"
| "data_on hs (MsgGetBlocks g) = True"
| "data_on hs (MsgBlocks bs) = list_all (block_on hs) bs"
| "data_on hs (MsgStatus st) = False"
| "data_on hs MsgGetStatus = False"
| "data_on hs MsgGetPeers = False"
| "data_on hs (MsgSharePeers as) = False"

definition rpc_on :: "'x net_prims_scheme \<Rightarrow> Header list \<Rightarrow> RPC \<Rightarrow> bool" where
  "rpc_on P hs rpc \<longleftrightarrow> (\<exists>d. DefaultRPCDecodeFunc P rpc = Ok \<lparr>dm_From = rpc_From rpc, dm_Data = d\<rparr> \<and> data_on hs d)"

text \<open>The mesh stays as it was built; the channels are within their capacity.\<close>

definition net_on :: "'x net_prims_scheme \<Rightarrow> Header list \<Rightarrow> local_net \<Rightarrow> bool" where
  "net_on P hs n \<longleftrightarrow>
     (\<forall>t. lt_peers (n t) = lt_peers (dev_network t) \<and> lt_addr (n t) = lt_addr (dev_network t) \<and>
        length (lt_consumeCh (n t)) \<le> consumeCh_cap \<and> list_all (rpc_on P hs) (lt_consumeCh (n t)))"

primrec task_on :: "Header list \<Rightarrow> 'h go_task \<Rightarrow> bool" where
  "task_on hs GoValidatorLoop = True"
| "task_on hs (GoRPCServer a) = True"
| "task_on hs (GoConsume h) = True"
| "task_on hs GoDiscoveryLoop = True"
| "task_on hs (GoBroadcastBlock b) = block_on hs b"
| "task_on hs (GoBroadcastTx tx) = True"
| "task_on hs (GoConnect h a) = False"

text \<open>A node whose chain is a prefix of \<open>hs\<close> and that holds nothing but blocks of \<open>hs\<close>.\<close>

definition node_on ::
  "'x net_prims_scheme \<Rightarrow> 's Storage \<Rightarrow> Header list \<Rightarrow> ('h, 's, 'c, 'n) Node \<Rightarrow> bool" where
  "node_on P so hs nd \<longleftrightarrow> chain_sound P so (sv_chain nd) \<and> prefix (bc_Headers (sv_chain nd)) hs \<and>
     pool_ok P (sv_memPool nd) \<and> pool_verified P (sv_memPool nd) \<and>
     pool_maxLength (sv_memPool nd) = defaultTxPoolMaxLength \<and>
     list_all (rpc_on P hs) (sv_rpcCh nd) \<and> list_all (task_on hs) (nd_go nd) \<and> sv_SeedNodes nd = []"

lemma block_on_mono: "block_on hs b \<Longrightarrow> prefix hs hs' \<Longrightarrow> block_on hs' b"
  by (auto simp: block_on_def prefix_def nth_append)

lemma data_on_mono: "data_on hs d \<Longrightarrow> prefix hs hs' \<Longrightarrow> data_on hs' d"
  by (cases d) (auto simp: list_all_iff intro: block_on_mono)

lemma rpc_on_mono: "rpc_on P hs rpc \<Longrightarrow> prefix hs hs' \<Longrightarrow> rpc_on P hs' rpc"
  by (auto simp: rpc_on_def intro: data_on_mono)

lemma net_on_mono: "net_on P hs n \<Longrightarrow> prefix hs hs' \<Longrightarrow> net_on P hs' n"
  by (auto simp: net_on_def list_all_iff intro: rpc_on_mono)

lemma task_on_mono: "task_on hs t \<Longrightarrow> prefix hs hs' \<Longrightarrow> task_on hs' t"
  by (cases t) (auto intro: block_on_mono)

lemma node_on_mono: "node_on P so hs nd \<Longrightarrow> prefix hs hs' \<Longrightarrow> node_on P so hs' nd"
  by (auto simp: node_on_def list_all_iff intro: rpc_on_mono task_on_mono prefix_order.order_trans)

lemma block_on_store:
  assumes "store_sound so st hs" and "linked P hs" and "st_Get so st n = Ok b"
  shows "block_on hs b"
proof -
  have n: "unat n < length hs" "b_Header b = Some (hs ! unat n)" using assms(1,3) by (auto simp: store_sound_def)
  moreover from n(1) have "unat (hd_Height (hs ! unat n)) = unat n" using assms(2) by (simp add: linked_def)
  ultimately show ?thesis by (auto simp: block_on_def)
qed

lemma prefix_grows:
  assumes "prefix hs hs'" and "block_on hs' b" and "b_Header b = Some h" and "unat (hd_Height h) = length hs"
  shows "prefix (hs @ [h]) hs'"
  using assms by (auto simp: block_on_def prefix_def nth_append append_eq_conv_conj dest: sym) (metis append_Cons append_Nil neq_Nil_conv nth_Cons_0)

section \<open>Sending\<close>

text \<open>What is assumed of \<open>gob\<close>: its round-trip laws, and that it encodes every envelope.\<close>

definition gob_laws :: "'x net_prims_scheme \<Rightarrow> bool" where
  "gob_laws P \<longleftrightarrow> marshal_roundtrip P \<and> gob_tx_roundtrip P \<and> gob_block_roundtrip P \<and> gob_messages_roundtrip P \<and>
     (\<forall>m. snd (gob_Message P m) = Ok ())"

lemma block_exported_on [simp]: "block_on hs (block_exported b) = block_on hs b"
  by (simp add: block_on_def)

lemma exported_on: "data_on hs d \<Longrightarrow> data_on hs (exported_data d)"
  by (cases d) (simp_all add: list_all_iff)

lemma sent_on:
  assumes "gob_laws P" and "encode_data P d = Ok msg" and "data_on hs d"
  shows "rpc_on P hs \<lparr>rpc_From = a, rpc_Payload = Message_Bytes P msg\<rparr>"
proof -
  have "DefaultRPCDecodeFunc P \<lparr>rpc_From = a, rpc_Payload = Message_Bytes P msg\<rparr> = Ok \<lparr>dm_From = a, dm_Data = exported_data d\<rparr>"
    using assms(1,2) by (intro RPC_roundtrip) (simp_all add: gob_laws_def)
  then show ?thesis using exported_on [OF assms(3)] by (simp add: rpc_on_def)
qed

lemma chan_send_on:
  assumes "chan_send t rpc n = Some n'" and "net_on P hs n" and "rpc_on P hs rpc"
  shows "net_on P hs n'"
  using assms by (auto simp: chan_send_def net_on_def list_all_iff split: if_splits)

lemma SendMessage_on:
  assumes "LocalTransport_SendMessage t a p n = Some (n', r)" and "net_on P hs n"
    and "\<And>f. rpc_on P hs \<lparr>rpc_From = f, rpc_Payload = p\<rparr>"
  shows "net_on P hs n'"
  using assms by (auto simp: LocalTransport_SendMessage_def split: option.splits intro: chan_send_on)

lemma Broadcast_loop_on:
  assumes "Broadcast_loop t p ts n = Some (n', r)" and "net_on P hs n"
    and "\<And>f. rpc_on P hs \<lparr>rpc_From = f, rpc_Payload = p\<rparr>"
  shows "net_on P hs n'"
  using assms(1,2)
proof (induction ts arbitrary: n)
  case (Cons k ts)
  from Cons.prems show ?case
    by (auto elim!: then_execE intro: SendMessage_on [OF _ _ assms(3)] Cons.IH)
qed simp

lemma LocalTransport_sel [simp]:
  "tr_SendMessage (LocalTransport_Transport ord) = LocalTransport_SendMessage"
  "tr_Broadcast (LocalTransport_Transport ord) = LocalTransport_Broadcast ord"
  "tr_Consume (LocalTransport_Transport ord) = LocalTransport_Consume"
  by (simp_all add: LocalTransport_Transport_def)

lemma Server_send_on:
  assumes "Server_send P (LocalTransport_Transport ord) a msg nd = Some (nd', r)" and "net_on P hs (nd_net nd)"
    and "gob_laws P" and "encode_data P d = Ok msg" and "data_on hs d"
  shows "net_on P hs (nd_net nd')"
  using assms(1,2)
  by (auto simp: Server_send_def on_net_def split: option.splits intro: SendMessage_on [OF _ _ sent_on [OF assms(3-5)]])

lemma Server_broadcast_on:
  assumes "Server_broadcast_loop (LocalTransport_Transport ord) p hs' nd = Some (nd', r)" and "net_on P hs (nd_net nd)"
    and "\<And>f. rpc_on P hs \<lparr>rpc_From = f, rpc_Payload = p\<rparr>"
  shows "net_on P hs (nd_net nd')"
  using assms(1,2)
proof (induction hs' arbitrary: nd)
  case (Cons t ts)
  have step: "net_on P hs (nd_net nd1)" if "on_net (LocalTransport_Broadcast ord t p) nd = Some (nd1, q)" for nd1 q
    using that Cons.prems(2) assms(3) by (auto simp: on_net_def LocalTransport_Broadcast_def intro: Broadcast_loop_on)
  from Cons.prems show ?case by (auto elim!: then_execE intro: step Cons.IH)
qed simp

lemma run_task_on:
  assumes "run_task P (LocalTransport_Transport ord) t nd = Some (nd', r)" and "net_on P hs (nd_net nd)"
    and "gob_laws P" and "task_on hs t" and "sv_SeedNodes nd = []"
  shows "net_on P hs (nd_net nd')"
proof (cases t)
  case (GoBroadcastBlock b)
  have "rpc_on P hs \<lparr>rpc_From = f, rpc_Payload = Message_Bytes P (NewMessage MessageTypeBlock buf)\<rparr>"
    if "Block_Encode P b = Ok buf" for f buf
    using that assms(4) GoBroadcastBlock by (intro sent_on [OF assms(3), of "MsgBlock b"]) simp_all
  then show ?thesis using assms(1,2) GoBroadcastBlock
    by (auto simp: drop_err_Some broadcastBlock_def Server_broadcast_def elim!: node_tryE intro: Server_broadcast_on)
next
  case (GoBroadcastTx tx)
  have "rpc_on P hs \<lparr>rpc_From = f, rpc_Payload = Message_Bytes P (NewMessage MessageTypeTx buf)\<rparr>"
    if "Transaction_Encode P tx = Ok buf" for f buf
    using that by (intro sent_on [OF assms(3), of "MsgTx tx"]) simp_all
  then show ?thesis using assms(1,2) GoBroadcastTx
    by (auto simp: drop_err_Some broadcastTx_def Server_broadcast_def elim!: node_tryE intro: Server_broadcast_on)
qed (use assms in \<open>auto simp: discoveryLoop_turn_def bootstrap_def\<close>)

lemma requestBlocksSync_on:
  assumes "requestBlocksSync P (LocalTransport_Transport ord) a nd = Some (nd', r)" and "net_on P hs (nd_net nd)" and "gob_laws P"
  shows "net_on P hs (nd_net nd')"
  using assms(1,2)
  by (auto simp: requestBlocksSync_def elim!: node_tryE
      intro: Server_send_on [OF _ _ assms(3), where d = "MsgGetBlocks \<lparr>gb_From = Height (sv_chain nd) + 1, gb_To = 0\<rparr>"])

lemma GetBlocks_loop_on:
  assumes "GetBlocks_loop so bc i to acc = Some (Ok bs)" and "list_all (block_on hs) acc"
    and "\<And>n b. GetBlock so bc n = Ok b \<Longrightarrow> block_on hs b"
  shows "list_all (block_on hs) bs"
proof -
  define Q where "Q so bc acc r \<longleftrightarrow> (\<forall>bs. r = Ok bs \<longrightarrow> list_all (block_on hs) acc \<longrightarrow>
      (\<forall>n b. GetBlock so bc n = Ok b \<longrightarrow> block_on hs b) \<longrightarrow> list_all (block_on hs) bs)"
    for so :: "'a Storage" and bc :: "('a, 'b) Blockchain" and acc and r :: "Block list res"
  have "Q so bc acc (Ok bs)"
  proof (rule GetBlocks_loop.raw_induct [where P = "\<lambda>so bc i to acc r. Q so bc acc r", OF _ assms(1)])
    fix loop :: "'a Storage \<Rightarrow> ('a, 'b) Blockchain \<Rightarrow> u32 \<Rightarrow> u32 \<Rightarrow> Block list \<Rightarrow> Block list res option"
      and so bc i to acc r
    assume IH: "\<And>so bc i to acc r. loop so bc i to acc = Some r \<Longrightarrow> Q so bc acc r"
      and eq: "(if i \<le> to
        then (case GetBlock so bc i of
                Ok block \<Rightarrow> loop so bc (i + 1) to (acc @ [block])
              | Err e \<Rightarrow> Some (Err e)
              | Panic p \<Rightarrow> Some (Panic p))
        else Some (Ok acc)) = Some r"
    show "Q so bc acc r"
    proof (cases "i \<le> to \<and> (\<exists>b. GetBlock so bc i = Ok b)")
      case True
      then obtain b where b: "GetBlock so bc i = Ok b" by blast
      with True eq have "Q so bc (acc @ [b]) r" by (intro IH) simp
      with b show ?thesis by (auto simp: Q_def)
    qed (use eq in \<open>auto simp: Q_def split: if_splits outcome.splits\<close>)
  qed
  then show ?thesis using assms(2,3) by (simp add: Q_def)
qed

lemma processGetBlocks_on:
  assumes "processGetBlocks P D a g nd = Some (nd', r)" and "net_on P hs (nd_net nd)" and "gob_laws P"
    and "d_tr D = LocalTransport_Transport ord" and "\<And>n b. GetBlock (d_so D) (sv_chain nd) n = Ok b \<Longrightarrow> block_on hs b"
  shows "net_on P hs (nd_net nd')"
proof -
  let ?to = "if gb_To g = 0 \<or> gb_To g > Height (sv_chain nd) then Height (sv_chain nd) else gb_To g"
  from assms(1) obtain q where q: "GetBlocks_loop (d_so D) (sv_chain nd) (gb_From g) ?to [] = Some q"
    and run: "node_try q nd (\<lambda>blocks. node_try (Blocks_Encode P blocks) nd (\<lambda>buf.
      Server_send P (d_tr D) a (NewMessage MessageTypeBlocks buf) nd)) = Some (nd', r)"
    by (auto simp: processGetBlocks_def Let_def split: option.splits)
  from run show ?thesis
  proof (cases rule: node_tryE)
    case (go bs)
    have bs: "list_all (block_on hs) bs" using q go(1) assms(5) by (auto intro: GetBlocks_loop_on)
    from go(2) show ?thesis
    proof (cases rule: node_tryE)
      case (go buf)
      then show ?thesis
        using Server_send_on [OF go(2) [unfolded assms(4)] assms(2,3), of "MsgBlocks bs"] bs by simp
    qed (use assms(2) in simp)
  qed (use assms(2) in simp)
qed

section \<open>Steps of a node\<close>

text \<open>Every message that is served either leaves the chain or extends it with a header of \<open>hs\<close>.\<close>

lemma AddBlock_on:
  assumes "AddBlock P so ce b bc = Some (bc', r)" and "\<not> is_Panic r" and "weight_no_err ce" and "durable_store P so"
    and "chain_sound P so bc" and "prefix (bc_Headers bc) hs" and "block_on hs b"
  shows "chain_sound P so bc' \<and> prefix (bc_Headers bc') hs \<and> prefix (bc_Headers bc) (bc_Headers bc')"
proof -
  from durable_store.AddBlock_grows [OF assms(4,1-3,5)] show ?thesis
    using assms(6) prefix_grows [OF assms(6,7)] by auto
qed

text \<open>What a step that does not add an own block keeps and changes.\<close>

definition follows ::
  "'x net_prims_scheme \<Rightarrow> 's Storage \<Rightarrow> Header list \<Rightarrow> (lt_ref, 's, 'c, local_net) Node \<Rightarrow> (lt_ref, 's, 'c, local_net) Node \<Rightarrow> bool" where
  "follows P so hs nd nd' \<longleftrightarrow> node_on P so hs nd' \<and> net_on P hs (nd_net nd') \<and>
     prefix (bc_Headers (sv_chain nd)) (bc_Headers (sv_chain nd')) \<and>
     sv_Transports nd' = sv_Transports nd \<and> sv_isValidator nd' = sv_isValidator nd \<and> (\<not> sv_isValidator nd \<longrightarrow> nd_mining nd' = nd_mining nd)"

lemma net_only_follows:
  assumes "net_only nd nd'" and "net_on P hs (nd_net nd')" and "node_on P so hs nd"
  shows "follows P so hs nd nd'"
  using assms by (auto simp: net_only_def follows_def node_on_def)

lemma ProcessTransaction_follows:
  assumes "ProcessTransaction P now tx nd = Some (nd', r)" and "tx_memo_ok P tx" and on: "node_on P so hs nd"
    and net: "net_on P hs (nd_net nd)"
  shows "follows P so hs nd nd'"
proof -
  have pool: "pool_ok P (sv_memPool nd)" "pool_verified P (sv_memPool nd)" using on by (simp_all add: node_on_def)
  from assms(1,2) pool(1) show ?thesis
  proof (cases rule: ProcessTransaction_cases)
    case (new tx' p)
    have "tx_memo_ok P tx'" using assms(2) new(3) by (simp add: Transaction_Hash_memo_ok)
    from TxPool_Add_refines [OF pool(1) this] new(4) have "pool_ok P p" "pool_maxLength p = pool_maxLength (sv_memPool nd)"
      by (metis outcome.inject(1))+
    moreover have "pool_verified P p" using new(2,3) by (intro TxPool_Add_verified [OF new(4) pool(2)]) simp
    ultimately show ?thesis using on net new(5) by (simp add: follows_def node_on_def)
  qed (use on net in \<open>simp_all add: follows_def\<close>)
qed

lemma processBlock_follows:
  assumes "processBlock P D a b nd = Some (nd', r)" and "\<not> is_Panic r" and D: "d_tr D = LocalTransport_Transport ord"
    and "weight_no_err (d_ce D)" and "durable_store P (d_so D)" and "gob_laws P"
    and on: "node_on P (d_so D) hs nd" and net: "net_on P hs (nd_net nd)" and b: "block_on hs b"
  shows "follows P (d_so D) hs nd nd'"
proof -
  from assms(1) obtain bc q where q: "AddBlock P (d_so D) (d_ce D) b (sv_chain nd) = Some (bc, q)"
    by (auto simp: processBlock_def split: option.splits)
  have q1: "\<not> is_Panic q" using assms(1,2) q by (cases q) (auto simp: processBlock_def)
  have "chain_sound P (d_so D) (sv_chain nd)" "prefix (bc_Headers (sv_chain nd)) hs" using on by (simp_all add: node_on_def)
  note grown = AddBlock_on [OF q q1 assms(4,5) this b]
  let ?nd = "nd\<lparr>sv_chain := bc\<rparr>"
  have on1: "node_on P (d_so D) hs ?nd" and net1: "net_on P hs (nd_net ?nd)" using on net grown by (simp_all add: node_on_def)
  then have stay: "follows P (d_so D) hs nd ?nd" using grown by (simp add: follows_def)
  show ?thesis
  proof (cases q)
    case (Ok u)
    then have "nd' = spawn (GoBroadcastBlock b) ?nd" using assms(1) q by (simp add: processBlock_def)
    then show ?thesis using stay b by (simp add: follows_def node_on_def spawn_def)
  next
    case (Err e)
    then consider "nd' = ?nd" | "requestBlocksSync P (d_tr D) a ?nd = Some (nd', r)"
      using assms(1) q by (auto simp: processBlock_def Let_def split: if_splits)
    then show ?thesis
    proof cases
      case 2
      have "follows P (d_so D) hs ?nd nd'"
        by (rule net_only_follows [OF requestBlocksSync_only [OF 2] requestBlocksSync_on [OF 2 [unfolded D] net1 assms(6)] on1])
      then show ?thesis using grown by (auto simp: follows_def)
    qed (use stay in simp)
  qed (use q1 in simp)
qed

lemma processBlocks_follows:
  assumes "processBlocks P D bs nd = Some (nd', r)" and "\<not> is_Panic r"
    and "weight_no_err (d_ce D)" and "durable_store P (d_so D)"
    and on: "node_on P (d_so D) hs nd" and net: "net_on P hs (nd_net nd)" and bs: "list_all (block_on hs) bs"
  shows "follows P (d_so D) hs nd nd'"
  using assms(1) on net bs
proof (induction bs arbitrary: nd)
  case (Cons b bs)
  have on: "chain_sound P (d_so D) (sv_chain nd)" "prefix (bc_Headers (sv_chain nd)) hs"
    using Cons.prems(2) by (simp_all add: node_on_def)
  have step: "follows P (d_so D) hs nd (nd\<lparr>sv_chain := bc\<rparr>)"
    if "AddBlock P (d_so D) (d_ce D) b (sv_chain nd) = Some (bc, q)" "\<not> is_Panic q" for bc q
    using AddBlock_on [OF that assms(3,4) on] Cons.prems(2-4) by (simp add: follows_def node_on_def)
  from Cons.prems(1) have "then_exec (map_option (\<lambda>(bc, r). (nd\<lparr>sv_chain := bc\<rparr>, r))
      (AddBlock P (d_so D) (d_ce D) b (sv_chain nd))) (processBlocks P D bs) = Some (nd', r)" by simp
  then show ?case
  proof (cases rule: then_execE)
    case stop
    then show ?thesis using step assms(2) by auto
  next
    case (go nd1)
    then obtain bc where "AddBlock P (d_so D) (d_ce D) b (sv_chain nd) = Some (bc, Ok ())" and nd1: "nd1 = nd\<lparr>sv_chain := bc\<rparr>"
      by auto
    then have 1: "follows P (d_so D) hs nd nd1" using step by simp
    then have "follows P (d_so D) hs nd1 nd'" using Cons.IH [OF go(2)] Cons.prems(4) by (simp add: follows_def)
    with 1 show ?thesis by (auto simp: follows_def intro: prefix_order.order_trans)
  qed
qed (simp add: follows_def)

lemma Start_rpc_follows:
  assumes "Start_rpc P D ord' now rpc nd = Some (nd', r)" and "\<not> is_Panic r" and D: "d_tr D = LocalTransport_Transport ord"
    and laws: "weight_no_err (d_ce D)" "durable_store P (d_so D)" "gob_laws P"
    and on: "node_on P (d_so D) hs nd" and net: "net_on P hs (nd_net nd)" and rpc: "rpc_on P hs rpc"
  shows "follows P (d_so D) hs nd nd'"
proof -
  from rpc obtain d where dec: "DefaultRPCDecodeFunc P rpc = Ok \<lparr>dm_From = rpc_From rpc, dm_Data = d\<rparr>" and d: "data_on hs d"
    by (auto simp: rpc_on_def)
  have memo: "data_memo_ok P d"
    using dec by (auto simp: DefaultRPCDecodeFunc_def split: outcome.splits intro: decode_data_memo_ok)
  obtain q where "ProcessMessage P D ord' now (Some \<lparr>dm_From = rpc_From rpc, dm_Data = d\<rparr>) nd = Some (nd', q)"
    and q: "\<not> is_Panic q"
    using assms(1,2) dec by (auto simp: Start_rpc_def elim!: drop_errE)
  note pm = this(1) [unfolded ProcessMessage_def option.case DecodedMessage.simps]
  show ?thesis
  proof (cases d)
    case (MsgTx tx)
    with pm memo on net show ?thesis by (auto simp: data_memo_ok_def intro: ProcessTransaction_follows)
  next
    case (MsgBlock b)
    with pm d show ?thesis using processBlock_follows [OF _ q D laws on net] by auto
  next
    case (MsgGetBlocks g)
    then have pg: "processGetBlocks P D (rpc_From rpc) g nd = Some (nd', q)" using pm by simp
    have "block_on hs b" if "GetBlock (d_so D) (sv_chain nd) n = Ok b" for n b
    proof -
      have "block_on (bc_Headers (sv_chain nd)) b"
        using that on by (auto simp: node_on_def chain_sound_def GetBlock_def intro: block_on_store)
      then show ?thesis using on by (auto simp: node_on_def intro: block_on_mono)
    qed
    from processGetBlocks_on [OF pg net laws(3) D this] show ?thesis
      by (intro net_only_follows [OF processGetBlocks_only [OF pg] _ on])
  next
    case (MsgBlocks bs)
    with pm d show ?thesis using processBlocks_follows [OF _ q laws(1,2) on net] by auto
  qed (use d in simp_all)
qed

lemma consume_follows:
  assumes "consume_rpc (LocalTransport_Transport ord) h nd = Some nd'" and on: "node_on P so hs nd" and net: "net_on P hs (nd_net nd)"
  shows "follows P so hs nd nd'"
proof -
  from assms(1) obtain rpc rest where ch: "lt_consumeCh (nd_net nd h) = rpc # rest"
    and nd': "nd' = (let nd1 = addPeer (rpc_From rpc) h (nd\<lparr>nd_net := (nd_net nd)(h := (nd_net nd h)\<lparr>lt_consumeCh := rest\<rparr>)\<rparr>)
      in nd1\<lparr>sv_rpcCh := sv_rpcCh nd1 @ [rpc]\<rparr>)"
    by (auto simp: consume_rpc_def LocalTransport_Consume_def split: list.splits)
  have "length (rpc # rest) \<le> consumeCh_cap" "list_all (rpc_on P hs) (rpc # rest)"
    using net unfolding net_on_def by (metis ch)+
  then have "net_on P hs ((nd_net nd)(h := (nd_net nd h)\<lparr>lt_consumeCh := rest\<rparr>))" and "rpc_on P hs rpc"
    using net by (simp_all add: net_on_def)
  then show ?thesis using on nd'
    by (simp add: follows_def node_on_def addPeer_def Let_def split: option.splits)
qed

lemma discovery_idle: "sv_SeedNodes nd = [] \<Longrightarrow> discoveryLoop_turn P tr nd = Some (nd, Ok ())"
  by (simp add: discoveryLoop_turn_def bootstrap_def)

text \<open>A step of a node is the addition of its own block, or it only follows the chain \<open>hs\<close>.\<close>

lemma node_act_follows:
  assumes act: "node_act P D nd nd'" and D: "d_tr D = LocalTransport_Transport ord"
    and laws: "weight_no_err (d_ce D)" "durable_store P (d_so D)" "gob_laws P"
    and on: "node_on P (d_so D) hs nd" and net: "net_on P hs (nd_net nd)"
  obtains (follow) "follows P (d_so D) hs nd nd'"
  | (commit) b r where "nd_mining nd = Some b" "createNewBlock_commit P D b (nd\<lparr>nd_mining := None\<rparr>) = Some (nd', r)" "\<not> is_Panic r"
  using act
proof cases
  case (node_consume h)
  then show ?thesis using consume_follows [OF _ on net] D by (intro follow) simp
next
  case (node_serve xs rpc ys ord' now r)
  let ?nd = "nd\<lparr>sv_rpcCh := xs @ ys\<rparr>"
  have "node_on P (d_so D) hs ?nd" "rpc_on P hs rpc" using on node_serve(1) by (simp_all add: node_on_def)
  with Start_rpc_follows [OF node_serve(2,3) D laws] net show ?thesis by (intro follow) (simp add: follows_def)
next
  case (node_mine now clk rnd b)
  then show ?thesis using on net by (intro follow) (simp add: follows_def node_on_def)
next
  case (node_task xs t ys r)
  let ?nd = "nd\<lparr>nd_go := xs @ ys\<rparr>"
  have on1: "node_on P (d_so D) hs ?nd" "task_on hs t" "sv_SeedNodes ?nd = []" "net_on P hs (nd_net ?nd)"
    using on net node_task(1) by (simp_all add: node_on_def)
  have "follows P (d_so D) hs ?nd nd'"
    using run_task_on [OF node_task(2) [unfolded D] on1(4) laws(3) on1(2,3)]
    by (rule net_only_follows [OF run_task_only [OF node_task(2)] _ on1(1)])
  then show ?thesis by (intro follow) (simp add: follows_def)
next
  case (node_discover r)
  then have "nd' = nd" using discovery_idle [of nd P "d_tr D"] on by (simp add: node_on_def)
  then show ?thesis using on net by (intro follow) (simp add: follows_def)
next
  case (node_submit raw tx now r)
  have "tx_memo_ok P tx" using node_submit(1) by (auto simp: Transaction_Decode_def intro: Transaction_unwire_memo_ok)
  from ProcessTransaction_follows [OF node_submit(2) [unfolded BroadcastTransaction_def] this on net] show ?thesis by (rule follow)
qed (rule commit)

text \<open>The node that owns the chain adds a block to it.\<close>

lemma commit_extends:
  assumes "createNewBlock_commit P D b nd = Some (nd', r)" and "\<not> is_Panic r"
    and laws: "weight_no_err (d_ce D)" "durable_store P (d_so D)"
    and on: "node_on P (d_so D) (bc_Headers (sv_chain nd)) nd" and net: "net_on P (bc_Headers (sv_chain nd)) (nd_net nd)"
  shows "prefix (bc_Headers (sv_chain nd)) (bc_Headers (sv_chain nd')) \<and>
    node_on P (d_so D) (bc_Headers (sv_chain nd')) nd' \<and> net_on P (bc_Headers (sv_chain nd')) (nd_net nd') \<and>
    sv_Transports nd' = sv_Transports nd"
proof -
  let ?hs = "bc_Headers (sv_chain nd)"
  have grown: "chain_sound P (d_so D) bc \<and> (bc_Headers bc = ?hs \<and> q \<noteq> Ok () \<or>
      (\<exists>h. b_Header b = Some h \<and> unat (hd_Height h) = length ?hs \<and> bc_Headers bc = ?hs @ [h]))"
    if "AddBlock P (d_so D) (d_ce D) b (sv_chain nd) = Some (bc, q)" "\<not> is_Panic q" for bc q
    using durable_store.AddBlock_grows [OF laws(2) that laws(1)] on by (simp add: node_on_def)
  have moved: "prefix ?hs (bc_Headers bc) \<and> node_on P (d_so D) (bc_Headers bc) (nd\<lparr>sv_chain := bc\<rparr>) \<and>
      net_on P (bc_Headers bc) (nd_net nd)"
    if "AddBlock P (d_so D) (d_ce D) b (sv_chain nd) = Some (bc, q)" "\<not> is_Panic q" for bc q
  proof -
    have "prefix ?hs (bc_Headers bc)" and "chain_sound P (d_so D) bc" using grown [OF that] by auto
    moreover from this have "node_on P (d_so D) (bc_Headers bc) nd" using node_on_mono [OF on] by blast
    ultimately show ?thesis using net_on_mono [OF net] by (simp add: node_on_def)
  qed
  from assms(1) show ?thesis
    unfolding createNewBlock_commit_def
  proof (cases rule: then_execE)
    case stop
    then show ?thesis using moved assms(2) by auto
  next
    case (go nd1)
    then obtain bc where add: "AddBlock P (d_so D) (d_ce D) b (sv_chain nd) = Some (bc, Ok ())"
      and nd1: "nd1 = nd\<lparr>sv_chain := bc\<rparr>" by auto
    then have nd': "nd' = spawn (GoBroadcastBlock b) (nd1\<lparr>sv_memPool := ClearPending (sv_memPool nd1)\<rparr>)" using go(2) by simp
    have "block_on (bc_Headers bc) b" using grown [OF add] by (auto simp: block_on_def)
    then show ?thesis using moved [OF add] nd' nd1 by (auto simp: node_on_def spawn_def intro: wf_intro)
  qed
qed

section \<open>The invariant of the system\<close>

abbreviation local_headers :: "'d dev_system \<Rightarrow> Header list" where
  "local_headers s \<equiv> bc_Headers (sv_chain (ds_local s))"

definition sends_on :: "'x net_prims_scheme \<Rightarrow> Header list \<Rightarrow> (byte list \<times> (lt_ref \<times> NetAddr) list) list \<Rightarrow> bool" where
  "sends_on P hs xs \<longleftrightarrow> (\<forall>x \<in> set xs. \<forall>f. rpc_on P hs \<lparr>rpc_From = f, rpc_Payload = fst x\<rparr>)"

lemma sends_on_mono: "sends_on P hs xs \<Longrightarrow> prefix hs hs' \<Longrightarrow> sends_on P hs' xs"
  by (auto simp: sends_on_def intro: rpc_on_mono)

definition dev_ok :: "'x net_prims_scheme \<Rightarrow> 'd leveldb \<Rightarrow> 'd dev_system \<Rightarrow> bool" where
  "dev_ok P L s \<longleftrightarrow> b_Header genesisBlock = Some (hd (local_headers s)) \<and>
     node_on P (LevelDBStore_Storage P L) (local_headers s) (ds_local s) \<and> net_on P (local_headers s) (ds_net s) \<and>
     sends_on P (local_headers s) (ds_sends s) \<and>
     sv_Transports (ds_local s) = [0] \<and> map sv_Transports (ds_peers s) = [[1], [2], [3]] \<and>
     (\<forall>nd \<in> set (ds_peers s). node_on P (MemoryStore_Storage P) (local_headers s) nd \<and> \<not> sv_isValidator nd \<and> nd_mining nd = None)"

lemma attach_sel [simp]:
  "bc_Headers (sv_chain (attach e n nd)) = bc_Headers (sv_chain nd)" "nd_net (attach e n nd) = n"
  "sv_isValidator (attach e n nd) = sv_isValidator nd" "sv_Transports (attach e n nd) = sv_Transports nd" "nd_mining (attach e n nd) = nd_mining nd"
  "node_on P so hs (attach e n nd) = node_on P so hs nd"
  by (simp_all add: attach_def node_on_def)

lemma dev_deps_sel [simp]:
  "d_tr (dev_deps P ord so) = LocalTransport_Transport ord" "d_so (dev_deps P ord so) = so"
  "d_ce (dev_deps P ord so) = any_ConsensusEngine P"
  by (simp_all add: dev_deps_def)

lemma sound_nonempty: "node_on P so hs nd \<Longrightarrow> bc_Headers (sv_chain nd) \<noteq> []"
  by (auto simp: node_on_def chain_sound_def linked_def)

lemma hd_prefix: "prefix xs ys \<Longrightarrow> xs \<noteq> [] \<Longrightarrow> hd ys = hd xs"
  by (auto simp: prefix_def)

lemma dev_peer_ok:
  assumes ok: "dev_ok P L s" and laws: "gob_laws P" and i: "i < length (ds_peers s)"
    and act: "node_act P (dev_deps P ord (MemoryStore_Storage P)) (attach (ds_engine s) (ds_net s) (ds_peers s ! i)) nd"
  shows "dev_ok P L (s\<lparr>ds_peers := (ds_peers s)[i := nd], ds_net := nd_net nd, ds_engine := e\<rparr>)"
proof -
  let ?D = "dev_deps P ord (MemoryStore_Storage P)" and ?nd = "attach (ds_engine s) (ds_net s) (ds_peers s ! i)"
  have on: "node_on P (d_so ?D) (local_headers s) ?nd" "net_on P (local_headers s) (nd_net ?nd)"
    and idle: "\<not> sv_isValidator ?nd" "nd_mining ?nd = None"
    using ok i by (simp_all add: dev_ok_def)
  have "weight_no_err (d_ce ?D)" "durable_store P (d_so ?D)" by (simp_all add: any_weight_no_err ms.durable_store_axioms)
  from act dev_deps_sel(1) this laws on have "follows P (d_so ?D) (local_headers s) ?nd nd"
    by (rule node_act_follows) (use idle in simp_all)
  then have f: "node_on P (MemoryStore_Storage P) (local_headers s) nd" "net_on P (local_headers s) (nd_net nd)" "\<not> sv_isValidator nd"
    "nd_mining nd = None" "sv_Transports nd = sv_Transports (ds_peers s ! i)"
    using idle by (simp_all add: follows_def)
  have "map sv_Transports ((ds_peers s)[i := nd]) = map sv_Transports (ds_peers s)"
    using f(5) i by (simp add: map_update list_update_same_conv)
  then show ?thesis using ok f by (auto simp: dev_ok_def dest!: set_update_subset_insert [THEN subsetD])
qed

lemma dev_local_ok:
  assumes ok: "dev_ok P L s" and laws: "gob_laws P" "leveldb_laws L" "leveldb_atomic L"
    and act: "node_act P (dev_deps P ord (LevelDBStore_Storage P L)) (attach (ds_engine s) (ds_net s) (ds_local s)) nd"
  shows "dev_ok P L (s\<lparr>ds_local := nd, ds_net := nd_net nd, ds_engine := e\<rparr>) \<and> prefix (local_headers s) (bc_Headers (sv_chain nd))"
proof -
  let ?D = "dev_deps P ord (LevelDBStore_Storage P L)" and ?nd = "attach (ds_engine s) (ds_net s) (ds_local s)"
  have on: "node_on P (d_so ?D) (local_headers s) ?nd" "net_on P (local_headers s) (nd_net ?nd)"
    using ok by (simp_all add: dev_ok_def)
  have "durable_store P (d_so ?D)"
    using laws by (simp add: gob_laws_def LevelDBStore_durable_store)
  moreover have "weight_no_err (d_ce ?D)" by (simp add: any_weight_no_err)
  ultimately have prems: "weight_no_err (d_ce ?D)" "durable_store P (d_so ?D)" by blast+
  have "prefix (local_headers s) (bc_Headers (sv_chain nd)) \<and> node_on P (d_so ?D) (bc_Headers (sv_chain nd)) nd \<and>
      net_on P (bc_Headers (sv_chain nd)) (nd_net nd) \<and> sv_Transports nd = sv_Transports (ds_local s)"
    using act dev_deps_sel(1) prems laws(1) on
  proof (cases rule: node_act_follows)
    case follow
    then have f: "prefix (local_headers s) (bc_Headers (sv_chain nd))" "node_on P (d_so ?D) (local_headers s) nd"
      "net_on P (local_headers s) (nd_net nd)" "sv_Transports nd = sv_Transports (ds_local s)" by (simp_all add: follows_def)
    then have "bc_Headers (sv_chain nd) = local_headers s" by (auto simp: node_on_def intro: prefix_order.antisym)
    with f show ?thesis by simp
  next
    case (commit b r)
    have "node_on P (d_so ?D) (local_headers s) (?nd\<lparr>nd_mining := None\<rparr>)" using on(1) by (simp add: node_on_def)
    then show ?thesis using commit_extends [OF commit(2,3) prems] on(2) by simp
  qed
  moreover have "local_headers s \<noteq> []" using sound_nonempty on(1) by fastforce
  ultimately show ?thesis using ok node_on_mono sends_on_mono hd_prefix [of "local_headers s" "bc_Headers (sv_chain nd)"]
    by (fastforce simp: dev_ok_def)
qed

text \<open>A broadcast that is taken out of its server carries a block of the chain or a transaction.\<close>

lemma broadcast_payload_on:
  assumes "broadcast_payload P t = Some (Ok p)" and "task_on hs t" and "gob_laws P"
  shows "rpc_on P hs \<lparr>rpc_From = f, rpc_Payload = p\<rparr>"
proof -
  consider b buf where "t = GoBroadcastBlock b" "Block_Encode P b = Ok buf" "p = Message_Bytes P (NewMessage MessageTypeBlock buf)"
    | tx buf where "t = GoBroadcastTx tx" "Transaction_Encode P tx = Ok buf" "p = Message_Bytes P (NewMessage MessageTypeTx buf)"
    using assms(1) by (auto simp: broadcast_payload_def bind_outcome_eq_Ok split: go_task.splits)
  then show ?thesis
  proof cases
    case 1
    then show ?thesis using assms(2) sent_on [OF assms(3), of "MsgBlock b"] by simp
  next
    case 2
    then show ?thesis using sent_on [OF assms(3), of "MsgTx tx"] by simp
  qed
qed

lemma node_on_go: "node_on P so hs nd \<Longrightarrow> nd_go nd = xs @ t # ys \<Longrightarrow> node_on P so hs (nd\<lparr>nd_go := xs @ ys\<rparr>) \<and> task_on hs t"
  by (simp add: node_on_def)

lemma dev_broadcast_ok:
  assumes ok: "dev_ok P L s" and laws: "gob_laws P" and p: "broadcast_payload P t = Some (Ok p)"
  shows "nd_go (ds_local s) = xs @ t # ys \<Longrightarrow>
      dev_ok P L (s\<lparr>ds_local := (ds_local s)\<lparr>nd_go := xs @ ys\<rparr>, ds_sends := ds_sends s @ [(p, q)]\<rparr>)"
    and "i < length (ds_peers s) \<Longrightarrow> nd_go (ds_peers s ! i) = xs @ t # ys \<Longrightarrow>
      dev_ok P L (s\<lparr>ds_peers := (ds_peers s)[i := (ds_peers s ! i)\<lparr>nd_go := xs @ ys\<rparr>], ds_sends := ds_sends s @ [(p, q)]\<rparr>)"
proof -
  have more: "sends_on P (local_headers s) (ds_sends s @ [(p, q)])" if "task_on (local_headers s) t"
    using ok broadcast_payload_on [OF p that laws] by (auto simp: dev_ok_def sends_on_def)
  show "dev_ok P L (s\<lparr>ds_local := (ds_local s)\<lparr>nd_go := xs @ ys\<rparr>, ds_sends := ds_sends s @ [(p, q)]\<rparr>)"
    if "nd_go (ds_local s) = xs @ t # ys"
    using ok node_on_go [OF _ that, of P _ "local_headers s"] more by (auto simp: dev_ok_def)
  show "dev_ok P L (s\<lparr>ds_peers := (ds_peers s)[i := (ds_peers s ! i)\<lparr>nd_go := xs @ ys\<rparr>], ds_sends := ds_sends s @ [(p, q)]\<rparr>)"
    if i: "i < length (ds_peers s)" and go: "nd_go (ds_peers s ! i) = xs @ t # ys"
  proof -
    have nd: "ds_peers s ! i \<in> set (ds_peers s)" using i by simp
    then have "node_on P (MemoryStore_Storage P) (local_headers s) (ds_peers s ! i)" using ok by (simp add: dev_ok_def)
    note on = node_on_go [OF this go]
    have "map sv_Transports ((ds_peers s)[i := (ds_peers s ! i)\<lparr>nd_go := xs @ ys\<rparr>]) = map sv_Transports (ds_peers s)"
      using i by (simp add: map_update list_update_same_conv)
    then show ?thesis using ok on more nd by (auto simp: dev_ok_def dest!: set_update_subset_insert [THEN subsetD])
  qed
qed

lemma dev_sends_ok:
  assumes ok: "dev_ok P L s" and sends: "ds_sends s = xs @ (p, y) # ys" and "LocalTransport_SendMessage t a p (ds_net s) = Some (n, r)"
  shows "dev_ok P L (s\<lparr>ds_net := n, ds_sends := xs @ (p, q) # ys\<rparr>)"
proof -
  have on: "sends_on P (local_headers s) (xs @ (p, y) # ys)" using ok sends by (simp add: dev_ok_def)
  then have "net_on P (local_headers s) n" using ok by (intro SendMessage_on [OF assms(3)]) (simp_all add: dev_ok_def sends_on_def)
  with ok on show ?thesis by (simp add: dev_ok_def sends_on_def)
qed

lemma generator_on:
  assumes "txGeneratorLoop_turn P (LocalTransport_Transport ord) rnd generated t a n = Some (n', r)" and "net_on P hs n" and "gob_laws P"
  shows "net_on P hs n'"
proof -
  obtain q where "sendTestTransaction P (LocalTransport_Transport ord) rnd generated t a n = Some (n', q)"
    using assms(1) by (auto simp: txGeneratorLoop_turn_def drop_err_Some)
  moreover have "rpc_on P hs \<lparr>rpc_From = f, rpc_Payload = Message_Bytes P (NewMessage MessageTypeTx buf)\<rparr>"
    if "Transaction_Encode P tx = Ok buf" for f tx buf
    using that by (intro sent_on [OF assms(3), of "MsgTx tx"]) simp_all
  ultimately show ?thesis using assms(2)
    by (auto simp: sendTestTransaction_def elim!: node_tryE intro: SendMessage_on)
qed

lemma dev_step_ok:
  assumes "dev_step P L s s'" and "dev_ok P L s" and laws: "gob_laws P" "leveldb_laws L" "leveldb_atomic L"
  shows "dev_ok P L s' \<and> prefix (local_headers s) (local_headers s')"
  using assms(1)
proof cases
  case (dev_peer_acts i ord nd e)
  then show ?thesis using dev_peer_ok [OF assms(2) laws(1)] by simp
next
  case (dev_local_acts ord nd e)
  then show ?thesis using dev_local_ok [OF assms(2) laws] by simp
next
  case (dev_generates ord rnd generated n r)
  then show ?thesis using generator_on [OF dev_generates(2) _ laws(1)] assms(2) by (simp add: dev_ok_def)
next
  case (dev_peer_broadcasts i xs t ys p ord)
  then show ?thesis using dev_broadcast_ok(2) [OF assms(2) laws(1) dev_peer_broadcasts(4,2,3)] by simp
next
  case (dev_local_broadcasts xs t ys p ord)
  then show ?thesis using dev_broadcast_ok(1) [OF assms(2) laws(1) dev_local_broadcasts(3,2)] by simp
next
  case (dev_sends xs p t a rest ys n r)
  then show ?thesis using dev_sends_ok [OF assms(2) dev_sends(2,3)] by simp
qed

lemma dev_steps_ok:
  assumes "(dev_step P L)\<^sup>*\<^sup>* s s'" and "dev_ok P L s" and laws: "gob_laws P" "leveldb_laws L" "leveldb_atomic L"
  shows "dev_ok P L s' \<and> prefix (local_headers s) (local_headers s')"
  using assms(1)
proof (induction rule: rtranclp_induct)
  case (step s1 s2)
  then show ?case using dev_step_ok [OF step(2) _ laws] by (auto intro: prefix_order.order_trans)
qed (simp add: assms(2))

section \<open>The shared engine\<close>

text \<open>A step never takes the engine away, so the premise of \<open>dev_step\<close> that there is one holds.\<close>

lemma ValidateBlockLocked_engine:
  assumes "ValidateBlockLocked P ce b bc = (bc', r)" and "bc_consensus bc \<noteq> None"
  shows "bc_consensus bc' \<noteq> None"
proof -
  have "bc_consensus (fst (verify_consensus ce h bc)) \<noteq> None" for h
    using assms(2) by (auto simp: verify_consensus_def split: option.splits prod.splits)
  then have "bc_consensus (fst (bind_state (verify_consensus ce h bc) (\<lambda>_ bc. (bc, q)))) \<noteq> None" for h q
    by (cases "snd (verify_consensus ce h bc)") (simp_all add: bind_state_def)
  moreover have "bc' = fst (ValidateBlockLocked P ce b bc)" using assms(1) by simp
  ultimately show ?thesis using assms(2)
    by (cases "getHeaderLocked bc (heightLocked bc)") (auto simp: ValidateBlockLocked_def split: option.splits)
qed

lemma add_weight_keeps_engine: "bc_consensus (fst (add_weight ce h bc)) = bc_consensus bc"
  using add_weight_frame [of ce h bc "fst (add_weight ce h bc)" "snd (add_weight ce h bc)"] by auto

lemma addBlock_engine:
  "bc_consensus (fst (addBlockWithoutValidationLocked P so ce b bc)) = bc_consensus bc"
proof (cases "b_Header b")
  case (Some h)
  then show ?thesis using add_weight_keeps_engine [of ce h "bc\<lparr>bc_Headers := bc_Headers bc @ [h]\<rparr>"]
    by (cases "Block_Hash P b"; cases "snd (add_weight ce h (bc\<lparr>bc_Headers := bc_Headers bc @ [h]\<rparr>))")
      (auto simp: addBlockWithoutValidationLocked_def bind_state_def split: prod.splits)
qed (simp add: addBlockWithoutValidationLocked_def)

lemma AddBlock_engine:
  assumes "AddBlock P so ce b bc = Some (bc', r)" and "bc_consensus bc \<noteq> None"
  shows "bc_consensus bc' \<noteq> None"
  using assms(1)
proof (cases rule: AddBlockE)
  case rejected
  then show ?thesis using ValidateBlockLocked_engine [OF rejected(1) assms(2)] by simp
next
  case (failed bc1 ws)
  then show ?thesis using ValidateBlockLocked_engine [OF failed(1) assms(2)] by simp
next
  case (stored bc1 ws h c)
  have "bc_consensus (bc1\<lparr>bc_WorldState := ws\<rparr>) \<noteq> None" using ValidateBlockLocked_engine [OF stored(1) assms(2)] by simp
  from process_evidence_Some [OF this, of ce "b_Evidence b"] have "c \<noteq> None" using stored(4) by simp
  then show ?thesis using addBlock_engine [of P so ce b "bc1\<lparr>bc_consensus := c, bc_WorldState := AddBalance (hd_Coinbase h) 5 ws\<rparr>"] stored(5)
    by simp
qed

text \<open>The chain of a node changes by \<open>AddBlock\<close> alone.\<close>

definition added ::
  "'x net_prims_scheme \<Rightarrow> ('h, 'n, 's, 'c) Deps \<Rightarrow> ('s, 'c) Blockchain \<Rightarrow> ('s, 'c) Blockchain \<Rightarrow> bool" where
  "added P D bc bc' \<longleftrightarrow> (\<exists>b r. AddBlock P (d_so D) (d_ce D) b bc = Some (bc', r))"

lemma addedI: "AddBlock P (d_so D) (d_ce D) b bc = Some (bc', r) \<Longrightarrow> (added P D)\<^sup>*\<^sup>* bc bc'"
  by (rule r_into_rtranclp) (auto simp: added_def)

lemma processBlocks_added: "processBlocks P D bs nd = Some (nd', r) \<Longrightarrow> (added P D)\<^sup>*\<^sup>* (sv_chain nd) (sv_chain nd')"
proof (induction bs arbitrary: nd)
  case (Cons b bs)
  from Cons.prems have "then_exec (map_option (\<lambda>(bc, r). (nd\<lparr>sv_chain := bc\<rparr>, r)) (AddBlock P (d_so D) (d_ce D) b (sv_chain nd)))
      (processBlocks P D bs) = Some (nd', r)" by simp
  then show ?case
  proof (cases rule: then_execE)
    case stop
    then show ?thesis by (auto intro: addedI)
  next
    case (go nd1)
    then have "(added P D)\<^sup>*\<^sup>* (sv_chain nd) (sv_chain nd1)" by (auto intro: addedI)
    then show ?thesis using Cons.IH [OF go(2)] by (rule rtranclp_trans)
  qed
qed simp

lemma ProcessMessage_added:
  assumes "ProcessMessage P D ord now m nd = Some (nd', r)"
  shows "(added P D)\<^sup>*\<^sup>* (sv_chain nd) (sv_chain nd')"
proof (cases m)
  case (Some msg)
  note pm = assms [unfolded ProcessMessage_def Some option.case]
  show ?thesis
  proof (cases "dm_Data msg")
    case (MsgTx tx)
    then show ?thesis using pm
      by (auto simp: ProcessTransaction_def Let_def case_prod_unfold spawn_def split: if_splits elim!: node_tryE)
  next
    case (MsgBlock b)
    then obtain bc q where "AddBlock P (d_so D) (d_ce D) b (sv_chain nd) = Some (bc, q)" and "sv_chain nd' = bc"
      using pm by (auto simp: processBlock_def Let_def split: option.splits outcome.splits if_splits
          dest!: requestBlocksSync_only net_only_sel(1))
    then show ?thesis by (auto intro: addedI)
  next
    case (MsgBlocks bs)
    then show ?thesis using pm processBlocks_added by simp
  next
    case (MsgSharePeers as)
    then show ?thesis using pm by (auto dest!: handleSharePeers_frame)
  qed (use pm in \<open>auto dest!: processGetBlocks_only processStatusMessage_only processGetStatusMessage_only handleGetPeers_only net_only_sel(1)\<close>)
qed (use assms in \<open>simp add: ProcessMessage_def\<close>)

lemma node_act_added:
  assumes "node_act P D nd nd'"
  shows "(added P D)\<^sup>*\<^sup>* (sv_chain nd) (sv_chain nd')"
  using assms
proof cases
  case (node_consume h)
  then show ?thesis by (auto simp: consume_rpc_def addPeer_def Let_def split: option.splits)
next
  case (node_serve xs rpc ys ord now r)
  then show ?thesis
    using ProcessMessage_added [of P D ord now _ "nd\<lparr>sv_rpcCh := xs @ ys\<rparr>" nd']
    by (auto simp: Start_rpc_def split: outcome.splits elim!: drop_errE)
next
  case (node_commit b r)
  then show ?thesis by (auto simp: createNewBlock_commit_def spawn_def elim!: then_execE intro: addedI)
next
  case (node_task xs t ys r)
  then show ?thesis by (auto dest!: run_task_only net_only_sel(1))
next
  case (node_discover r)
  then show ?thesis by (auto simp: discoveryLoop_turn_def bootstrap_def dest!: bootstrap_loop_only net_only_sel(1))
next
  case (node_submit raw tx now r)
  then show ?thesis
    by (auto simp: BroadcastTransaction_def ProcessTransaction_def Let_def case_prod_unfold spawn_def split: if_splits elim!: node_tryE)
qed simp

lemma node_act_engine:
  assumes "node_act P D nd nd'" and "bc_consensus (sv_chain nd) \<noteq> None"
  shows "bc_consensus (sv_chain nd') \<noteq> None"
  using node_act_added [OF assms(1)] assms(2)
  by (induction rule: rtranclp_induct) (auto simp: added_def dest: AddBlock_engine)

lemma attach_same [simp]: "bc_consensus (sv_chain nd) = Some e \<Longrightarrow> nd_net nd = n \<Longrightarrow> attach e n nd = nd"
  by (cases nd) (simp add: attach_def)

text \<open>Steps of the miner are steps of the system.\<close>

lemma local_run:
  assumes "(node_act P (dev_deps P ord (LevelDBStore_Storage P L)))\<^sup>*\<^sup>* nd nd'" and "bc_consensus (sv_chain nd) = Some e"
  shows "\<exists>e'. bc_consensus (sv_chain nd') = Some e' \<and>
    (dev_step P L)\<^sup>*\<^sup>* (s\<lparr>ds_local := nd, ds_net := nd_net nd, ds_engine := e\<rparr>) (s\<lparr>ds_local := nd', ds_net := nd_net nd', ds_engine := e'\<rparr>)"
  using assms(1)
proof (induction rule: rtranclp_induct)
  case base
  then show ?case using assms(2) by auto
next
  case (step nd1 nd2)
  then obtain e1 where e1: "bc_consensus (sv_chain nd1) = Some e1"
    and run: "(dev_step P L)\<^sup>*\<^sup>* (s\<lparr>ds_local := nd, ds_net := nd_net nd, ds_engine := e\<rparr>) (s\<lparr>ds_local := nd1, ds_net := nd_net nd1, ds_engine := e1\<rparr>)"
    by blast
  obtain e2 where e2: "bc_consensus (sv_chain nd2) = Some e2" using node_act_engine [OF step(2)] e1 by auto
  have "dev_step P L (s\<lparr>ds_local := nd1, ds_net := nd_net nd1, ds_engine := e1\<rparr>) (s\<lparr>ds_local := nd2, ds_net := nd_net nd2, ds_engine := e2\<rparr>)"
    using dev_local_acts [of P ord L "s\<lparr>ds_local := nd1, ds_net := nd_net nd1, ds_engine := e1\<rparr>" nd2 e2] step(2) e1 e2 by simp
  with run e2 show ?case by (meson rtranclp.rtrancl_into_rtrancl)
qed

section \<open>The start\<close>

lemma bind_run_Ok [simp]: "bind_run m k = Some (Ok y) \<longleftrightarrow> (\<exists>x. m = Some (Ok x) \<and> k x = Some (Ok y))"
  by (auto simp: bind_run_def split: option.splits outcome.splits)

lemma bind_run_simps [simp]: "bind_run (Some (Ok x)) k = k x" "bind_run (Some (Err e)) k = Some (Err e)"
  by (simp_all add: bind_run_def)

definition genesis_header :: Header where
  "genesis_header = the (b_Header genesisBlock)"

lemma genesis_header: "b_Header genesisBlock = Some genesis_header" "hd_Height genesis_header = 0"
  by (simp_all add: genesis_header_def genesisBlock_def NewBlock_def)

lemma Start_init_frame: "\<exists>ts. Start_init nd = nd\<lparr>nd_go := nd_go nd @ ts\<rparr> \<and> list_all (task_on hs) ts"
proof -
  have "fold (\<lambda>h. spawn (GoConsume h)) ks nd = nd\<lparr>nd_go := nd_go nd @ map GoConsume ks\<rparr>" for ks
    by (induction ks arbitrary: nd) (simp_all add: spawn_def)
  then show ?thesis
    by (intro exI [of _ "map GoConsume (sv_Transports nd) @ [GoDiscoveryLoop]"])
      (simp add: Start_init_def initTransports_def spawn_def list_all_iff)
qed

text \<open>A server that is started on an empty store.\<close>

lemma server_starts_on:
  assumes "mustCreateServer P D blockTime i t pk rpcAddr engine st net = Some (Ok nd)" and "durable_store P (d_so D)"
    and "\<And>n. \<exists>e. st_Get (d_so D) st n = Err e"
  shows "node_on P (d_so D) [genesis_header] (Start_init nd) \<and> bc_Headers (sv_chain (Start_init nd)) = [genesis_header] \<and>
    sv_isValidator (Start_init nd) = (pk \<noteq> None) \<and> nd_mining (Start_init nd) = None \<and> sv_Transports (Start_init nd) = [t]"
proof -
  obtain bc where new: "NewBlockchain P (d_so D) (d_ce D) genesisBlock st = Some (bc, Ok ())"
    and nd: "sv_chain nd = SetConsensus engine bc" "sv_memPool nd = NewTxPool defaultTxPoolMaxLength" "sv_rpcCh nd = []"
      "sv_SeedNodes nd = []" "sv_isValidator nd = (pk \<noteq> None)" "nd_mining nd = None" "sv_Transports nd = [t]" "list_all (task_on [genesis_header]) (nd_go nd)"
    using assms(1) unfolding mustCreateServer_def by (rule NewServer_OkE) simp
  from durable_store.NewBlockchain_sound [OF assms(2,3) genesis_header new]
  have "chain_sound P (d_so D) bc" "bc_Headers bc = [genesis_header]" by auto
  moreover have "0 < defaultTxPoolMaxLength" by (simp add: defaultTxPoolMaxLength_def)
  moreover obtain ts where "Start_init nd = nd\<lparr>nd_go := nd_go nd @ ts\<rparr>" "list_all (task_on [genesis_header]) ts"
    using Start_init_frame by blast
  ultimately show ?thesis using nd
    by (auto simp: node_on_def SetConsensus_def intro: wf_intro)
qed

lemma start_peers_on:
  assumes "start_peers P (dev_deps P ord (MemoryStore_Storage P)) blockTime engine net is = Some (Ok nds)"
  shows "(\<forall>nd \<in> set nds. node_on P (MemoryStore_Storage P) [genesis_header] nd \<and> \<not> sv_isValidator nd \<and> nd_mining nd = None) \<and>
    map sv_Transports nds = map (\<lambda>i. [i + 1]) is"
  using assms
proof (induction "is" arbitrary: nds)
  case (Cons i "is")
  then obtain s ss where s: "dev_peer P (dev_deps P ord (MemoryStore_Storage P)) blockTime engine net i = Some (Ok s)"
    and "start_peers P (dev_deps P ord (MemoryStore_Storage P)) blockTime engine net is = Some (Ok ss)" and "nds = Start_init s # ss" by auto
  moreover have "durable_store P (d_so (dev_deps P ord (MemoryStore_Storage P)))" by (simp add: ms.durable_store_axioms)
  note server_starts_on [OF s [unfolded dev_peer_def] this]
  ultimately show ?case using Cons NewMemoryStorage_empty [of P] by auto
qed simp

lemma dev_network_on: "net_on P hs dev_network"
  by (simp add: net_on_def dev_network_idle)

lemma runDevMode_ok:
  assumes "runDevMode P ord L OpenFile flags generated = Some (Ok s)" and laws: "gob_laws P" "leveldb_laws L" "leveldb_atomic L"
    and db: "OpenFile (flagDataDir flags) = Ok db" "\<And>n. \<exists>e. LevelDBStore_Get P L db n = Err e"
  shows "dev_ok P L s \<and> local_headers s = [genesis_header]"
proof -
  from assms(1) obtain key engine peers nd where
    peers: "start_peers P (dev_deps P ord (MemoryStore_Storage P)) (flagBlockTime flags) engine dev_network [0, 1, 2] = Some (Ok peers)"
    and nd: "mustCreateServer P (dev_deps P ord (LevelDBStore_Storage P L)) (flagBlockTime flags) (flagNodeID flags) 0 (Some key) (flagRPCAddr flags) engine db
      dev_network = Some (Ok nd)"
    and s: "s = \<lparr>ds_peers = peers, ds_local = Start_init nd, ds_net = dev_network, ds_engine = engine, ds_sends = []\<rparr>"
    by (auto simp: runDevMode_def Let_def mustCreateStorage_def NewLevelDBStore_def db(1))
  have "durable_store P (LevelDBStore_Storage P L)" using laws by (simp add: gob_laws_def LevelDBStore_durable_store)
  with server_starts_on [OF nd] db(2) have "node_on P (LevelDBStore_Storage P L) [genesis_header] (Start_init nd)"
    "bc_Headers (sv_chain (Start_init nd)) = [genesis_header]" "sv_Transports (Start_init nd) = [0]" by auto
  then show ?thesis using s start_peers_on [OF peers] genesis_header(1) dev_network_on by (simp add: dev_ok_def sends_on_def)
qed

section \<open>Block production under the interface\<close>

context engine_embedding
begin

text \<open>The block a node prepares does not depend on how its engine is wrapped.\<close>

lemma createNewBlock_prepare_embeds:
  assumes "bc_consensus (sv_chain nd') = map_option f (bc_consensus (sv_chain nd))" and "bc_Headers (sv_chain nd') = bc_Headers (sv_chain nd)"
    and "sv_memPool nd' = sv_memPool nd" and "sv_isValidator nd' = sv_isValidator nd" and "sv_PrivateKey nd' = sv_PrivateKey nd"
  shows "createNewBlock_prepare P ce' now clk rnd nd' = createNewBlock_prepare P ce now clk rnd nd"
proof -
  have "prepare_header ce' nd' = prepare_header ce nd" "set_coinbase P nd' = set_coinbase P nd"
    "seal_block ce' clk nd' = seal_block ce clk nd" "sign_block P rnd nd' = sign_block P rnd nd"
    by (auto simp: fun_eq_iff prepare_header_def set_coinbase_def seal_block_def sign_block_def assms prepare seal split: option.splits)
  moreover have "Height (sv_chain nd') = Height (sv_chain nd)" "GetHeader (sv_chain nd') = GetHeader (sv_chain nd)"
    by (auto simp: fun_eq_iff GetHeader_def Height_def heightLocked_def assms(2))
  ultimately show ?thesis by (simp add: createNewBlock_prepare_def assms(3) cong: option.case_cong)
qed

end

section \<open>Delivery of a block\<close>

text \<open>An order of the peers of LOCAL.\<close>

definition mesh_order :: "(NetAddr \<rightharpoonup> lt_ref) \<Rightarrow> NetAddr list" where
  "mesh_order m = [''REMOTE_A'', ''REMOTE_B'', ''REMOTE_C'']"

lemma mesh_order_ok: "enumerates (mesh_order (lt_peers (dev_network 0))) (lt_peers (dev_network 0))"
  by (auto simp: enumerates_def dev_network_peers mesh_order_def)

lemma mesh_broadcast_on:
  assumes "net_on P hs n" and room: "\<And>k. k \<in> {1, 2, 3} \<Longrightarrow> length (lt_consumeCh (n k)) < consumeCh_cap"
  obtains n' where "LocalTransport_Broadcast mesh_order 0 p n = Some (n', Ok ())"
    "\<And>k. k \<in> {1, 2, 3} \<Longrightarrow> lt_consumeCh (n' k) = lt_consumeCh (n k) @ [\<lparr>rpc_From = lt_addr (n 0), rpc_Payload = p\<rparr>]"
proof -
  have mesh: "lt_peers (n t) = lt_peers (dev_network t)" "lt_addr (n t) = lt_addr (dev_network t)" for t
    using assms(1) by (simp_all add: net_on_def)
  have ok: "peers_ok n" using dev_network_ok by (simp add: peers_ok_def mesh)
  have "{0..<4} - {0} = {1, 2, 3 :: nat}" by auto
  then have ran: "ran (lt_peers (n 0)) = {1, 2, 3}" unfolding mesh by (subst dev_network_ran) simp_all
  have enum: "enumerates (mesh_order (lt_peers (n 0))) (lt_peers (n 0))" unfolding mesh by (rule mesh_order_ok)
  have "LocalTransport_Broadcast mesh_order 0 p n \<noteq> None"
    using Broadcast_returns [of n mesh_order 0 p] ok enum room ran by blast
  then obtain n' r where b: "LocalTransport_Broadcast mesh_order 0 p n = Some (n', r)" by fastforce
  from Broadcast_delivers [OF b ok enum] ran show thesis using b by (intro that [of n']) simp_all
qed

text \<open>The three steps: the miner's goroutine broadcasts, the peer's transport goroutine receives, its main loop adds.\<close>

lemma broadcast_step:
  assumes "sv_Transports nd = [0]" and "nd_go nd = xs @ GoBroadcastBlock b # ys" and "Block_Encode P b = Ok buf"
    and "LocalTransport_Broadcast ord 0 (Message_Bytes P (NewMessage MessageTypeBlock buf)) (nd_net nd) = Some (n', Ok ())"
  shows "node_act P (dev_deps P ord so) nd (nd\<lparr>nd_go := xs @ ys, nd_net := n'\<rparr>)"
  by (rule node_task [of _ xs "GoBroadcastBlock b" ys _ _ _ "Ok ()"])
    (use assms in \<open>simp_all add: broadcastBlock_def Server_broadcast_def on_net_def drop_err_def\<close>)

lemma receive_step:
  assumes "sv_Transports nd = [t]" and "lt_consumeCh (nd_net nd t) = [rpc]"
  shows "\<exists>nd'. node_act P (dev_deps P ord so) nd nd' \<and> sv_rpcCh nd' = sv_rpcCh nd @ [rpc] \<and> sv_chain nd' = sv_chain nd"
proof -
  let ?n = "(nd_net nd)(t := (nd_net nd t)\<lparr>lt_consumeCh := []\<rparr>)"
  let ?nd = "addPeer (rpc_From rpc) t (nd\<lparr>nd_net := ?n\<rparr>)"
  have "consume_rpc (d_tr (dev_deps P ord so)) t nd = Some (?nd\<lparr>sv_rpcCh := sv_rpcCh ?nd @ [rpc]\<rparr>)"
    using assms(2) by (simp add: consume_rpc_def LocalTransport_Consume_def Let_def)
  then have "node_act P (dev_deps P ord so) nd (?nd\<lparr>sv_rpcCh := sv_rpcCh ?nd @ [rpc]\<rparr>)"
    by (intro node_consume [of t]) (simp_all add: assms(1))
  moreover have "sv_rpcCh ?nd = sv_rpcCh nd" "sv_chain ?nd = sv_chain nd" by (simp_all add: addPeer_def split: option.splits)
  ultimately show ?thesis by (intro exI [of _ "?nd\<lparr>sv_rpcCh := sv_rpcCh ?nd @ [rpc]\<rparr>"]) simp
qed

lemma accept_step:
  assumes "sv_rpcCh nd = [rpc]" and "DefaultRPCDecodeFunc P rpc = Ok \<lparr>dm_From = a, dm_Data = MsgBlock b\<rparr>"
    and "AddBlock P so (any_ConsensusEngine P) b (sv_chain nd) = Some (bc, Ok ())"
  shows "\<exists>nd'. node_act P (dev_deps P ord so) nd nd' \<and> sv_chain nd' = bc"
proof -
  let ?nd = "nd\<lparr>sv_rpcCh := []\<rparr>"
  have "processBlock P (dev_deps P ord so) a b ?nd = Some (spawn (GoBroadcastBlock b) (?nd\<lparr>sv_chain := bc\<rparr>), Ok ())"
    by (rule processBlock_next) (simp add: assms(3))
  then have "Start_rpc P (dev_deps P ord so) (\<lambda>_. []) 0 rpc ?nd = Some (spawn (GoBroadcastBlock b) (?nd\<lparr>sv_chain := bc\<rparr>), Ok ())"
    by (simp add: Start_rpc_def assms(2) ProcessMessage_def drop_err_def)
  then have "node_act P (dev_deps P ord so) nd (spawn (GoBroadcastBlock b) (?nd\<lparr>sv_chain := bc\<rparr>))"
    by (intro node_serve [of _ "[]" rpc "[]" P _ "\<lambda>_. []" 0 _ "Ok ()"]) (simp_all add: assms(1))
  then show ?thesis by (intro exI [of _ "spawn (GoBroadcastBlock b) (?nd\<lparr>sv_chain := bc\<rparr>)"]) (simp add: spawn_def)
qed

text \<open>They are steps of the system.\<close>

lemma peer_step:
  assumes "i < length (ds_peers s)" and "node_act P (dev_deps P ord (MemoryStore_Storage P)) (attach (ds_engine s) (ds_net s) (ds_peers s ! i)) nd"
  shows "\<exists>e. bc_consensus (sv_chain nd) = Some e \<and>
    dev_step P L s (s\<lparr>ds_peers := (ds_peers s)[i := nd], ds_net := nd_net nd, ds_engine := e\<rparr>)"
proof -
  have "bc_consensus (sv_chain nd) \<noteq> None" by (rule node_act_engine [OF assms(2)]) (simp add: attach_def)
  then show ?thesis using dev_peer_acts [OF assms] by auto
qed

lemma peer_delivery:
  assumes i: "i < length (ds_peers s)" "sv_Transports (ds_peers s ! i) = [t]" "sv_rpcCh (ds_peers s ! i) = []"
    and rpc: "lt_consumeCh (ds_net s t) = [rpc]" "DefaultRPCDecodeFunc P rpc = Ok \<lparr>dm_From = a, dm_Data = MsgBlock b\<rparr>"
    and add: "AddBlock P (MemoryStore_Storage P) (any_ConsensusEngine P) b ((sv_chain (ds_peers s ! i))\<lparr>bc_consensus := Some (ds_engine s)\<rparr>)
      = Some (bc, Ok ())"
  shows "\<exists>s'. (dev_step P L)\<^sup>*\<^sup>* s s' \<and> sv_chain (ds_peers s' ! i) = bc \<and> ds_local s' = ds_local s"
proof -
  let ?nd = "attach (ds_engine s) (ds_net s) (ds_peers s ! i)" and ?D = "dev_deps P mesh_order (MemoryStore_Storage P)"
  have "sv_Transports ?nd = [t]" "lt_consumeCh (nd_net ?nd t) = [rpc]" "sv_rpcCh ?nd = []" using i rpc by (simp_all add: attach_def)
  then obtain nd1 where nd1: "node_act P ?D ?nd nd1" "sv_rpcCh nd1 = [rpc]" "sv_chain nd1 = sv_chain ?nd"
    using receive_step [of ?nd t rpc P mesh_order "MemoryStore_Storage P"] by auto
  from peer_step [OF i(1) nd1(1)] obtain e where e: "bc_consensus (sv_chain nd1) = Some e"
    and s1: "dev_step P L s (s\<lparr>ds_peers := (ds_peers s)[i := nd1], ds_net := nd_net nd1, ds_engine := e\<rparr>)" by blast
  let ?s1 = "s\<lparr>ds_peers := (ds_peers s)[i := nd1], ds_net := nd_net nd1, ds_engine := e\<rparr>"
  have same: "attach (ds_engine ?s1) (ds_net ?s1) (ds_peers ?s1 ! i) = nd1" using e i(1) by simp
  have "AddBlock P (MemoryStore_Storage P) (any_ConsensusEngine P) b (sv_chain nd1) = Some (bc, Ok ())"
    using add nd1(3) by (simp add: attach_def)
  from accept_step [OF nd1(2) rpc(2) this] obtain nd2 where nd2: "node_act P ?D nd1 nd2" "sv_chain nd2 = bc" by blast
  obtain e2 where s2: "dev_step P L ?s1 (?s1\<lparr>ds_peers := (ds_peers ?s1)[i := nd2], ds_net := nd_net nd2, ds_engine := e2\<rparr>)"
    using peer_step [of i ?s1 P mesh_order nd2] same nd2(1) i(1) by auto
  let ?s2 = "?s1\<lparr>ds_peers := (ds_peers ?s1)[i := nd2], ds_net := nd_net nd2, ds_engine := e2\<rparr>"
  have "(dev_step P L)\<^sup>*\<^sup>* s ?s2" using s1 s2 by (rule rtranclp.rtrancl_into_rtrancl [OF r_into_rtranclp])
  then show ?thesis using nd2(2) i(1) by (intro exI [of _ ?s2]) simp
qed

lemma block_delivery:
  assumes ok: "dev_ok P L s" and "gob_laws P" and go: "GoBroadcastBlock b \<in> set (nd_go (ds_local s))" and enc: "Block_Encode P b = Ok buf"
    and room: "\<And>k. k \<in> {1, 2, 3} \<Longrightarrow> length (lt_consumeCh (ds_net s k)) < consumeCh_cap"
    and i: "i < 3" "lt_consumeCh (ds_net s (i + 1)) = []" "sv_rpcCh (ds_peers s ! i) = []"
    and add: "AddBlock P (MemoryStore_Storage P) (any_ConsensusEngine P) (block_exported b)
      ((sv_chain (ds_peers s ! i))\<lparr>bc_consensus := Some (ds_engine s)\<rparr>) = Some (bc, Ok ())"
  shows "\<exists>s'. (dev_step P L)\<^sup>*\<^sup>* s s' \<and> sv_chain (ds_peers s' ! i) = bc \<and> local_headers s' = local_headers s"
proof -
  let ?p = "Message_Bytes P (NewMessage MessageTypeBlock buf)" and ?nd = "attach (ds_engine s) (ds_net s) (ds_local s)"
  obtain xs ys where xs: "nd_go (ds_local s) = xs @ GoBroadcastBlock b # ys" using go by (meson split_list)
  have net: "net_on P (local_headers s) (ds_net s)" using ok by (simp add: dev_ok_def)
  obtain n' where n': "LocalTransport_Broadcast mesh_order 0 ?p (ds_net s) = Some (n', Ok ())"
    and q: "\<And>k. k \<in> {1, 2, 3} \<Longrightarrow> lt_consumeCh (n' k) = lt_consumeCh (ds_net s k) @ [\<lparr>rpc_From = lt_addr (ds_net s 0), rpc_Payload = ?p\<rparr>]"
    using mesh_broadcast_on [OF net room] by blast
  let ?nd1 = "?nd\<lparr>nd_go := xs @ ys, nd_net := n'\<rparr>" and ?rpc = "\<lparr>rpc_From = lt_addr (ds_net s 0), rpc_Payload = ?p\<rparr>"
  let ?s1 = "s\<lparr>ds_local := ?nd1, ds_net := n', ds_engine := ds_engine s\<rparr>"
  have "node_act P (dev_deps P mesh_order (LevelDBStore_Storage P L)) ?nd ?nd1"
    using ok xs enc n' by (intro broadcast_step) (simp_all add: dev_ok_def attach_def)
  then have s1: "dev_step P L s ?s1" using dev_local_acts [of P mesh_order L s ?nd1 "ds_engine s"] by (simp add: attach_def)
  have tr: "map sv_Transports (ds_peers s) = [[1], [2], [3]]" using ok by (simp add: dev_ok_def)
  then have len: "i < length (ds_peers s)" using i(1) by (auto dest: arg_cong [where f = length])
  have "sv_Transports (ds_peers s ! i) = map sv_Transports (ds_peers s) ! i" using len by simp
  also have "\<dots> = [i + 1]" using i(1) unfolding tr by (auto simp: less_Suc_eq numeral_3_eq_3)
  finally have tri: "sv_Transports (ds_peers s ! i) = [i + 1]" .
  have "i + 1 \<in> {1, 2, 3}" using i(1) by auto
  from q [OF this] have ch: "lt_consumeCh (n' (i + 1)) = [?rpc]" using i(2) by simp
  have dec: "DefaultRPCDecodeFunc P ?rpc = Ok \<lparr>dm_From = lt_addr (ds_net s 0), dm_Data = MsgBlock (block_exported b)\<rparr>"
    using RPC_roundtrip [of P "MsgBlock b" "NewMessage MessageTypeBlock buf"] assms(2) enc by (simp add: gob_laws_def)
  obtain s' where "(dev_step P L)\<^sup>*\<^sup>* ?s1 s'" "sv_chain (ds_peers s' ! i) = bc" "ds_local s' = ds_local ?s1"
    using peer_delivery [of i ?s1 "i + 1" ?rpc P _ "block_exported b" bc L] len tri i(3) ch dec add by auto
  then show ?thesis using s1 by (auto simp: attach_def intro: converse_rtranclp_into_rtranclp)
qed

end
