(* ===== verification/DevTheorems.thy ===== *)
theory DevTheorems
  imports MainTheorems NetworkTheorems DevMode
begin

text \<open>
  The properties of the running system of developer mode: src/main.go together with the servers,
  the local transports, the stores and the consensus engine it starts.
\<close>

section \<open>Agreement\<close>

lemma dev_reachable:
  assumes "runDevMode P ord L OpenFile flags generated = Some (Ok s0)" and laws: "gob_laws P" "leveldb_laws L" "leveldb_atomic L"
    and "OpenFile (flagDataDir flags) = Ok db" and "\<forall>n. \<exists>e. LevelDBStore_Get P L db n = Err e" and "(dev_step P L)\<^sup>*\<^sup>* s0 s"
  shows "dev_ok P L s"
proof -
  have "dev_ok P L s0" using runDevMode_ok [OF assms(1) laws assms(5)] assms(6) by blast
  then show ?thesis using dev_steps_ok [OF assms(7) _ laws] by blast
qed

text \<open>C2. Developer mode on a new database never has two chains: in every state it can reach, by any
  interleaving of its four servers, their goroutines, submitted and generated transactions, and
  whatever the database does, the miner's headers start with the genesis header and are
  hash-linked, every peer's headers are a prefix of the miner's, and later the miner's headers
  only get longer.\<close>

theorem dev_agreement:
  assumes "runDevMode P ord L OpenFile flags generated = Some (Ok s0)" and "gob_laws P" and "leveldb_laws L" and "leveldb_atomic L"
    and "OpenFile (flagDataDir flags) = Ok db" and "\<forall>n. \<exists>e. LevelDBStore_Get P L db n = Err e"
    and "(dev_step P L)\<^sup>*\<^sup>* s0 s" and "(dev_step P L)\<^sup>*\<^sup>* s s'"
  shows "linked P (local_headers s) \<and> b_Header genesisBlock = Some (hd (local_headers s)) \<and>
    (\<forall>nd \<in> set (ds_peers s). bc_Headers (sv_chain nd) \<noteq> [] \<and> prefix (bc_Headers (sv_chain nd)) (local_headers s)) \<and>
    prefix (local_headers s) (local_headers s')"
proof -
  have ok: "dev_ok P L s" by (rule dev_reachable [OF assms(1-7)])
  have "linked P (local_headers s)" using ok by (simp add: dev_ok_def node_on_def chain_sound_def)
  moreover have "prefix (local_headers s) (local_headers s')" using dev_steps_ok [OF assms(8) ok assms(2-4)] by blast
  moreover have "bc_Headers (sv_chain nd) \<noteq> [] \<and> prefix (bc_Headers (sv_chain nd)) (local_headers s)"
    if "nd \<in> set (ds_peers s)" for nd
  proof -
    have "node_on P (MemoryStore_Storage P) (local_headers s) nd" using ok that by (simp add: dev_ok_def)
    then show ?thesis using sound_nonempty [of P "MemoryStore_Storage P" "local_headers s" nd] by (simp add: node_on_def)
  qed
  ultimately show ?thesis using ok by (simp add: dev_ok_def)
qed

section \<open>A concrete run\<close>

definition demo_dev_flags :: Flags where
  "demo_dev_flags = demo_flags\<lparr>flagDevMode := True\<rparr>"

definition demo_open :: "string \<Rightarrow> (byte list \<rightharpoonup> byte list) res" where
  "demo_open path = Ok Map.empty"

lemma demo_gob_laws: "gob_laws demo_P"
  by (simp add: gob_laws_def demo_marshal demo_gob_tx demo_gob_block demo_gob_messages)

lemma demo_new_db: "\<exists>e. LevelDBStore_Get demo_P demo_L Map.empty n = Err e"
  by (simp add: LevelDBStore_Get_def demo_L_def)

lemma demo_engine:
  "createConsensusEngine (flagConsensus demo_flags) (flagDifficulty demo_flags) a = UsePoW (NewPoWEngine 0)"
  "createConsensusEngine (flagConsensus demo_dev_flags) (flagDifficulty demo_dev_flags) a = UsePoW (NewPoWEngine 0)"
  by (simp_all add: createConsensusEngine_def demo_dev_flags_def demo_flags_def lower_char_def Let_def)

lemma demo_new_chain:
  "\<exists>d. NewBlockchain demo_P (LevelDBStore_Storage demo_P demo_L) (any_ConsensusEngine demo_P) genesisBlock Map.empty =
      Some (map_engine UsePoW (demo_lbc\<lparr>bc_store := d, bc_consensus := None\<rparr>), Ok ())"
  using demo_genesis_stored by (auto simp: use_pow.NewBlockchain_embeds demo_ldb_def demo_pow_def demo_b0_genesis)

lemma demo_lbc_engine: "(demo_lbc\<lparr>bc_store := d, bc_consensus := None\<rparr>)\<lparr>bc_consensus := Some (NewPoWEngine 0)\<rparr> = demo_lbc\<lparr>bc_store := d\<rparr>"
  by (simp add: demo_lbc_def)

lemma demo_peer_starts:
  "\<exists>nd. dev_peer demo_P (dev_deps demo_P ord (MemoryStore_Storage demo_P)) blockTime (UsePoW (NewPoWEngine 0)) net i = Some (Ok nd) \<and>
     sv_chain nd = map_engine UsePoW demo_bc0 \<and> sv_rpcCh nd = []"
  using demo_new
  by (auto simp: use_pow.NewBlockchain_embeds dev_peer_def mustCreateServer_def NewServer_def demo_ms_def demo_pow_def demo_b0_genesis Let_def
      demo_bc0_def SetConsensus_def map_engine_def)

lemma demo_local_starts:
  "\<exists>nd d. mustCreateServer demo_P (dev_deps demo_P ord (LevelDBStore_Storage demo_P demo_L)) blockTime i 0 (Some demo_key) [] (UsePoW (NewPoWEngine 0))
     Map.empty net = Some (Ok nd) \<and>
     sv_chain nd = map_engine UsePoW (demo_lbc\<lparr>bc_store := d\<rparr>) \<and> sv_isValidator nd \<and> sv_PrivateKey nd = Some demo_key \<and>
     sv_memPool nd = NewTxPool 10000 \<and> nd_mining nd = None \<and> sv_Transports nd = [0] \<and> nd_net nd = net"
proof -
  obtain d where new: "NewBlockchain demo_P (LevelDBStore_Storage demo_P demo_L) (any_ConsensusEngine demo_P) genesisBlock Map.empty =
      Some (map_engine UsePoW (demo_lbc\<lparr>bc_store := d, bc_consensus := None\<rparr>), Ok ())" using demo_new_chain by blast
  with demo_lbc_engine [of d] show ?thesis
    by (auto simp: mustCreateServer_def NewServer_def Let_def spawn_def SetConsensus_def defaultTxPoolMaxLength_def)
qed

lemma demo_dev_starts:
  "\<exists>s d. runDevMode demo_P ord demo_L demo_open demo_dev_flags (Ok demo_key) = Some (Ok s) \<and>
     ds_net s = dev_network \<and> ds_engine s = UsePoW (NewPoWEngine 0) \<and> length (ds_peers s) = 3 \<and>
     list_all (\<lambda>nd. sv_chain nd = map_engine UsePoW demo_bc0 \<and> sv_rpcCh nd = []) (ds_peers s) \<and>
     sv_chain (ds_local s) = map_engine UsePoW (demo_lbc\<lparr>bc_store := d\<rparr>) \<and> sv_isValidator (ds_local s) \<and>
     sv_PrivateKey (ds_local s) = Some demo_key \<and> sv_memPool (ds_local s) = NewTxPool 10000 \<and> nd_mining (ds_local s) = None \<and>
     sv_Transports (ds_local s) = [0] \<and> nd_net (ds_local s) = dev_network"
proof -
  let ?D = "dev_deps demo_P ord (MemoryStore_Storage demo_P)" and ?e = "UsePoW (NewPoWEngine 0)"
  have "\<exists>nds. start_peers demo_P ?D 1000 ?e dev_network is = Some (Ok nds) \<and> length nds = length is \<and>
      list_all (\<lambda>nd. sv_chain nd = map_engine UsePoW demo_bc0 \<and> sv_rpcCh nd = []) nds" for "is"
  proof (induction "is")
    case (Cons i "is")
    have "sv_rpcCh (Start_init nd) = sv_rpcCh nd" for nd :: "(lt_ref, MemoryStore, consensus_choice, local_net) Node"
      by (rule exE [OF Start_init_frame [of nd "[]"]]) simp
    then show ?case using Cons demo_peer_starts [of ord 1000 dev_network i] by auto
  qed simp
  from this [of "[0, 1, 2]"] obtain nds where nds: "start_peers demo_P ?D 1000 ?e dev_network [0, 1, 2] = Some (Ok nds)" "length nds = 3"
    "list_all (\<lambda>nd. sv_chain nd = map_engine UsePoW demo_bc0 \<and> sv_rpcCh nd = []) nds" by (auto simp del: start_peers.simps)
  obtain nd d where nd: "mustCreateServer demo_P (dev_deps demo_P ord (LevelDBStore_Storage demo_P demo_L)) 1000 ''n'' 0 (Some demo_key) [] ?e
     Map.empty dev_network = Some (Ok nd)" "sv_chain nd = map_engine UsePoW (demo_lbc\<lparr>bc_store := d\<rparr>)" "sv_isValidator nd"
     "sv_PrivateKey nd = Some demo_key" "sv_memPool nd = NewTxPool 10000" "nd_mining nd = None" "sv_Transports nd = [0]" "nd_net nd = dev_network"
    using demo_local_starts [of ord 1000 "''n''" dev_network] by auto
  have flags: "flagNodeID demo_dev_flags = ''n''" "flagRPCAddr demo_dev_flags = []" "flagBlockTime demo_dev_flags = 1000" by (simp_all add: demo_dev_flags_def demo_flags_def)
  obtain ts where "Start_init nd = nd\<lparr>nd_go := nd_go nd @ ts\<rparr>" using Start_init_frame by blast
  with nds nd show ?thesis
    by (intro exI [of _ "\<lparr>ds_peers = nds, ds_local = Start_init nd, ds_net = dev_network, ds_engine = ?e, ds_sends = []\<rparr>"] exI [of _ d])
      (simp add: runDevMode_def GeneratePrivateKey_def demo_key_addr demo_engine mustCreateStorage_def NewLevelDBStore_def demo_open_def
        flags Let_def del: start_peers.simps)
qed

text \<open>The miner prepares the block \<open>demo_b1\<close>, adds it and broadcasts it.\<close>

lemma demo_prepares:
  assumes "sv_chain nd = map_engine UsePoW (demo_lbc\<lparr>bc_store := d\<rparr>)" and "sv_isValidator nd"
    and "sv_PrivateKey nd = Some demo_key" and "sv_memPool nd = NewTxPool 10000"
  shows "createNewBlock_prepare demo_P (any_ConsensusEngine demo_P) 0 (\<lambda>_. False) 0 nd = Ok demo_b1"
proof -
  let ?nd = "demo_node 0 demo_bc0 (NewTxPool 10000)"
  have h: "mined_header demo_P 0 zero_hash demo_addr (NewPoWEngine 0) demo_h0 = demo_h1" "demo_h1\<lparr>hd_Nonce := 0\<rparr> = demo_h1"
    by (simp_all add: mined_header_def demo_h1_def demo_header_def NewPoWEngine_def defaultDifficulty_def demo_h0_def)
  have "PrivateKey_Sign demo_P 0 demo_key (Header_Bytes demo_P demo_h1) = Ok (demo_sign demo_h1)"
    by (simp add: PrivateKey_Sign_def demo_Sign_def Header_Bytes_def demo_sign_def demo_key_def)
  then have "createNewBlock_prepare demo_P (PoW_ConsensusEngine demo_P) 0 (\<lambda>_. False) 0 ?nd =
      Ok ((NewBlock demo_h1 [])\<lparr>b_Validator := PrivateKey_PublicKey demo_key, b_Signature := Some (demo_sign demo_h1)\<rparr>)"
    using createNewBlock_prepare_mines [of demo_P ?nd "NewPoWEngine 0" demo_key demo_addr zero_hash demo_h1 0 0 0 "demo_sign demo_h1"]
      demo_least_nonce [of demo_h1]
    by (simp add: demo_bc0_sel demo_linked demo_empty h demo_mine_defs) (simp add: demo_h1_def demo_header_def)
  also have "(NewBlock demo_h1 [])\<lparr>b_Validator := PrivateKey_PublicKey demo_key, b_Signature := Some (demo_sign demo_h1)\<rparr> = demo_b1"
    by (simp add: demo_b1_def demo_block_def PrivateKey_PublicKey_def demo_key_def)
  finally have "createNewBlock_prepare demo_P (PoW_ConsensusEngine demo_P) 0 (\<lambda>_. False) 0 ?nd = Ok demo_b1" .
  moreover have "createNewBlock_prepare demo_P (any_ConsensusEngine demo_P) 0 (\<lambda>_. False) 0 nd =
      createNewBlock_prepare demo_P (PoW_ConsensusEngine demo_P) 0 (\<lambda>_. False) 0 ?nd"
    by (rule use_pow.createNewBlock_prepare_embeds) (simp_all add: assms demo_bc0_sel demo_lbc_def)
  ultimately show ?thesis by simp
qed

definition demo_rpc :: RPC where
  "demo_rpc = \<lparr>rpc_From = ''LOCAL'', rpc_Payload = Message_Bytes demo_P (NewMessage MessageTypeBlock [11])\<rparr>"

text \<open>Its three steps: it prepares the block, adds it, and its goroutine broadcasts it.\<close>

lemma demo_commits:
  assumes nd: "sv_chain nd = map_engine UsePoW (demo_lbc\<lparr>bc_store := d\<rparr>)" "sv_isValidator nd" "sv_PrivateKey nd = Some demo_key"
    "sv_memPool nd = NewTxPool 10000" "nd_mining nd = None"
    and D: "d_so D = LevelDBStore_Storage demo_P demo_L" "d_ce D = any_ConsensusEngine demo_P"
  shows "\<exists>nd'. (node_act demo_P D)\<^sup>*\<^sup>* nd nd' \<and>
    bc_Headers (sv_chain nd') = [demo_h0, demo_h1] \<and> bc_consensus (sv_chain nd') = Some (UsePoW (NewPoWEngine 0)) \<and>
    nd_go nd' = nd_go nd @ [GoBroadcastBlock demo_b1] \<and> nd_net nd' = nd_net nd \<and> sv_Transports nd' = sv_Transports nd \<and>
    (\<exists>bc. AddBlock demo_P demo_ldb demo_pow demo_b1 (demo_lbc\<lparr>bc_store := d\<rparr>) = Some (bc, Ok ()) \<and> sv_chain nd' = map_engine UsePoW bc)"
proof -
  let ?nd1 = "nd\<lparr>nd_mining := Some demo_b1\<rparr>"
  have 1: "node_act demo_P D nd ?nd1"
    by (rule node_mine [of _ _ _ 0 "\<lambda>_. False" 0]) (simp_all add: nd D demo_prepares)
  obtain bc where bc: "AddBlock demo_P demo_ldb demo_pow demo_b1 (demo_lbc\<lparr>bc_store := d\<rparr>) = Some (bc, Ok ())"
    "bc_Headers bc = [demo_h0, demo_h1]" "bc_consensus bc = Some (NewPoWEngine 0)" using demo_ladd_any by blast
  then have add: "AddBlock demo_P (LevelDBStore_Storage demo_P demo_L) (any_ConsensusEngine demo_P) demo_b1 (sv_chain nd) =
      Some (map_engine UsePoW bc, Ok ())"
    by (simp add: nd(1) use_pow.AddBlock_embeds demo_ldb_def demo_pow_def)
  let ?nd2 = "spawn (GoBroadcastBlock demo_b1) (nd\<lparr>sv_chain := map_engine UsePoW bc, sv_memPool := ClearPending (sv_memPool nd)\<rparr>)"
  have keep: "nd\<lparr>nd_mining := None\<rparr> = nd" using nd(5) by (cases nd) simp
  have 2: "node_act demo_P D ?nd1 ?nd2"
    by (rule node_commit [of _ demo_b1 _ _ _ "Ok ()"]) (simp_all add: createNewBlock_commit_def keep D add)
  have "(node_act demo_P D)\<^sup>*\<^sup>* nd ?nd2" using 1 2 by (rule rtranclp.rtrancl_into_rtrancl [OF r_into_rtranclp])
  then show ?thesis using bc by (intro exI [of _ ?nd2]) (simp add: spawn_def)
qed

lemma demo_broadcasts:
  assumes nd: "nd_go nd = ts @ [GoBroadcastBlock demo_b1]" "sv_Transports nd = [0]" "nd_net nd = dev_network"
  shows "\<exists>nd'. node_act demo_P (dev_deps demo_P mesh_order (LevelDBStore_Storage demo_P demo_L)) nd nd' \<and>
    sv_chain nd' = sv_chain nd \<and> lt_consumeCh (nd_net nd' 1) = [demo_rpc]"
proof -
  obtain n' where n': "LocalTransport_Broadcast mesh_order 0 (rpc_Payload demo_rpc) dev_network = Some (n', Ok ())"
    "lt_consumeCh (n' 1) = [\<lparr>rpc_From = lt_addr (dev_network 0), rpc_Payload = rpc_Payload demo_rpc\<rparr>]"
    using mesh_broadcast [of 0 mesh_order "rpc_Payload demo_rpc", OF _ mesh_order_ok] by auto
  have addr: "lt_addr (dev_network 0) = ''LOCAL''"
    by (simp add: dev_network_def connectSym_value dev_transports_def NewLocalTransport_def Let_def)
  have "node_act demo_P (dev_deps demo_P mesh_order (LevelDBStore_Storage demo_P demo_L)) nd (nd\<lparr>nd_go := ts @ [], nd_net := n'\<rparr>)"
    by (rule broadcast_step [OF nd(2) nd(1) demo_Encode(2)]) (use n'(1) nd(3) in \<open>simp add: demo_rpc_def\<close>)
  then show ?thesis using n'(2) addr by (intro exI [of _ "nd\<lparr>nd_go := ts @ [], nd_net := n'\<rparr>"]) (simp add: demo_rpc_def)
qed

lemma demo_dev_commits:
  "\<exists>s0 s ts. runDevMode demo_P mesh_order demo_L demo_open demo_dev_flags (Ok demo_key) = Some (Ok s0) \<and>
     (dev_step demo_P demo_L)\<^sup>*\<^sup>* s0 s \<and> length (ds_peers s) = 3 \<and>
     list_all (\<lambda>nd. sv_chain nd = map_engine UsePoW demo_bc0 \<and> sv_rpcCh nd = []) (ds_peers s) \<and>
     local_headers s = [demo_h0, demo_h1] \<and> ds_engine s = UsePoW (NewPoWEngine 0) \<and> ds_net s = dev_network \<and>
     bc_consensus (sv_chain (ds_local s)) = Some (UsePoW (NewPoWEngine 0)) \<and> nd_net (ds_local s) = dev_network \<and>
     nd_go (ds_local s) = ts @ [GoBroadcastBlock demo_b1] \<and> sv_Transports (ds_local s) = [0]"
proof -
  obtain s d where s: "runDevMode demo_P mesh_order demo_L demo_open demo_dev_flags (Ok demo_key) = Some (Ok s)"
     "ds_net s = dev_network" "ds_engine s = UsePoW (NewPoWEngine 0)" "length (ds_peers s) = 3"
     "list_all (\<lambda>nd. sv_chain nd = map_engine UsePoW demo_bc0 \<and> sv_rpcCh nd = []) (ds_peers s)"
     "sv_chain (ds_local s) = map_engine UsePoW (demo_lbc\<lparr>bc_store := d\<rparr>)" "sv_isValidator (ds_local s)"
     "sv_PrivateKey (ds_local s) = Some demo_key" "sv_memPool (ds_local s) = NewTxPool 10000" "nd_mining (ds_local s) = None"
     "sv_Transports (ds_local s) = [0]" "nd_net (ds_local s) = dev_network"
    using demo_dev_starts [of mesh_order] by blast
  obtain nd where nd: "(node_act demo_P (dev_deps demo_P mesh_order (LevelDBStore_Storage demo_P demo_L)))\<^sup>*\<^sup>* (ds_local s) nd"
    "bc_Headers (sv_chain nd) = [demo_h0, demo_h1]" "bc_consensus (sv_chain nd) = Some (UsePoW (NewPoWEngine 0))"
    "nd_go nd = nd_go (ds_local s) @ [GoBroadcastBlock demo_b1]" "nd_net nd = dev_network" "sv_Transports nd = [0]"
    using demo_commits [OF s(6-10), of "dev_deps demo_P mesh_order (LevelDBStore_Storage demo_P demo_L)"] s(11,12) by auto
  have "bc_consensus (sv_chain (ds_local s)) = Some (UsePoW (NewPoWEngine 0))" by (simp add: s(6)) (simp add: demo_lbc_def)
  from local_run [OF nd(1) this, of s] nd(3) have
    "(dev_step demo_P demo_L)\<^sup>*\<^sup>* (s\<lparr>ds_local := ds_local s, ds_net := nd_net (ds_local s), ds_engine := UsePoW (NewPoWEngine 0)\<rparr>)
       (s\<lparr>ds_local := nd, ds_net := nd_net nd, ds_engine := UsePoW (NewPoWEngine 0)\<rparr>)" by auto
  moreover have "s\<lparr>ds_local := ds_local s, ds_net := nd_net (ds_local s), ds_engine := UsePoW (NewPoWEngine 0)\<rparr> = s"
    using s(2,3,12) by (cases s) simp
  ultimately show ?thesis using s(1,4,5) nd(2-6)
    by (intro exI [of _ s] exI [of _ "s\<lparr>ds_local := nd, ds_net := nd_net nd, ds_engine := UsePoW (NewPoWEngine 0)\<rparr>"]
        exI [of _ "nd_go (ds_local s)"]) simp
qed

lemma demo_dev_run:
  "\<exists>s0 s. runDevMode demo_P mesh_order demo_L demo_open demo_dev_flags (Ok demo_key) = Some (Ok s0) \<and>
     (dev_step demo_P demo_L)\<^sup>*\<^sup>* s0 s \<and> length (ds_peers s) = 3 \<and> local_headers s = [demo_h0, demo_h1] \<and>
     lt_consumeCh (ds_net s 1) = [demo_rpc]"
proof -
  obtain s0 s ts where s0: "runDevMode demo_P mesh_order demo_L demo_open demo_dev_flags (Ok demo_key) = Some (Ok s0)"
    and s: "(dev_step demo_P demo_L)\<^sup>*\<^sup>* s0 s" "length (ds_peers s) = 3" "local_headers s = [demo_h0, demo_h1]"
    "ds_engine s = UsePoW (NewPoWEngine 0)" "ds_net s = dev_network" "bc_consensus (sv_chain (ds_local s)) = Some (UsePoW (NewPoWEngine 0))"
    "nd_net (ds_local s) = dev_network" "nd_go (ds_local s) = ts @ [GoBroadcastBlock demo_b1]" "sv_Transports (ds_local s) = [0]"
    using demo_dev_commits by blast
  obtain nd where nd: "node_act demo_P (dev_deps demo_P mesh_order (LevelDBStore_Storage demo_P demo_L)) (ds_local s) nd"
    "sv_chain nd = sv_chain (ds_local s)" "lt_consumeCh (nd_net nd 1) = [demo_rpc]"
    using demo_broadcasts [OF s(8,9,7)] by blast
  have same: "attach (ds_engine s) (ds_net s) (ds_local s) = ds_local s" using s(4-7) by (simp add: attach_same)
  let ?s = "s\<lparr>ds_local := nd, ds_net := nd_net nd, ds_engine := UsePoW (NewPoWEngine 0)\<rparr>"
  have "dev_step demo_P demo_L s ?s" using nd(1,2) s(6) by (intro dev_local_acts [of _ mesh_order]) (simp_all add: same)
  then have "(dev_step demo_P demo_L)\<^sup>*\<^sup>* s0 ?s" using s(1) by simp
  then show ?thesis using s0 s(2,3) nd(2,3) by (intro exI [of _ s0] exI [of _ ?s]) simp
qed

theorem dev_agreement_witness:
  "\<exists>s0 s. runDevMode demo_P mesh_order demo_L demo_open demo_dev_flags (Ok demo_key) = Some (Ok s0) \<and>
    (dev_step demo_P demo_L)\<^sup>*\<^sup>* s0 s \<and> local_headers s = [demo_h0, demo_h1] \<and> linked demo_P (local_headers s) \<and>
    length (ds_peers s) = 3 \<and> prefix (bc_Headers (sv_chain (ds_peers s ! 2))) [demo_h0, demo_h1]"
proof -
  obtain s0 s where s0: "runDevMode demo_P mesh_order demo_L demo_open demo_dev_flags (Ok demo_key) = Some (Ok s0)"
    and s: "(dev_step demo_P demo_L)\<^sup>*\<^sup>* s0 s" "length (ds_peers s) = 3" "local_headers s = [demo_h0, demo_h1]"
    using demo_dev_run by blast
  have db: "demo_open (flagDataDir demo_dev_flags) = Ok Map.empty" by (simp add: demo_open_def)
  have "\<forall>n. \<exists>e. LevelDBStore_Get demo_P demo_L Map.empty n = Err e" using demo_new_db by blast
  from dev_agreement [OF s0 demo_gob_laws demo_L_laws demo_L_atomic db this s(1) rtranclp.rtrancl_refl] s0 s
  show ?thesis by (intro exI [of _ s0] exI [of _ s]) simp
qed

section \<open>Messages\<close>



section \<open>Bounds\<close>

text \<open>The size of a node: its pool, its header list and the balances of its world state.\<close>

definition node_bounded :: "('h, 's, 'c, 'n) Node \<Rightarrow> bool" where
  "node_bounded nd \<longleftrightarrow> length (Data (sm_txx (pool_all (sv_memPool nd)))) \<le> 10000 \<and>
     length (bc_Headers (sv_chain nd)) \<le> 2 ^ 32 \<and> (\<forall>a. balance_of (bc_WorldState (sv_chain nd)) a < 5 * 2 ^ 32)"

lemma node_on_bounded:
  assumes "node_on P so hs nd"
  shows "node_bounded nd"
proof -
  have sound: "chain_sound P so (sv_chain nd)" using assms by (simp add: node_on_def)
  have "balance_of (bc_WorldState (sv_chain nd)) a < 5 * 2 ^ 32" for a
    using chain_sound_supply [OF sound] balance_le_supply by (rule order.strict_trans1 [rotated])
  moreover have "length (bc_Headers (sv_chain nd)) \<le> 2 ^ 32" using sound by (simp add: chain_sound_def linked_def)
  ultimately show ?thesis using assms by (simp add: node_bounded_def node_on_def pool_ok_def defaultTxPoolMaxLength_def)
qed



section \<open>Delivery\<close>

lemma dev_ok_peer:
  assumes "dev_ok P L s" and "i < 3"
  shows "node_on P (MemoryStore_Storage P) (local_headers s) (ds_peers s ! i)"
proof -
  have "length (map sv_Transports (ds_peers s)) = 3" using assms(1) unfolding dev_ok_def by simp
  then show ?thesis using assms by (simp add: dev_ok_def)
qed

text \<open>C8. A block the miner has added reaches an idle peer: from every reachable state in which the
  miner's goroutine is about to broadcast a block, the peers' channels have room, a peer is one
  block behind with nothing queued, and the peer's chain accepts the block, the system can run to a
  state in which that peer has stored the block and its headers are the miner's headers.\<close>

theorem dev_block_delivered:
  assumes "runDevMode P ord L OpenFile flags generated = Some (Ok s0)" and "gob_laws P" and "leveldb_laws L" and "leveldb_atomic L"
    and "OpenFile (flagDataDir flags) = Ok db" and "\<forall>n. \<exists>e. LevelDBStore_Get P L db n = Err e"
    and "(dev_step P L)\<^sup>*\<^sup>* s0 s"
    and "GoBroadcastBlock b \<in> set (nd_go (ds_local s))" and "Block_Encode P b = Ok buf"
    and "\<forall>k \<in> {1, 2, 3}. length (lt_consumeCh (ds_net s k)) < consumeCh_cap"
    and "i < 3" and "lt_consumeCh (ds_net s (i + 1)) = []" and "sv_rpcCh (ds_peers s ! i) = []"
    and "length (local_headers s) = length (bc_Headers (sv_chain (ds_peers s ! i))) + 1"
    and "AddBlock P (MemoryStore_Storage P) (any_ConsensusEngine P) (block_exported b)
      ((sv_chain (ds_peers s ! i))\<lparr>bc_consensus := Some (ds_engine s)\<rparr>) = Some (bc, Ok ())"
  shows "\<exists>s'. (dev_step P L)\<^sup>*\<^sup>* s s' \<and> sv_chain (ds_peers s' ! i) = bc \<and>
    bc_Headers (sv_chain (ds_peers s' ! i)) = local_headers s' \<and> local_headers s' = local_headers s"
proof -
  have ok: "dev_ok P L s" by (rule dev_reachable [OF assms(1-7)])
  note on = dev_ok_peer [OF ok assms(11)]
  obtain s' where s': "(dev_step P L)\<^sup>*\<^sup>* s s'" "sv_chain (ds_peers s' ! i) = bc" "local_headers s' = local_headers s"
    using block_delivery [OF ok assms(2,8,9) _ assms(11-13,15)] assms(10) by blast
  have "dev_ok P L s'" using dev_steps_ok [OF s'(1) ok assms(2-4)] by blast
  from dev_ok_peer [OF this assms(11)] have "prefix (bc_Headers bc) (local_headers s')" using s'(2) by (simp add: node_on_def)
  moreover have "length (bc_Headers bc) = length (local_headers s)"
    using ms.AddBlock_grows [OF assms(15) _ any_weight_no_err] on assms(14) by (auto simp: node_on_def)
  ultimately show ?thesis using s' by (intro exI [of _ s']) (auto simp: prefix_def)
qed

theorem dev_block_delivered_witness:
  "\<exists>s s'. (dev_step demo_P demo_L)\<^sup>*\<^sup>* s s' \<and> bc_Headers (sv_chain (ds_peers s ! 2)) = [demo_h0] \<and>
    bc_Headers (sv_chain (ds_peers s' ! 2)) = [demo_h0, demo_h1] \<and> local_headers s' = [demo_h0, demo_h1]"
proof -
  obtain s0 s ts where s0: "runDevMode demo_P mesh_order demo_L demo_open demo_dev_flags (Ok demo_key) = Some (Ok s0)"
    and s: "(dev_step demo_P demo_L)\<^sup>*\<^sup>* s0 s" "length (ds_peers s) = 3"
    "list_all (\<lambda>nd. sv_chain nd = map_engine UsePoW demo_bc0 \<and> sv_rpcCh nd = []) (ds_peers s)"
    "local_headers s = [demo_h0, demo_h1]" "ds_engine s = UsePoW (NewPoWEngine 0)" "ds_net s = dev_network"
    "nd_go (ds_local s) = ts @ [GoBroadcastBlock demo_b1]"
    using demo_dev_commits by blast
  have peer: "sv_chain (ds_peers s ! 2) = map_engine UsePoW demo_bc0" "sv_rpcCh (ds_peers s ! 2) = []"
    using s(2,3) by (simp_all add: list_all_length)
  have go: "GoBroadcastBlock demo_b1 \<in> set (nd_go (ds_local s))" by (simp add: s(7))
  have idle: "\<forall>k \<in> {1, 2, 3}. length (lt_consumeCh (ds_net s k)) < consumeCh_cap" "lt_consumeCh (ds_net s (2 + 1)) = []"
    by (simp_all add: s(6) dev_network_idle consumeCh_cap_def)
  have "block_exported demo_b1 = demo_b1" by (simp add: block_exported_def demo_b1_def demo_block_def NewBlock_def)
  moreover have "(map_engine UsePoW demo_bc0)\<lparr>bc_consensus := Some (UsePoW (NewPoWEngine 0))\<rparr> = map_engine UsePoW demo_bc0"
    by (simp add: map_engine_def demo_bc0_sel)
  moreover obtain bc where "AddBlock demo_P demo_ms demo_pow demo_b1 demo_bc0 = Some (bc, Ok ())" using demo_add1 by blast
  ultimately have add: "AddBlock demo_P (MemoryStore_Storage demo_P) (any_ConsensusEngine demo_P) (block_exported demo_b1)
      ((sv_chain (ds_peers s ! 2))\<lparr>bc_consensus := Some (ds_engine s)\<rparr>) = Some (map_engine UsePoW bc, Ok ())"
    by (simp add: peer(1) s(5) use_pow.AddBlock_embeds demo_ms_def demo_pow_def)
  have db: "demo_open (flagDataDir demo_dev_flags) = Ok Map.empty" by (simp add: demo_open_def)
  have new: "\<forall>n. \<exists>e. LevelDBStore_Get demo_P demo_L Map.empty n = Err e" using demo_new_db by blast
  have len: "length (local_headers s) = length (bc_Headers (sv_chain (ds_peers s ! 2))) + 1" by (simp add: s(4) peer(1) demo_bc0_sel)
  have "(2 :: nat) < 3" by simp
  from dev_block_delivered [OF s0 demo_gob_laws demo_L_laws demo_L_atomic db new s(1) go demo_Encode(2) idle(1) this idle(2) peer(2) len add]
  obtain s' where "(dev_step demo_P demo_L)\<^sup>*\<^sup>* s s'" "bc_Headers (sv_chain (ds_peers s' ! 2)) = local_headers s'"
    "local_headers s' = local_headers s" by blast
  then show ?thesis using peer(1) s(4) by (intro exI [of _ s] exI [of _ s']) (simp add: demo_bc0_sel)
qed

section \<open>One engine behind the interface\<close>

text \<open>Where a chain holds the engine that \<open>createConsensusEngine\<close> chose, adding a block to it is adding
  the block with that engine: the choice dispatches to the proof-of-work engine and to the
  proof-of-stake engine and changes nothing else.\<close>

theorem AddBlock_by_engine:
  "AddBlock P so (any_ConsensusEngine P) b (map_engine UsePoW bc) =
     map_option (apfst (map_engine UsePoW)) (AddBlock P so (PoW_ConsensusEngine P) b bc) \<and>
   AddBlock P so (any_ConsensusEngine P) b (map_engine UsePoS bc') =
     map_option (apfst (map_engine UsePoS)) (AddBlock P so (PoS_ConsensusEngine P) b bc')"
  by (simp add: use_pow.AddBlock_embeds use_pos.AddBlock_embeds)

end
