(* ===== verification/APITheorems.thy ===== *)
theory APITheorems
  imports NetworkTheorems
begin

text \<open>
  The properties of the JSON-RPC interface, src/api/rpc.go.
\<close>

text \<open>A JSON decoder whose requests and parameters are given as values.\<close>

definition demo_J :: "(string JSONRPCRequest, string) json_prims" where
  "demo_J = \<lparr>json_Request = Ok, json_String = Ok\<rparr>"

definition demo_request :: "string \<Rightarrow> string \<Rightarrow> string JSONRPCRequest" where
  "demo_request m p = \<lparr>rq_JSONRPC = ''2.0'', rq_Method = m, rq_Params = [p], rq_ID = Some ''1''\<rparr>"

lemma demo_request_sel [simp]:
  "json_Request demo_J body = Ok body" "json_String demo_J p = Ok p" "rq_Method (demo_request m p) = m"
  "rq_Params (demo_request m p) = [p]" "rq_ID (demo_request m p) = Some ''1''"
  by (simp_all add: demo_J_def demo_request_def)

lemma unat_ucast_number: "x < 2 ^ 64 \<Longrightarrow> unat (ucast (of_nat x :: u64) :: u32) = x mod 2 ^ 32"
  by (simp add: unsigned_ucast_eq unsigned_take_bit_eq unat_of_nat take_bit_eq_mod)

lemma handleGetBlockByNumber_at:
  assumes "json_String J p = Ok (''0x'' @ hex_digits x)" and "x < 2 ^ 64" and "linked P (bc_Headers (sv_chain nd))"
    and "x mod 2 ^ 32 < length (bc_Headers (sv_chain nd))"
  shows "handleGetBlockByNumber J (p # ps) nd = Ok (RHeader (bc_Headers (sv_chain nd) ! (x mod 2 ^ 32)))"
proof -
  have len: "length (bc_Headers (sv_chain nd)) \<le> 2 ^ 32" "bc_Headers (sv_chain nd) \<noteq> []"
    using assms(3) by (simp_all add: linked_def)
  have "\<not> Height (sv_chain nd) < (ucast (of_nat x :: u64) :: u32)"
    using assms(4) unat_heightLocked [OF len(2,1)] unat_ucast_number [OF assms(2)] by (simp add: Height_def word_less_nat_alt)
  then have "GetHeader (sv_chain nd) (ucast (of_nat x :: u64)) = Ok (bc_Headers (sv_chain nd) ! (x mod 2 ^ 32))"
    using assms(4) unat_ucast_number [OF assms(2)] by (simp add: GetHeader_def)
  then show ?thesis using assms(1) Sscanf_0x_digits [OF assms(2)] by (simp add: handleGetBlockByNumber_def Let_def)
qed

text \<open>C32. The block number that \<open>eth_blockNumber\<close> reports is that of the last header, and
  \<open>eth_getBlockByNumber\<close> with the hexadecimal form of any number of the chain returns the header
  at that position; neither changes the node.\<close>

theorem API_block_numbers:
  assumes "json_Request J body = Ok req" and "rq_Method req = ''eth_getBlockByNumber''" and "rq_Params req = p # ps"
    and "json_String J p = Ok (''0x'' @ hex_digits n)" and "linked P (bc_Headers (sv_chain nd))"
    and "n < length (bc_Headers (sv_chain nd))"
  shows "handleRequest P J now body nd =
      Some (nd, Ok (writeResult (rq_ID req) (RHeader (bc_Headers (sv_chain nd) ! n)))) \<and>
    handleBlockNumber nd = ''0x'' @ hex_digits (length (bc_Headers (sv_chain nd)) - 1)"
proof
  have len: "length (bc_Headers (sv_chain nd)) \<le> 2 ^ 32" "bc_Headers (sv_chain nd) \<noteq> []"
    using assms(5) by (simp_all add: linked_def)
  show "handleRequest P J now body nd =
      Some (nd, Ok (writeResult (rq_ID req) (RHeader (bc_Headers (sv_chain nd) ! n))))"
    using assms handleGetBlockByNumber_at [OF assms(4) _ assms(5)] len(1) by (simp add: handleRequest_def respond_def)
  show "handleBlockNumber nd = ''0x'' @ hex_digits (length (bc_Headers (sv_chain nd)) - 1)"
    using unat_heightLocked [OF len(2,1)] by (simp add: handleBlockNumber_def Height_def)
qed

theorem API_block_numbers_witness:
  "handleRequest demo_P demo_J 0 (demo_request ''eth_getBlockByNumber'' ''0x1'') (demo_node 0 demo_bc1 demo_pool) =
      Some (demo_node 0 demo_bc1 demo_pool, Ok (writeResult (Some ''1'') (RHeader demo_h1))) \<and>
    handleBlockNumber (demo_node 0 demo_bc1 demo_pool) = ''0x1''"
proof -
  have d: "hex_digits (Suc 0) = ''1''" by (subst hex_digits.simps) (simp add: hex_digit_def)
  show ?thesis
    using API_block_numbers [of demo_J "demo_request ''eth_getBlockByNumber'' ''0x1''" "demo_request ''eth_getBlockByNumber'' ''0x1''"
        "''0x1''" "[]" 1 demo_P "demo_node 0 demo_bc1 demo_pool" 0]
    by (simp add: d demo_bc1_sel demo_linked)
qed

text \<open>A number that does not parse is silently taken for zero, and a number of 33 bits or more for its
  remainder: \<open>eth_getBlockByNumber\<close> answers with the genesis header or with the header of another
  block instead of an error.\<close>

theorem API_wrong_block:
  assumes "linked P (bc_Headers (sv_chain nd))"
  shows "(json_String J p = Ok s \<and> s \<noteq> ''latest'' \<and> Sscanf_0x s = None \<longrightarrow>
      handleGetBlockByNumber J (p # ps) nd = Ok (RHeader (hd (bc_Headers (sv_chain nd))))) \<and>
    (json_String J p = Ok (''0x'' @ hex_digits x) \<and> x < 2 ^ 64 \<and> x mod 2 ^ 32 < length (bc_Headers (sv_chain nd)) \<longrightarrow>
      handleGetBlockByNumber J (p # ps) nd = Ok (RHeader (bc_Headers (sv_chain nd) ! (x mod 2 ^ 32))))"
proof -
  have "bc_Headers (sv_chain nd) \<noteq> []" using assms by (simp add: linked_def)
  then have "handleGetBlockByNumber J (p # ps) nd = Ok (RHeader (hd (bc_Headers (sv_chain nd))))"
    if "json_String J p = Ok s" "s \<noteq> ''latest''" "Sscanf_0x s = None"
    using that by (simp add: handleGetBlockByNumber_def GetHeader_def hd_conv_nth)
  then show ?thesis using handleGetBlockByNumber_at [of J p x P nd ps] assms by simp
qed

theorem API_wrong_block_witness:
  "handleGetBlockByNumber demo_J [''1''] (demo_node 0 demo_bc1 demo_pool) = Ok (RHeader demo_h0)"
  using API_wrong_block [of demo_P "demo_node 0 demo_bc1 demo_pool" demo_J "''1''" "''1''" "[]"]
  by (simp add: demo_bc1_sel demo_linked Sscanf_0x_def)

text \<open>\<open>eth_getBalance\<close> with the hexadecimal form of an address answers with the balance that the world
  state holds for that address, and an address of another length makes the handler panic.\<close>

theorem API_getBalance:
  assumes "json_Request J body = Ok req" and "rq_Method req = ''eth_getBalance''" and "rq_Params req = p # ps"
    and "json_String J p = Ok (''0x'' @ EncodeToString bs)"
  shows "handleRequest P J now body nd =
    Some (nd, if length bs = 20
      then Ok (writeResult (rq_ID req)
        (RString (''0x'' @ hex_digits (balance_of (bc_WorldState (sv_chain nd)) (mk_address bs)))))
      else Panic (BadLength (length bs) 20))"
proof (cases "length bs = 20")
  case True
  then show ?thesis using assms
    by (simp add: handleRequest_def handleGetBalance_def respond_def strip2_def hex_DecodeString_def
        DecodeString_EncodeToString balance_of_def)
next
  case False
  then show ?thesis using assms
    by (simp add: handleRequest_def handleGetBalance_def respond_def strip2_def hex_DecodeString_def
        DecodeString_EncodeToString AddressFromBytes_def)
qed

theorem API_getBalance_witness:
  "handleRequest demo_P demo_J 0 (demo_request ''eth_getBalance'' (''0x'' @ EncodeToString (address_bytes demo_addr)))
      (demo_node 0 demo_bc1 demo_pool) =
    Some (demo_node 0 demo_bc1 demo_pool, Ok (writeResult (Some ''1'') (RString (''0x'' @ hex_digits 5))))"
  using API_getBalance [of demo_J "demo_request ''eth_getBalance'' (''0x'' @ EncodeToString (address_bytes demo_addr))"
      "demo_request ''eth_getBalance'' (''0x'' @ EncodeToString (address_bytes demo_addr))"
      "''0x'' @ EncodeToString (address_bytes demo_addr)" "[]" "address_bytes demo_addr" demo_P 0 "demo_node 0 demo_bc1 demo_pool"]
  by (simp add: demo_bc1_sel balance_of_def demo_rich)



end
