(* ===== verification/ProdTheorems.thy ===== *)
theory ProdTheorems
  imports DevTheorems APITheorems
begin

text \<open>
  A production node over its whole life: it runs among peers and clients, is stopped, and is
  started again on the database it has left.
\<close>

section \<open>Lives of a node\<close>

text \<open>
  \<open>handleShutdown\<close> ends the process on a signal, and only the database stays. Flags, key and
  network may be others in the next life. The signal arrives between two steps of the node.
\<close>

inductive production_life ::
  "'x net_prims_scheme \<Rightarrow> ('k, 'l, 'r, 'w) tcp_prims \<Rightarrow> ((NetAddr \<rightharpoonup> 'k TCPPeer) \<Rightarrow> NetAddr list) \<Rightarrow> ('body, 'raw) json_prims
   \<Rightarrow> 'd leveldb \<Rightarrow> 'd \<Rightarrow> 'd \<Rightarrow> bool"
  for P :: "'x net_prims_scheme" and N :: "('k, 'l, 'r, 'w) tcp_prims" and ord :: "(NetAddr \<rightharpoonup> 'k TCPPeer) \<Rightarrow> NetAddr list"
    and J :: "('body, 'raw) json_prims" and L :: "'d leveldb" where
  handleShutdown: "OpenFile (flagDataDir flags) = Ok db \<Longrightarrow>
    runProductionMode P N ord L OpenFile flags generated w = Some (Ok nd0) \<Longrightarrow>
    (rpc_step P J (production_deps P N ord L))\<^sup>*\<^sup>* nd0 nd \<Longrightarrow> production_life P N ord J L db (bc_store (sv_chain nd))"

text \<open>What a life finds and leaves, if no write was lost below one that was made.\<close>

definition at_rest :: "'x net_prims_scheme \<Rightarrow> 's Storage \<Rightarrow> 's \<Rightarrow> bool" where
  "at_rest P so db \<longleftrightarrow> gapless so db \<and>
     (\<exists>hs. store_sound so db hs \<and> (hs \<noteq> [] \<longrightarrow> linked P hs \<and> hd hs = genesis_header))"

lemma new_at_rest: "\<forall>n. \<exists>e. st_Get so db n = Err e \<Longrightarrow> at_rest P so db"
  unfolding at_rest_def gapless_def store_sound_def by (metis outcome.disc(2) outcome.distinct(1))

lemma production_deps_sel [simp]:
  "d_so (production_deps P N ord L) = LevelDBStore_Storage P L" "d_ce (production_deps P N ord L) = any_ConsensusEngine P"
  by (simp_all add: production_deps_def)

lemma production_starts:
  assumes "runProductionMode P N ord L OpenFile flags generated w = Some (Ok nd0)" and "OpenFile (flagDataDir flags) = Ok db"
    and store: "durable_store P (LevelDBStore_Storage P L)" and rest: "at_rest P (LevelDBStore_Storage P L) db"
  shows "node_inv P (\<lambda>bc. chain_since P (LevelDBStore_Storage P L) (length (bc_Headers (sv_chain nd0))) bc \<and>
      prefix (bc_Headers (sv_chain nd0)) (bc_Headers bc)) nd0 \<and> hd (bc_Headers (sv_chain nd0)) = genesis_header \<and>
    store_sound (LevelDBStore_Storage P L) db (bc_Headers (sv_chain nd0))"
proof -
  let ?D = "production_deps P N ord L" and ?so = "LevelDBStore_Storage P L"
  from assms(1,2) obtain opts net nd1 where server: "NewServer P ?D opts net = Some (Ok nd1)" "so_Storage opts = db"
    and nd0: "nd0 = Start_init nd1"
    by (auto simp: runProductionMode_def mustCreateStorage_def NewLevelDBStore_def bind_run_def Let_def
        split: outcome.splits prod.splits option.splits)
  from server(1) obtain bc where new: "NewBlockchain P ?so (d_ce ?D) genesisBlock db = Some (bc, Ok ())"
    and nd1: "sv_chain nd1 = (case so_Consensus opts of None \<Rightarrow> bc | Some c \<Rightarrow> SetConsensus c bc)"
      "sv_memPool nd1 = NewTxPool defaultTxPoolMaxLength"
    by (rule NewServer_OkE) (simp add: server(2))
  obtain hs where "store_sound ?so db hs" "gapless ?so db" "hs \<noteq> [] \<Longrightarrow> linked P hs \<and> hd hs = genesis_header"
    using rest by (auto simp: at_rest_def)
  from durable_store.NewBlockchain_resumes [OF store this genesis_header new]
  have "chain_since P ?so (length (bc_Headers (sv_chain nd1))) (sv_chain nd1)" "hd (bc_Headers (sv_chain nd1)) = genesis_header"
    "store_sound ?so db (bc_Headers (sv_chain nd1))"
    using nd1(1) by (auto simp: SetConsensus_def split: option.splits)
  moreover have "sv_chain nd0 = sv_chain nd1" using Start_init_frame [of nd1 "[]"] nd0 by auto
  ultimately show ?thesis unfolding nd0
    using nd1(2) by (auto simp: node_inv_def defaultTxPoolMaxLength_def intro!: Start_init_inv wf_intro)
qed

text \<open>What a step of any kind keeps.\<close>

lemma production_keeps:
  assumes "(rpc_step P J (production_deps P N ord L))\<^sup>*\<^sup>* nd nd'" and "durable_store P (LevelDBStore_Storage P L)"
    and "node_inv P (\<lambda>bc. chain_since P (LevelDBStore_Storage P L) k bc \<and> prefix hs (bc_Headers bc)) nd"
  shows "node_inv P (\<lambda>bc. chain_since P (LevelDBStore_Storage P L) k bc \<and> prefix hs (bc_Headers bc)) nd'"
  using chain_invariant.rpc_steps_inv [OF durable_node [of P "production_deps P N ord L" k hs], simplified, OF assms(2) any_weight_no_err assms(1,3)] .

lemma life_at_rest:
  assumes "production_life P N ord J L db db'" and store: "durable_store P (LevelDBStore_Storage P L)"
    and "at_rest P (LevelDBStore_Storage P L) db" and "gapless (LevelDBStore_Storage P L) db'"
  shows "at_rest P (LevelDBStore_Storage P L) db'"
  using assms(1)
proof cases
  case (handleShutdown OpenFile flags generated w nd0 nd)
  note start = production_starts [OF handleShutdown(3,2) store assms(3)]
  have "node_inv P (\<lambda>bc. chain_since P (LevelDBStore_Storage P L) (length (bc_Headers (sv_chain nd0))) bc \<and>
      prefix (bc_Headers (sv_chain nd0)) (bc_Headers bc)) nd"
    using production_keeps [OF handleShutdown(4) store] start by blast
  then have end_of_life: "chain_since P (LevelDBStore_Storage P L) (length (bc_Headers (sv_chain nd0))) (sv_chain nd)"
    "prefix (bc_Headers (sv_chain nd0)) (bc_Headers (sv_chain nd))" by (simp_all add: node_inv_def)
  then have "hd (bc_Headers (sv_chain nd)) = genesis_header"
    using start hd_prefix [OF end_of_life(2)] by (auto simp: chain_since_def)
  then show ?thesis using end_of_life(1) assms(4) handleShutdown(1)
    by (auto simp: at_rest_def chain_since_def intro!: exI [of _ "bc_Headers (sv_chain nd)"])
qed

lemma lives_at_rest:
  assumes "(\<lambda>db db'. production_life P N ord J L db db' \<and> gapless (LevelDBStore_Storage P L) db')\<^sup>*\<^sup>* db0 db"
    and "durable_store P (LevelDBStore_Storage P L)" and "\<forall>n. \<exists>e. LevelDBStore_Get P L db0 n = Err e"
  shows "at_rest P (LevelDBStore_Storage P L) db"
  using assms(1)
proof (induction rule: rtranclp_induct)
  case base
  then show ?case using assms(3) by (intro new_at_rest) simp
next
  case (step db1 db2)
  then show ?case using life_at_rest [OF _ assms(2)] by blast
qed


section \<open>Two lives\<close>

lemma store_agrees_gapless: "store_agrees so st hs \<Longrightarrow> gapless so st"
proof (unfold gapless_def, intro allI impI)
  fix m n
  assume ag: "store_agrees so st hs" and "m \<le> n" and ok: "is_Ok (st_Get so st n)"
  then have "unat n < length hs" unfolding store_agrees_def by (metis outcome.disc(2))
  then have "unat m < length hs" using \<open>m \<le> n\<close> by (simp add: word_le_nat_alt)
  then show "is_Ok (st_Get so st m)" using store_agrees_in [OF ag] by fastforce
qed

lemma demo_production_starts:
  assumes "OpenFile (flagDataDir demo_flags) = Ok db"
    and new: "NewBlockchain demo_P (LevelDBStore_Storage demo_P demo_L) (any_ConsensusEngine demo_P) genesisBlock db = Some (bc, Ok ())"
  shows "\<exists>nd. runProductionMode demo_P demo_wires ord demo_L OpenFile demo_flags (Ok demo_key) () = Some (Ok nd) \<and>
     sv_chain nd = SetConsensus (UsePoW (NewPoWEngine 0)) bc \<and> sv_isValidator nd \<and> sv_PrivateKey nd = Some demo_key \<and>
     sv_memPool nd = NewTxPool 10000 \<and> nd_mining nd = None"
proof -
  have frame: "sv_chain (Start_init nd) = sv_chain nd" "sv_isValidator (Start_init nd) = sv_isValidator nd"
    "sv_PrivateKey (Start_init nd) = sv_PrivateKey nd" "sv_memPool (Start_init nd) = sv_memPool nd" "nd_mining (Start_init nd) = nd_mining nd"
    for nd :: "(unit, byte list \<rightharpoonup> byte list, consensus_choice, (unit, unit, nat, unit) TCPTransport) Node"
    by (rule exE [OF Start_init_frame [of nd "[]"]], simp)+
  have flags: "flagMine demo_flags" "flagRPCAddr demo_flags = []" by (simp_all add: demo_flags_def)
  show ?thesis using assms
    by (simp add: runProductionMode_def bind_run_def GeneratePrivateKey_def demo_key_addr demo_engine mustCreateStorage_def NewLevelDBStore_def
        TCPTransport_Listen_def demo_wires_def NewServer_def production_deps_def flags frame Let_def spawn_def defaultTxPoolMaxLength_def)
qed

text \<open>The first life mines a block, the second begins with it.\<close>

lemma demo_first_life:
  "\<exists>bc. chain_ok demo_P (LevelDBStore_Storage demo_P demo_L) bc \<and> bc_Headers bc = [demo_h0, demo_h1] \<and>
    production_life demo_P demo_wires (\<lambda>_. []) J demo_L Map.empty (bc_store (bc :: (_, PoWEngine) Blockchain))"
proof -
  let ?so = "LevelDBStore_Storage demo_P demo_L" and ?D = "production_deps demo_P demo_wires (\<lambda>_. []) demo_L"
  obtain d where new: "NewBlockchain demo_P ?so (any_ConsensusEngine demo_P) genesisBlock Map.empty =
      Some (map_engine UsePoW (demo_lbc\<lparr>bc_store := d, bc_consensus := None\<rparr>), Ok ())" using demo_new_chain by blast
  have store: "block_store demo_P ?so" using demo_L_laws demo_marshal demo_gob_block demo_gob_tx by (rule LevelDBStore_block_store)
  have "chain_ok demo_P ?so (map_engine UsePoW (demo_lbc\<lparr>bc_store := d, bc_consensus := None\<rparr>))"
    using block_store.NewBlockchain_chain_ok [OF store _ genesis_header new] demo_new_db by simp
  then have ok: "chain_ok demo_P ?so (demo_lbc\<lparr>bc_store := d\<rparr>)" by (simp add: chain_ok_def)
  obtain nd0 where nd0: "runProductionMode demo_P demo_wires (\<lambda>_. []) demo_L demo_open demo_flags (Ok demo_key) () = Some (Ok nd0)"
    and fields: "sv_chain nd0 = map_engine UsePoW (demo_lbc\<lparr>bc_store := d\<rparr>)" "sv_isValidator nd0" "sv_PrivateKey nd0 = Some demo_key"
      "sv_memPool nd0 = NewTxPool 10000" "nd_mining nd0 = None"
    using demo_production_starts [OF _ new, of demo_open "\<lambda>_. []"] demo_lbc_engine [of d] by (auto simp: demo_open_def SetConsensus_def)
  obtain nd bc where nd: "(node_act demo_P ?D)\<^sup>*\<^sup>* nd0 nd" "bc_Headers (sv_chain nd) = [demo_h0, demo_h1]" "sv_chain nd = map_engine UsePoW bc"
    and add: "AddBlock demo_P demo_ldb demo_pow demo_b1 (demo_lbc\<lparr>bc_store := d\<rparr>) = Some (bc, Ok ())"
    using demo_commits [OF fields, of ?D] by auto
  have "(rpc_step demo_P J ?D)\<^sup>*\<^sup>* nd0 nd" by (rule rtranclp_mono [THEN predicate2D, OF _ nd(1)]) (auto intro: rpc_node node_own)
  from handleShutdown [OF _ nd0 this] have "production_life demo_P demo_wires (\<lambda>_. []) J demo_L Map.empty (bc_store bc)"
    using nd(3) by (simp add: demo_open_def)
  moreover have "chain_ok demo_P ?so bc" using block_store.AddBlock_chain_ok [OF store ok add [unfolded demo_ldb_def]] by blast
  ultimately show ?thesis using nd(2,3) by auto
qed


end
