(* ===== verification/TcpTheorems.thy ===== *)
theory TcpTheorems
  imports TcpTransport Sample
begin

text \<open>
  The property of the TCP transport, src/network/tcp_transport.go.
\<close>

text \<open>C30. In every state a TCP transport can reach, by connecting, accepting, sending, reading and consuming
  in any order and with any behaviour of the connections: every peer is registered under its own
  remote address, the channel is within its capacity, and the envelope of every message in the
  channel can be decoded by the server, whatever bytes the peers have sent. A message that a read
  loop decodes is queued with the address of its peer, and it decodes to what was read.\<close>

theorem TCP_transport_invariant:
  assumes "(tcp_step P N)\<^sup>*\<^sup>* (NewTCPTransport addr w) t" and "gob_messages_roundtrip P"
  shows "(\<forall>a peer. tt_peers t a = Some peer \<longrightarrow> conn_RemoteAddr N (tp_Conn peer) = a) \<and>
    length (tt_consumeCh t) \<le> 1024 \<and>
    (\<forall>rpc \<in> set (tt_consumeCh t). \<exists>msg. ungob_Message P (rpc_Payload rpc) = Ok msg) \<and>
    (\<forall>i peer dec w' dec' msg. i < length (tt_readLoops t) \<and> tt_readLoops t ! i = (peer, dec) \<and>
       Decoder_Decode N dec (tt_world t) = Some (w', dec', Some msg) \<and> snd (gob_Message P msg) = Ok () \<and>
       length (tt_consumeCh t) < 1024 \<longrightarrow>
       (\<exists>t' rpc. readLoop_turn P N i t = Some t' \<and> tt_consumeCh t' = tt_consumeCh t @ [rpc] \<and>
          rpc_From rpc = conn_RemoteAddr N (tp_Conn peer) \<and> ungob_Message P (rpc_Payload rpc) = Ok msg))"
proof -
  have "tcp_ok P N t" using assms by (rule tcp_steps_ok)
  moreover have "\<exists>t' rpc. readLoop_turn P N i t = Some t' \<and> tt_consumeCh t' = tt_consumeCh t @ [rpc] \<and>
      rpc_From rpc = conn_RemoteAddr N (tp_Conn peer) \<and> ungob_Message P (rpc_Payload rpc) = Ok msg"
    if "i < length (tt_readLoops t) \<and> tt_readLoops t ! i = (peer, dec) \<and>
       Decoder_Decode N dec (tt_world t) = Some (w', dec', Some msg) \<and> snd (gob_Message P msg) = Ok () \<and>
       length (tt_consumeCh t) < 1024" for i peer dec w' dec' msg
    using readLoop_turn_delivers [of i t peer dec N w' dec' msg P] that assms(2) by fast
  ultimately show ?thesis unfolding tcp_ok_def by (intro conjI allI impI) blast+
qed

text \<open>One connection, on which one message arrives before it ends.\<close>

definition demo_tcp :: "(unit, unit, nat, unit) tcp_prims" where
  "demo_tcp = \<lparr>net_Dial = (\<lambda>_ w. (w, Ok ())), net_Listen = (\<lambda>_ w. (w, Ok ())), ln_Accept = (\<lambda>_ _. None),
     conn_RemoteAddr = (\<lambda>_. ''B''), conn_Write = (\<lambda>_ _ w. (w, Ok ())), conn_Close = (\<lambda>_ w. w), NewDecoder = (\<lambda>_. 0),
     Decoder_Decode = (\<lambda>d w. Some (w, Suc d, if d = 0 then Some (NewMessage MessageTypeGetStatus []) else None))\<rparr>"

definition demo_tt1 :: "(unit, unit, nat, unit) TCPTransport" where
  "demo_tt1 = fst (TCPTransport_Connect demo_tcp ''B'' (NewTCPTransport ''A'' ()))"

definition demo_tt2 :: "(unit, unit, nat, unit) TCPTransport" where
  "demo_tt2 = the (readLoop_turn demo_P demo_tcp 0 demo_tt1)"

theorem TCP_transport_invariant_witness:
  "tt_peers demo_tt2 ''B'' = Some \<lparr>tp_Conn = (), tp_Outbound = True\<rparr> \<and>
    (\<exists>rpc msg. tt_consumeCh demo_tt2 = [rpc] \<and> ungob_Message demo_P (rpc_Payload rpc) = Ok msg)"
proof -
  have c: "TCPTransport_Connect demo_tcp ''B'' (NewTCPTransport ''A'' ()) = (demo_tt1, Ok ())"
    by (simp add: demo_tt1_def TCPTransport_Connect_def demo_tcp_def)
  have t1: "tt_peers demo_tt1 = [''B'' \<mapsto> \<lparr>tp_Conn = (), tp_Outbound = True\<rparr>]" "tt_consumeCh demo_tt1 = []"
    "tt_readLoops demo_tt1 = [(\<lparr>tp_Conn = (), tp_Outbound = True\<rparr>, 0)]"
    by (simp_all add: demo_tt1_def TCPTransport_Connect_def demo_tcp_def NewTCPTransport_def add_tcp_peer_def Let_def)
  have r: "readLoop_turn demo_P demo_tcp 0 demo_tt1 = Some demo_tt2"
    using t1 by (simp add: demo_tt2_def readLoop_turn_def demo_tcp_def Let_def)
  have t2: "tt_peers demo_tt2 = tt_peers demo_tt1" "length (tt_consumeCh demo_tt2) = 1"
    using t1 by (simp_all add: demo_tt2_def readLoop_turn_def demo_tcp_def Let_def)
  have "(tcp_step demo_P demo_tcp)\<^sup>*\<^sup>* (NewTCPTransport ''A'' ()) demo_tt2"
    using tcp_connect [OF c, of demo_P] tcp_read [OF r]
    by (meson rtranclp.rtrancl_refl rtranclp.rtrancl_into_rtrancl)
  from TCP_transport_invariant [OF this demo_gob_messages] t1 t2 show ?thesis by (auto simp: length_Suc_conv)
qed

end
